(* ===== verification/Prelude.thy ===== *)
theory Prelude
  imports Main "HOL-Library.Word"
begin

text \<open>
  The shared layer of the development: the machine integer types of the 32-bit ARM build
  (\<open>arm-linux-gcc\<close>, \<open>BINDER_IPC_32BIT\<close>), the named collections the component
  theories fill, and the lemmas on words, alignment and lists they have in common.
\<close>

unbundle bit_operations_syntax

section \<open>Types and collections\<close>

type_synonym u8 = "8 word"
type_synonym u16 = "16 word"
type_synonym u32 = "32 word"
type_synonym u64 = "64 word"

named_theorems mem_simps \<open>reading memory after a write\<close>
named_theorems layout_defs \<open>field offsets and sizes of the C structures\<close>
named_theorems proto_defs \<open>the numeric values of the protocol constants\<close>
named_theorems fs_ids \<open>the numeric user and group ids\<close>
named_theorems bio_defs \<open>definitions of the parcel operations\<close>

section \<open>Error numbers\<close>

definition EPERM :: int where "EPERM = 1"
definition EIO :: int where "EIO = 5"
definition ENOMEM :: int where "ENOMEM = 12"
definition EFAULT :: int where "EFAULT = 14"
definition EINVAL :: int where "EINVAL = 22"
definition ENOTTY :: int where "ENOTTY = 25"
definition ERESTARTSYS :: int where "ERESTARTSYS = 512"

section \<open>Words as numbers\<close>

lemma unat_of_nat_u32 [simp]: "n < 4294967296 \<Longrightarrow> unat (of_nat n :: u32) = n"
  by (simp add: unat_of_nat)

lemma u32_wrap [simp]: "(4294967296 :: u32) = 0"
  by (simp add: word_eq_iff_unsigned)

lemma unat_less_u32 [simp]: "unat (a :: u32) < 4294967296"
  using unsigned_less [of a, where 'a = nat] by simp

lemma unat_add_u32:
  fixes a b :: u32
  assumes "unat a + unat b < 4294967296"
  shows "unat (a + b) = unat a + unat b"
  using assms by (simp add: unat_word_ariths)

lemma unat_offset: "unat a + i < 4294967296 \<Longrightarrow> unat (a + of_nat i :: u32) = unat a + i"
  by (simp add: unat_add_u32)

lemma unat_sub_u32:
  fixes a b :: u32
  assumes "unat b \<le> unat a"
  shows "unat (a - b) = unat a - unat b"
  using assms by (simp add: unat_sub word_le_nat_alt)

lemma u32_eq_iff: "(a :: u32) = b \<longleftrightarrow> unat a = unat b"
  by (auto dest: word_unat_eq_iff [THEN iffD2])

lemma u32_zero_iff: "unat (a :: u32) = 0 \<longleftrightarrow> a = 0"
  by (simp add: unat_eq_0)

lemma and_not_mask_eq:
  fixes w :: "'a::len word"
  shows "w AND NOT (mask n) = w - take_bit n w"
proof -
  have "w AND NOT (mask n) = push_bit n (drop_bit n w)"
    by (rule bit_word_eqI) (auto simp: bit_simps)
  also have "\<dots> = w - take_bit n w"
    using bits_ident [of n w] by (metis add_diff_cancel_right')
  finally show ?thesis .
qed

section \<open>Rounding up to four bytes\<close>

text \<open>
  \<open>(size + 3) & (~3)\<close> as \<open>bio_alloc\<close> and \<open>bio_get\<close> write it, on the 32-bit
  \<open>size_t\<close>; the addition wraps. \<open>align4_nat\<close> is the same rounding on numbers.
\<close>

definition align4 :: "u32 \<Rightarrow> u32" where
  "align4 sz = (sz + 3) AND (NOT 3)"

definition align4_nat :: "nat \<Rightarrow> nat" where
  "align4_nat n = 4 * ((n + 3) div 4)"

lemma align4_nat_ge [simp]: "n \<le> align4_nat n"
  unfolding align4_nat_def by presburger

lemma align4_nat_less: "align4_nat n < n + 4"
  unfolding align4_nat_def by presburger

lemma align4_nat_pos: "0 < n \<Longrightarrow> 4 \<le> align4_nat n"
  unfolding align4_nat_def by presburger

lemma align4_nat_dvd [simp]: "4 dvd align4_nat n"
  unfolding align4_nat_def by simp

lemma align4_nat_mult [simp]: "4 dvd n \<Longrightarrow> align4_nat n = n"
  unfolding align4_nat_def by presburger

lemma unat_align4:
  assumes "unat sz + 3 < 4294967296"
  shows "unat (align4 sz) = align4_nat (unat sz)"
proof -
  have add: "unat (sz + 3) = unat sz + 3"
    using assms by (simp add: unat_add_u32)
  have take: "unat (take_bit 2 (sz + 3)) = (unat sz + 3) mod 4"
    by (simp add: take_bit_eq_mod unat_mod_distrib add)
  have "align4 sz = (sz + 3) - take_bit 2 (sz + 3)"
    using and_not_mask_eq [of "sz + 3" 2] by (simp add: align4_def mask_eq_exp_minus_1)
  then have "unat (align4 sz) = (unat sz + 3) - (unat sz + 3) mod 4"
    by (simp add: unat_sub_u32 add take)
  then show ?thesis
    by (simp add: align4_nat_def minus_mod_eq_mult_div)
qed

text \<open>
  The three largest sizes wrap to zero: the only inputs on which rounding up makes a sz
  smaller.
\<close>

lemma align4_wraps: "4294967293 \<le> unat sz \<Longrightarrow> align4 sz = 0"
proof -
  assume a: "4294967293 \<le> unat sz"
  have "unat (sz + 3) = (unat sz + 3) mod 4294967296"
    by (simp add: unat_word_ariths)
  moreover have "(unat sz + 3) mod 4294967296 = (unat sz + 3 - 4294967296) mod 4294967296"
    using a by (intro le_mod_geq) linarith
  moreover have "unat sz + 3 - 4294967296 < 4"
    using unat_less_u32 [of sz] by linarith
  ultimately have lt: "unat (sz + 3) < 4" by simp
  then have "take_bit 2 (sz + 3) = sz + 3"
    by (simp add: take_bit_eq_mod u32_eq_iff unat_mod_distrib)
  then show "align4 sz = 0"
    using and_not_mask_eq [of "sz + 3" 2] by (simp add: align4_def mask_eq_exp_minus_1)
qed

section \<open>Lists\<close>

lemma takeWhile_all [simp]: "(\<And>x. x \<in> set xs \<Longrightarrow> P x) \<Longrightarrow> takeWhile P xs = xs"
  by (simp add: takeWhile_eq_all_conv)

end
