(* ===== verification/C_Memory.thy ===== *)
theory C_Memory
  imports Prelude
begin

text \<open>
  The byte-addressed, little-endian memory the binder programs run in. A C object is the
  run of bytes at its address; \<open>store_bytes\<close> and \<open>load_bytes\<close> are \<open>memcpy\<close> from
  and to a list of bytes, with addresses that wrap at \<open>2 ^ 32\<close> as pointer arithmetic does
  on the machine. The lemmas say what a load sees after a store to the same place, to a
  disjoint place and to the beginning or the end of the place.
\<close>

type_synonym mem = "u32 \<Rightarrow> u8"

section \<open>Runs of bytes\<close>

definition load_bytes :: "mem \<Rightarrow> u32 \<Rightarrow> nat \<Rightarrow> u8 list" where
  "load_bytes m a n = map (\<lambda>i. m (a + of_nat i)) [0..<n]"

definition store_bytes :: "u32 \<Rightarrow> u8 list \<Rightarrow> mem \<Rightarrow> mem" where
  "store_bytes a bs m =
     (\<lambda>x. let i = unat (x - a) in if i < length bs then bs ! i else m x)"

lemma length_load_bytes [simp]: "length (load_bytes m a n) = n"
  by (simp add: load_bytes_def)

lemma load_bytes_0 [simp]: "load_bytes m a 0 = []"
  by (simp add: load_bytes_def)

lemma nth_load_bytes [simp]: "i < n \<Longrightarrow> load_bytes m a n ! i = m (a + of_nat i)"
  by (simp add: load_bytes_def)

lemma load_bytes_add:
  "load_bytes m a (n + k) = load_bytes m a n @ load_bytes m (a + of_nat n) k"
  by (rule nth_equalityI) (auto simp: nth_append add.assoc simp flip: of_nat_add)

lemma take_load_bytes: "k \<le> n \<Longrightarrow> take k (load_bytes m a n) = load_bytes m a k"
  by (rule nth_equalityI) simp_all

lemma drop_load_bytes:
  "k \<le> n \<Longrightarrow> drop k (load_bytes m a n) = load_bytes m (a + of_nat k) (n - k)"
  by (rule nth_equalityI) (simp_all add: add.assoc)

lemma load_bytes_cong:
  "(\<And>i. i < n \<Longrightarrow> m (a + of_nat i) = m' (a + of_nat i)) \<Longrightarrow> load_bytes m a n = load_bytes m' a n"
  by (simp add: load_bytes_def)

lemma store_bytes_Nil [simp]: "store_bytes a [] m = m"
  by (simp add: store_bytes_def)

lemma load_store_same [mem_simps]:
  "length bs \<le> 4294967296 \<Longrightarrow> load_bytes (store_bytes a bs m) a (length bs) = bs"
  by (rule nth_equalityI) (simp_all add: store_bytes_def)

lemma load_store_same_len [mem_simps]:
  "n = length bs \<Longrightarrow> n \<le> 4294967296 \<Longrightarrow> load_bytes (store_bytes a bs m) a n = bs"
  by (simp add: load_store_same)

section \<open>Disjoint runs\<close>

text \<open>
  \<open>apart a n b k\<close>: no byte of the \<open>n\<close> bytes at \<open>a\<close> is one of the \<open>k\<close> bytes at
  \<open>b\<close>, all addresses taken modulo \<open>2 ^ 32\<close>. Two runs at numeric offsets of one base
  that do not overlap as intervals are apart.
\<close>

definition apart :: "u32 \<Rightarrow> nat \<Rightarrow> u32 \<Rightarrow> nat \<Rightarrow> bool" where
  "apart a n b k \<longleftrightarrow> (\<forall>i<n. k \<le> unat (a + of_nat i - b))"

lemma load_store_apart [mem_simps]:
  "apart a n b (length bs) \<Longrightarrow> load_bytes (store_bytes b bs m) a n = load_bytes m a n"
  by (rule load_bytes_cong) (auto simp: apart_def store_bytes_def Let_def)

lemma apart_offsets:
  assumes "i + n \<le> j \<or> j + k \<le> i" and "i + n \<le> 4294967296" and "j + k \<le> 4294967296"
  shows "apart (base + of_nat i) n (base + of_nat j) k"
  unfolding apart_def
proof (intro allI impI)
  fix l assume l: "l < n"
  have diff: "base + of_nat i + of_nat l - (base + of_nat j) = of_nat (i + l) - (of_nat j :: u32)"
    by simp
  show "k \<le> unat (base + of_nat i + of_nat l - (base + of_nat j))"
  proof (cases "j \<le> i + l")
    case True
    then have "of_nat (i + l) - (of_nat j :: u32) = of_nat (i + l - j)"
      by (simp add: of_nat_diff)
    moreover have "k \<le> i + l - j"
      using assms True l by auto
    ultimately show ?thesis
      using assms l by (simp add: diff)
  next
    case False
    then have "(of_nat (i + l) :: u32) - of_nat j = - of_nat (j - (i + l))"
      by (simp add: of_nat_diff)
    also have "\<dots> = of_nat (4294967296 - (j - (i + l)))"
      using False assms by (simp add: of_nat_diff)
    finally have "unat ((of_nat (i + l) :: u32) - of_nat j) = 4294967296 - (j - (i + l))"
      using False assms by (simp only: unat_of_nat_u32)
    then show ?thesis
      using False assms l by (simp add: diff)
  qed
qed

lemma apart_zero [simp]: "apart a 0 b k" "apart a n b 0"
  by (simp_all add: apart_def)

lemma apart_subL: "apart a n b k \<Longrightarrow> i + n' \<le> n \<Longrightarrow> apart (a + of_nat i) n' b k"
  unfolding apart_def
  by (metis (no_types, lifting) add.assoc add_less_cancel_left less_le_trans of_nat_add)

text \<open>A store of two runs one after the other is one store of their concatenation.\<close>

lemma store_bytes_append:
  assumes "length xs + length ys \<le> 4294967296"
  shows "store_bytes (a + of_nat (length xs)) ys (store_bytes a xs m) = store_bytes a (xs @ ys) m"
proof
  fix x
  have diff: "x - (a + of_nat (length xs)) = (x - a) - of_nat (length xs)"
    by simp
  show "store_bytes (a + of_nat (length xs)) ys (store_bytes a xs m) x = store_bytes a (xs @ ys) m x"
  proof (cases "length xs \<le> unat (x - a)")
    case True
    have len: "length xs < 4294967296"
      using True unat_less_u32 [of "x - a"] by linarith
    then have "unat (x - (a + of_nat (length xs))) = unat (x - a) - length xs"
      using True by (simp add: diff unat_sub_u32)
    then show ?thesis
      using True by (auto simp: store_bytes_def nth_append Let_def)
  next
    case False
    then have lt: "unat (x - a) < length xs" by simp
    have "apart a (length xs) (a + of_nat (length xs)) (length ys)"
      using apart_offsets [of 0 "length xs" "length xs" "length ys" a] assms by simp
    then have "length ys \<le> unat (a + of_nat (unat (x - a)) - (a + of_nat (length xs)))"
      using lt by (simp only: apart_def)
    then have "length ys \<le> unat (x - (a + of_nat (length xs)))"
      by simp
    then show ?thesis
      using lt by (auto simp: store_bytes_def nth_append Let_def)
  qed
qed

section \<open>16- and 32-bit values\<close>

definition le16 :: "u16 \<Rightarrow> u8 list" where
  "le16 w = [ucast w, ucast (drop_bit 8 w)]"

definition le32 :: "u32 \<Rightarrow> u8 list" where
  "le32 w = [ucast w, ucast (drop_bit 8 w), ucast (drop_bit 16 w), ucast (drop_bit 24 w)]"

fun from_le16 :: "u8 list \<Rightarrow> u16" where
  "from_le16 [a, b] = ucast a OR push_bit 8 (ucast b)"
| "from_le16 _ = 0"

fun from_le32 :: "u8 list \<Rightarrow> u32" where
  "from_le32 [a, b, c, d] =
     ucast a OR push_bit 8 (ucast b) OR push_bit 16 (ucast c) OR push_bit 24 (ucast d)"
| "from_le32 _ = 0"

lemma length_le16 [simp]: "length (le16 w) = 2"
  by (simp add: le16_def)

lemma length_le32 [simp]: "length (le32 w) = 4"
  by (simp add: le32_def)

lemma from_le16_le16 [simp]: "from_le16 (le16 w) = w"
  by (rule bit_word_eqI) (auto simp: le16_def bit_simps)

lemma from_le32_le32 [simp]: "from_le32 (le32 w) = w"
proof (rule bit_word_eqI)
  fix n assume "n < LENGTH(32)"
  then consider "n < 8" | "8 \<le> n \<and> n < 16" | "16 \<le> n \<and> n < 24" | "24 \<le> n \<and> n < 32"
    by fastforce
  then show "bit (from_le32 (le32 w)) n \<longleftrightarrow> bit w n"
    by cases (auto simp: le32_def bit_simps)
qed

definition load16 :: "mem \<Rightarrow> u32 \<Rightarrow> u16" where
  "load16 m a = from_le16 (load_bytes m a 2)"

definition load32 :: "mem \<Rightarrow> u32 \<Rightarrow> u32" where
  "load32 m a = from_le32 (load_bytes m a 4)"

definition store16 :: "u32 \<Rightarrow> u16 \<Rightarrow> mem \<Rightarrow> mem" where
  "store16 a w = store_bytes a (le16 w)"

definition store32 :: "u32 \<Rightarrow> u32 \<Rightarrow> mem \<Rightarrow> mem" where
  "store32 a w = store_bytes a (le32 w)"

lemma load32_store32 [simp]: "load32 (store32 a w m) a = w"
  by (simp add: load32_def store32_def mem_simps)

lemma load16_store16 [simp]: "load16 (store16 a w m) a = w"
  by (simp add: load16_def store16_def mem_simps)

lemma load32_store_apart [mem_simps]:
  "apart a 4 b (length bs) \<Longrightarrow> load32 (store_bytes b bs m) a = load32 m a"
  by (simp add: load32_def mem_simps)

lemma load32_prefix: "load_bytes m a n = le32 w @ bs \<Longrightarrow> load32 m a = w"
proof -
  assume eq: "load_bytes m a n = le32 w @ bs"
  then have "4 \<le> n"
    by (metis length_append length_le32 length_load_bytes le_add1)
  then have "load_bytes m a 4 = le32 w"
    using eq take_load_bytes [of 4 n m a] by simp
  then show ?thesis by (simp add: load32_def)
qed

end
