(* ===== verification/Binder_Proto.thy ===== *)
theory Binder_Proto
  imports C_Memory
begin

text \<open>
  The binder user/kernel protocol of \<open>binder/include/linux/binder.h\<close>, compiled with
  \<open>BINDER_IPC_32BIT\<close> as \<open>binder/Makefile\<close> and \<open>binder/Android.mk\<close> do:
  \<open>binder_size_t\<close> and \<open>binder_uintptr_t\<close> are 32 bits wide. It holds the numeric
  command codes and the layout of the structures that cross the boundary, each with the
  function that reads it from memory and the bytes it is written as.
\<close>

type_synonym binder_size_t = u32
type_synonym binder_uintptr_t = u32

section \<open>Command codes\<close>

definition B_PACK_CHARS :: "u32 \<Rightarrow> u32 \<Rightarrow> u32 \<Rightarrow> u32 \<Rightarrow> u32" where
  "B_PACK_CHARS c1 c2 c3 c4 = push_bit 24 c1 OR push_bit 16 c2 OR push_bit 8 c3 OR c4"

definition B_TYPE_LARGE :: u32 where
  "B_TYPE_LARGE = 0x85"

definition BINDER_TYPE_BINDER :: u32 where
  "BINDER_TYPE_BINDER = B_PACK_CHARS (of_char CHR ''s'') (of_char CHR ''b'') (of_char CHR ''*'') B_TYPE_LARGE"

definition BINDER_TYPE_HANDLE :: u32 where
  "BINDER_TYPE_HANDLE = B_PACK_CHARS (of_char CHR ''s'') (of_char CHR ''h'') (of_char CHR ''*'') B_TYPE_LARGE"

definition FLAT_BINDER_FLAG_ACCEPTS_FDS :: u32 where
  "FLAT_BINDER_FLAG_ACCEPTS_FDS = 0x100"

definition BINDER_CURRENT_PROTOCOL_VERSION :: int where
  "BINDER_CURRENT_PROTOCOL_VERSION = 7"

definition TF_STATUS_CODE :: u32 where
  "TF_STATUS_CODE = 0x08"

text \<open>
  The \<open>_IO\<close>, \<open>_IOR\<close> and \<open>_IOW\<close> macros of the system's ioctl header: direction in
  bits 30 and 31, argument size in bits 16 to 29, type in bits 8 to 15, number in bits 0 to 7.
\<close>

definition IOC :: "u32 \<Rightarrow> u32 \<Rightarrow> u32 \<Rightarrow> u32 \<Rightarrow> u32" where
  "IOC dir ty nr sz = push_bit 30 dir OR push_bit 16 sz OR push_bit 8 ty OR nr"

definition IO :: "char \<Rightarrow> u32 \<Rightarrow> u32" where
  "IO ty nr = IOC 0 (of_char ty) nr 0"

definition IOW :: "char \<Rightarrow> u32 \<Rightarrow> u32 \<Rightarrow> u32" where
  "IOW ty nr sz = IOC 1 (of_char ty) nr sz"

definition IOR :: "char \<Rightarrow> u32 \<Rightarrow> u32 \<Rightarrow> u32" where
  "IOR ty nr sz = IOC 2 (of_char ty) nr sz"

text \<open>Sizes in bytes of the structures the codes mention.\<close>

definition sizeof_txn :: u32 where [layout_defs]: "sizeof_txn = 40"
definition sizeof_obj :: u32 where [layout_defs]: "sizeof_obj = 16"
definition sizeof_ptr_cookie :: u32 where [layout_defs]: "sizeof_ptr_cookie = 8"
definition sizeof_handle_cookie :: u32 where [layout_defs]: "sizeof_handle_cookie = 8"
definition sizeof_uintptr :: u32 where [layout_defs]: "sizeof_uintptr = 4"
definition sizeof_size_t :: u32 where [layout_defs]: "sizeof_size_t = 4"

definition BR_TRANSACTION :: u32 where "BR_TRANSACTION = IOR CHR ''r'' 2 sizeof_txn"
definition BR_REPLY :: u32 where "BR_REPLY = IOR CHR ''r'' 3 sizeof_txn"
definition BR_DEAD_REPLY :: u32 where "BR_DEAD_REPLY = IO CHR ''r'' 5"
definition BR_TRANSACTION_COMPLETE :: u32 where "BR_TRANSACTION_COMPLETE = IO CHR ''r'' 6"
definition BR_INCREFS :: u32 where "BR_INCREFS = IOR CHR ''r'' 7 sizeof_ptr_cookie"
definition BR_ACQUIRE :: u32 where "BR_ACQUIRE = IOR CHR ''r'' 8 sizeof_ptr_cookie"
definition BR_RELEASE :: u32 where "BR_RELEASE = IOR CHR ''r'' 9 sizeof_ptr_cookie"
definition BR_DECREFS :: u32 where "BR_DECREFS = IOR CHR ''r'' 10 sizeof_ptr_cookie"
definition BR_NOOP :: u32 where "BR_NOOP = IO CHR ''r'' 12"
definition BR_SPAWN_LOOPER :: u32 where "BR_SPAWN_LOOPER = IO CHR ''r'' 13"
definition BR_DEAD_BINDER :: u32 where "BR_DEAD_BINDER = IOR CHR ''r'' 15 sizeof_uintptr"
definition BR_FAILED_REPLY :: u32 where "BR_FAILED_REPLY = IO CHR ''r'' 17"

definition BC_TRANSACTION :: u32 where "BC_TRANSACTION = IOW CHR ''c'' 0 sizeof_txn"
definition BC_REPLY :: u32 where "BC_REPLY = IOW CHR ''c'' 1 sizeof_txn"
definition BC_FREE_BUFFER :: u32 where "BC_FREE_BUFFER = IOW CHR ''c'' 3 sizeof_uintptr"
definition BC_ACQUIRE :: u32 where "BC_ACQUIRE = IOW CHR ''c'' 5 4"
definition BC_RELEASE :: u32 where "BC_RELEASE = IOW CHR ''c'' 6 4"
definition BC_REGISTER_LOOPER :: u32 where "BC_REGISTER_LOOPER = IO CHR ''c'' 11"
definition BC_ENTER_LOOPER :: u32 where "BC_ENTER_LOOPER = IO CHR ''c'' 12"
definition BC_REQUEST_DEATH_NOTIFICATION :: u32 where
  "BC_REQUEST_DEATH_NOTIFICATION = IOW CHR ''c'' 14 sizeof_handle_cookie"

text \<open>The values, as numerals: what the simplifier needs to tell the switch labels apart.\<close>

lemmas ioc_defs = IOC_def IO_def IOW_def IOR_def layout_defs

lemma br_values [proto_defs]:
  "BR_TRANSACTION = 0x80287202" "BR_REPLY = 0x80287203" "BR_DEAD_REPLY = 0x7205"
  "BR_TRANSACTION_COMPLETE = 0x7206" "BR_INCREFS = 0x80087207" "BR_ACQUIRE = 0x80087208"
  "BR_RELEASE = 0x80087209" "BR_DECREFS = 0x8008720A" "BR_NOOP = 0x720C"
  "BR_SPAWN_LOOPER = 0x720D" "BR_DEAD_BINDER = 0x8004720F" "BR_FAILED_REPLY = 0x7211"
  by (simp_all add: BR_TRANSACTION_def BR_REPLY_def BR_DEAD_REPLY_def BR_TRANSACTION_COMPLETE_def
      BR_INCREFS_def BR_ACQUIRE_def BR_RELEASE_def BR_DECREFS_def BR_NOOP_def BR_SPAWN_LOOPER_def
      BR_DEAD_BINDER_def BR_FAILED_REPLY_def ioc_defs)

lemma bc_values [proto_defs]:
  "BC_TRANSACTION = 0x40286300" "BC_REPLY = 0x40286301" "BC_FREE_BUFFER = 0x40046303"
  "BC_ACQUIRE = 0x40046305" "BC_RELEASE = 0x40046306" "BC_REGISTER_LOOPER = 0x630B"
  "BC_ENTER_LOOPER = 0x630C" "BC_REQUEST_DEATH_NOTIFICATION = 0x4008630E"
  by (simp_all add: BC_TRANSACTION_def BC_REPLY_def BC_FREE_BUFFER_def BC_ACQUIRE_def
      BC_RELEASE_def BC_REGISTER_LOOPER_def BC_ENTER_LOOPER_def
      BC_REQUEST_DEATH_NOTIFICATION_def ioc_defs)

lemma type_values [proto_defs]:
  "BINDER_TYPE_BINDER = 0x73622A85" "BINDER_TYPE_HANDLE = 0x73682A85"
  by (simp_all add: BINDER_TYPE_BINDER_def BINDER_TYPE_HANDLE_def B_PACK_CHARS_def B_TYPE_LARGE_def)

section \<open>Structures\<close>

text \<open>
  \<open>struct flat_binder_object\<close>: the union of \<open>binder\<close> and \<open>handle\<close> is one 32-bit
  field in this build.
\<close>

record flat_binder_object =
  o_type :: u32
  o_flags :: u32
  o_binder :: u32
  o_cookie :: u32

definition obj_bytes :: "flat_binder_object \<Rightarrow> u8 list" where
  "obj_bytes obj = le32 (o_type obj) @ le32 (o_flags obj) @ le32 (o_binder obj) @ le32 (o_cookie obj)"

definition load_obj :: "mem \<Rightarrow> u32 \<Rightarrow> flat_binder_object" where
  "load_obj m p = \<lparr>o_type = load32 m p, o_flags = load32 m (p + 4),
     o_binder = load32 m (p + 8), o_cookie = load32 m (p + 12)\<rparr>"

definition store_obj :: "u32 \<Rightarrow> flat_binder_object \<Rightarrow> mem \<Rightarrow> mem" where
  "store_obj p obj = store_bytes p (obj_bytes obj)"

lemma length_obj_bytes [simp]: "length (obj_bytes obj) = 16"
  by (simp add: obj_bytes_def)

record binder_write_read =
  write_size :: binder_size_t
  write_consumed :: binder_size_t
  write_buffer :: binder_uintptr_t
  read_size :: binder_size_t
  read_consumed :: binder_size_t
  read_buffer :: binder_uintptr_t

text \<open>
  \<open>struct binder_transaction_data\<close>, with \<open>target\<close> the union of \<open>handle\<close> and
  \<open>ptr\<close> and \<open>t_buffer\<close>, \<open>t_offsets\<close> the member \<open>data.ptr\<close> of the second union.
\<close>

record binder_transaction_data =
  t_target :: u32
  t_cookie :: binder_uintptr_t
  t_code :: u32
  t_flags :: u32
  t_sender_pid :: u32
  t_sender_euid :: u32
  t_data_size :: binder_size_t
  t_offsets_size :: binder_size_t
  t_buffer :: binder_uintptr_t
  t_offsets :: binder_uintptr_t

definition load_txn :: "mem \<Rightarrow> u32 \<Rightarrow> binder_transaction_data" where
  "load_txn m p = \<lparr>t_target = load32 m p, t_cookie = load32 m (p + 4), t_code = load32 m (p + 8),
     t_flags = load32 m (p + 12), t_sender_pid = load32 m (p + 16),
     t_sender_euid = load32 m (p + 20), t_data_size = load32 m (p + 24),
     t_offsets_size = load32 m (p + 28), t_buffer = load32 m (p + 32),
     t_offsets = load32 m (p + 36)\<rparr>"

definition txn_bytes :: "binder_transaction_data \<Rightarrow> u8 list" where
  "txn_bytes t = le32 (t_target t) @ le32 (t_cookie t) @ le32 (t_code t) @ le32 (t_flags t) @
     le32 (t_sender_pid t) @ le32 (t_sender_euid t) @ le32 (t_data_size t) @
     le32 (t_offsets_size t) @ le32 (t_buffer t) @ le32 (t_offsets t)"

lemma length_txn_bytes [simp]: "length (txn_bytes t) = 40"
  by (simp add: txn_bytes_def)

text \<open>Reading a word out of the middle of a known run of bytes.\<close>

lemma load32_at:
  assumes "load_bytes m a n = pre @ le32 w @ post" and "of_nat (length pre) = k"
  shows "load32 m (a + k) = w"
proof -
  have "n = length pre + (4 + length post)"
    using assms(1) by (metis length_append length_le32 length_load_bytes)
  then have "load_bytes m (a + k) (4 + length post) = le32 w @ post"
    using assms drop_load_bytes [of "length pre" n m a] by simp
  then show ?thesis by (rule load32_prefix)
qed

text \<open>Decoding inverts encoding, wherever the bytes lie in memory.\<close>

lemma load_obj_bytes:
  assumes "load_bytes m p n = obj_bytes obj @ rest"
  shows "load_obj m p = obj"
proof -
  have "load32 m p = o_type obj"
    using assms by (auto simp: obj_bytes_def intro: load32_prefix)
  moreover have "load32 m (p + 4) = o_flags obj"
    using assms by (intro load32_at [where pre = "le32 (o_type obj)"]) (auto simp: obj_bytes_def)
  moreover have "load32 m (p + 8) = o_binder obj"
    using assms by (intro load32_at [where pre = "le32 (o_type obj) @ le32 (o_flags obj)"])
      (auto simp: obj_bytes_def)
  moreover have "load32 m (p + 12) = o_cookie obj"
    using assms
    by (intro load32_at [where pre = "le32 (o_type obj) @ le32 (o_flags obj) @ le32 (o_binder obj)"])
      (auto simp: obj_bytes_def)
  ultimately show ?thesis by (simp add: load_obj_def)
qed

lemma load_obj_store_obj [simp]: "load_obj (store_obj p obj m) p = obj"
  by (rule load_obj_bytes [where n = 16 and rest = "[]"]) (simp add: store_obj_def mem_simps)

end
