(* ===== verification/Binder_IO.thy ===== *)
theory Binder_IO
  imports Binder_Proto
begin

text \<open>
  The parcels of \<open>binder/binder.c\<close> (\<open>struct binder_io\<close> and the \<open>bio_*\<close> functions):
  a message is written by allocating four-byte aligned pieces of a buffer whose first words
  are reserved for object offsets, and read by taking pieces off its front. A NULL pointer is
  the address 0. The functions that only move the cursor take and return the
  \<open>binder_io\<close>; those that also write the buffer take and return memory as well.
\<close>

section \<open>State\<close>

definition BIO_F_SHARED :: u32 where "BIO_F_SHARED = 0x01"
definition BIO_F_OVERFLOW :: u32 where "BIO_F_OVERFLOW = 0x02"
definition BIO_F_IOERROR :: u32 where "BIO_F_IOERROR = 0x04"
definition BIO_F_MALLOCED :: u32 where "BIO_F_MALLOCED = 0x08"
definition MAX_BIO_SIZE :: u32 where "MAX_BIO_SIZE = push_bit 30 1"

lemmas bio_flag_defs = BIO_F_SHARED_def BIO_F_OVERFLOW_def BIO_F_IOERROR_def BIO_F_MALLOCED_def

record binder_io =
  b_data :: u32
  b_offs :: u32
  b_data_avail :: u32
  b_offs_avail :: u32
  b_data0 :: u32
  b_offs0 :: u32
  b_flags :: u32

text \<open>\<open>memset(reply, 0, sizeof( *reply))\<close>, and what an uninitialised local is taken to hold.\<close>

definition zero_bio :: binder_io where
  "zero_bio = \<lparr>b_data = 0, b_offs = 0, b_data_avail = 0, b_offs_avail = 0,
     b_data0 = 0, b_offs0 = 0, b_flags = 0\<rparr>"

definition bio_overflow :: "binder_io \<Rightarrow> binder_io" where
  "bio_overflow bio = bio\<lparr>b_flags := b_flags bio OR BIO_F_OVERFLOW\<rparr>"

section \<open>Operations\<close>

definition bio_init_from_txn :: "mem \<Rightarrow> u32 \<Rightarrow> binder_io \<Rightarrow> binder_io" where
  "bio_init_from_txn m txn bio =
     bio\<lparr>b_data := t_buffer (load_txn m txn), b_data0 := t_buffer (load_txn m txn),
         b_offs := t_offsets (load_txn m txn), b_offs0 := t_offsets (load_txn m txn),
         b_data_avail := t_data_size (load_txn m txn),
         b_offs_avail := t_offsets_size (load_txn m txn) div sizeof_size_t,
         b_flags := BIO_F_SHARED\<rparr>"

definition bio_init :: "binder_io \<Rightarrow> u32 \<Rightarrow> u32 \<Rightarrow> u32 \<Rightarrow> binder_io" where
  "bio_init bio dat maxdata maxoffs =
     (let n = maxoffs * sizeof_size_t in
      if n > maxdata
      then bio\<lparr>b_flags := BIO_F_OVERFLOW, b_data_avail := 0, b_offs_avail := 0\<rparr>
      else bio\<lparr>b_data := dat + n, b_data0 := dat + n, b_offs := dat, b_offs0 := dat,
               b_data_avail := maxdata - n, b_offs_avail := maxoffs, b_flags := 0\<rparr>)"

definition bio_alloc :: "binder_io \<Rightarrow> u32 \<Rightarrow> u32 \<times> binder_io" where
  "bio_alloc bio sz0 =
     (let sz = align4 sz0 in
      if sz > b_data_avail bio then (0, bio_overflow bio)
      else (b_data bio, bio\<lparr>b_data := b_data bio + sz, b_data_avail := b_data_avail bio - sz\<rparr>))"

definition bio_alloc_obj :: "binder_io \<times> mem \<Rightarrow> u32 \<times> binder_io \<times> mem" where
  "bio_alloc_obj = (\<lambda>(bio, m).
     let (obj, bio) = bio_alloc bio sizeof_obj in
     if obj \<noteq> 0 \<and> b_offs_avail bio \<noteq> 0
     then (obj, bio\<lparr>b_offs_avail := b_offs_avail bio - 1, b_offs := b_offs bio + sizeof_size_t\<rparr>,
           store32 (b_offs bio) (obj - b_data0 bio) m)
     else (0, bio_overflow bio, m))"

definition bio_put_uint32 :: "u32 \<Rightarrow> binder_io \<times> mem \<Rightarrow> binder_io \<times> mem" where
  "bio_put_uint32 n = (\<lambda>(bio, m).
     let (ptr, bio) = bio_alloc bio 4 in (bio, if ptr \<noteq> 0 then store32 ptr n m else m))"

text \<open>The fields \<open>bio_put_obj\<close> and \<open>bio_put_ref\<close> fill in.\<close>

definition binder_obj :: "u32 \<Rightarrow> flat_binder_object" where
  "binder_obj ptr = \<lparr>o_type = BINDER_TYPE_BINDER,
     o_flags = 0x7f OR FLAT_BINDER_FLAG_ACCEPTS_FDS, o_binder = ptr, o_cookie = 0\<rparr>"

definition handle_obj :: "u32 \<Rightarrow> flat_binder_object" where
  "handle_obj h = \<lparr>o_type = BINDER_TYPE_HANDLE,
     o_flags = 0x7f OR FLAT_BINDER_FLAG_ACCEPTS_FDS, o_binder = h, o_cookie = 0\<rparr>"

definition bio_put_obj :: "u32 \<Rightarrow> binder_io \<times> mem \<Rightarrow> binder_io \<times> mem" where
  "bio_put_obj ptr = (\<lambda>(bio, m).
     let (obj, bio, m) = bio_alloc_obj (bio, m) in
     if obj = 0 then (bio, m)
     else (bio, store_obj obj (binder_obj ptr) m))"

definition bio_put_ref :: "u32 \<Rightarrow> binder_io \<times> mem \<Rightarrow> binder_io \<times> mem" where
  "bio_put_ref handle = (\<lambda>(bio, m).
     let (obj, bio, m) =
       (if handle \<noteq> 0 then bio_alloc_obj (bio, m)
        else (case bio_alloc bio sizeof_obj of (obj, bio) \<Rightarrow> (obj, bio, m))) in
     if obj = 0 then (bio, m)
     else (bio, store_obj obj (handle_obj handle) m))"

text \<open>
  \<open>str\<close> is NULL or the array of 16-bit units it points to, scanned up to its first zero.
\<close>

definition utf16_bytes :: "u16 list \<Rightarrow> u8 list" where
  "utf16_bytes s = concat (map le16 s)"

definition bio_put_string16 :: "u16 list option \<Rightarrow> binder_io \<times> mem \<Rightarrow> binder_io \<times> mem" where
  "bio_put_string16 str p =
     (case str of None \<Rightarrow> bio_put_uint32 0xffffffff p
      | Some s \<Rightarrow>
        let chars = takeWhile (\<lambda>c. c \<noteq> 0) s; len = (of_nat (length chars) :: u32) in
        if len \<ge> MAX_BIO_SIZE div 2 then bio_put_uint32 0xffffffff p
        else
          let (bio, m) = bio_put_uint32 len p;
              (ptr, bio) = bio_alloc bio ((len + 1) * 2)
          in (bio, if ptr \<noteq> 0 then store_bytes ptr (utf16_bytes (chars @ [0])) m else m))"

text \<open>
  The argument of \<open>bio_put_string16_x\<close> is a C string: \<open>strlen\<close> and the copying loop
  stop at the first NUL. Each byte is widened to 16 bits.
\<close>

definition c_string :: "string \<Rightarrow> string" where
  "c_string s = takeWhile (\<lambda>c. c \<noteq> CHR 0x00) s"

definition widen :: "string \<Rightarrow> u16 list" where
  "widen s = map of_char (c_string s)"

fun put_chars :: "u32 \<Rightarrow> string \<Rightarrow> mem \<Rightarrow> mem" where
  "put_chars ptr [] m = store16 ptr 0 m"
| "put_chars ptr (c # cs) m = put_chars (ptr + 2) cs (store16 ptr (of_char c) m)"

definition bio_put_string16_x :: "string option \<Rightarrow> binder_io \<times> mem \<Rightarrow> binder_io \<times> mem" where
  "bio_put_string16_x str p =
     (case str of None \<Rightarrow> bio_put_uint32 0xffffffff p
      | Some s \<Rightarrow>
        let len = (of_nat (length (c_string s)) :: u32) in
        if len \<ge> MAX_BIO_SIZE div 2 then bio_put_uint32 0xffffffff p
        else
          let (bio, m) = bio_put_uint32 len p;
              (ptr, bio) = bio_alloc bio ((len + 1) * 2)
          in (bio, if ptr \<noteq> 0 then put_chars ptr (c_string s) m else m))"

definition bio_get :: "binder_io \<Rightarrow> u32 \<Rightarrow> u32 \<times> binder_io" where
  "bio_get bio sz0 =
     (let sz = align4 sz0 in
      if b_data_avail bio < sz then (0, bio_overflow (bio\<lparr>b_data_avail := 0\<rparr>))
      else (b_data bio, bio\<lparr>b_data := b_data bio + sz, b_data_avail := b_data_avail bio - sz\<rparr>))"

definition bio_get_uint32 :: "mem \<Rightarrow> binder_io \<Rightarrow> u32 \<times> binder_io" where
  "bio_get_uint32 m bio =
     (let (ptr, bio) = bio_get bio 4 in (if ptr \<noteq> 0 then load32 m ptr else 0, bio))"

text \<open>The result is the pointer, the length stored through \<open>sz\<close>, and the parcel.\<close>

definition bio_get_string16 :: "mem \<Rightarrow> binder_io \<Rightarrow> u32 \<times> u32 \<times> binder_io" where
  "bio_get_string16 m bio =
     (let (len, bio) = bio_get_uint32 m bio; (ptr, bio) = bio_get bio ((len + 1) * 2)
      in (ptr, len, bio))"

definition has_offset :: "mem \<Rightarrow> binder_io \<Rightarrow> u32 \<Rightarrow> bool" where
  "has_offset m bio off =
     list_ex (\<lambda>n. load32 m (b_offs bio + 4 * of_nat n) = off) [0..<unat (b_offs_avail bio)]"

definition bio_get_obj :: "mem \<Rightarrow> binder_io \<Rightarrow> u32 \<times> binder_io" where
  "bio_get_obj m bio =
     (if has_offset m bio (b_data bio - b_data0 bio) then bio_get bio sizeof_obj
      else (0, bio_overflow (bio\<lparr>b_data_avail := 0\<rparr>)))"

definition bio_get_ref :: "mem \<Rightarrow> binder_io \<Rightarrow> u32 \<times> binder_io" where
  "bio_get_ref m bio =
     (let (obj, bio) = bio_get_obj m bio in
      if obj = 0 then (0, bio)
      else if o_type (load_obj m obj) = BINDER_TYPE_HANDLE then (o_binder (load_obj m obj), bio)
      else (0, bio))"

lemmas [bio_defs] = bio_alloc_def bio_alloc_obj_def bio_put_uint32_def bio_put_obj_def
  bio_put_ref_def bio_put_string16_def bio_put_string16_x_def bio_get_def bio_get_uint32_def
  bio_get_string16_def bio_get_obj_def bio_get_ref_def bio_overflow_def

section \<open>Moving the cursor\<close>

text \<open>
  \<open>bio_adv b k\<close> moves the cursor \<open>k\<close> bytes on. \<open>bio_cursor b\<close> says that the bytes
  the parcel still claims are a run of addresses that neither starts at NULL nor wraps.
\<close>

definition bio_adv :: "binder_io \<Rightarrow> nat \<Rightarrow> binder_io" where
  "bio_adv b k = b\<lparr>b_data := b_data b + of_nat k, b_data_avail := b_data_avail b - of_nat k\<rparr>"

definition bio_cursor :: "binder_io \<Rightarrow> bool" where
  "bio_cursor b \<longleftrightarrow> b_data b \<noteq> 0 \<and> unat (b_data b) + unat (b_data_avail b) < 4294967296"

definition bio_room :: "binder_io \<Rightarrow> nat" where
  "bio_room b = unat (b_data_avail b)"

definition bio_rest :: "mem \<Rightarrow> binder_io \<Rightarrow> u8 list" where
  "bio_rest m b = load_bytes m (b_data b) (bio_room b)"

lemma bio_adv_sel [simp]:
  "b_data (bio_adv b k) = b_data b + of_nat k" "b_offs (bio_adv b k) = b_offs b"
  "b_offs_avail (bio_adv b k) = b_offs_avail b" "b_data0 (bio_adv b k) = b_data0 b"
  "b_offs0 (bio_adv b k) = b_offs0 b" "b_flags (bio_adv b k) = b_flags b"
  by (simp_all add: bio_adv_def)

lemma bio_adv_adv: "bio_adv (bio_adv b j) k = bio_adv b (j + k)"
  by (simp add: bio_adv_def algebra_simps)

lemma bio_room_less [simp]: "bio_room b < 4294967296"
  by (simp add: bio_room_def)

lemma bio_room_0 [simp]: "bio_room (b\<lparr>b_data_avail := 0\<rparr>) = 0"
  by (simp add: bio_room_def)

lemma bio_room_adv [simp]: "k \<le> bio_room b \<Longrightarrow> bio_room (bio_adv b k) = bio_room b - k"
  by (simp add: bio_room_def bio_adv_def unat_sub_u32 le_unat_uoi)

lemma bio_cursor_adv [simp]:
  assumes "bio_cursor b" and "k \<le> bio_room b"
  shows "bio_cursor (bio_adv b k)"
proof -
  have k: "k < 4294967296" using assms(2) bio_room_less [of b] by linarith
  then have d: "unat (b_data b + of_nat k) = unat (b_data b) + k"
    using assms by (simp add: unat_add_u32 bio_cursor_def bio_room_def)
  have "unat (b_data_avail (bio_adv b k)) = bio_room b - k"
    using bio_room_adv [OF assms(2)] by (simp add: bio_room_def)
  moreover have "b_data b + of_nat k \<noteq> 0"
    using assms(1) d by (metis add_is_0 bio_cursor_def unat_0 unat_eq_0)
  ultimately show ?thesis
    using assms d by (simp add: bio_cursor_def bio_room_def)
qed

lemma length_bio_rest [simp]: "length (bio_rest m b) = bio_room b"
  by (simp add: bio_rest_def)

lemma bio_rest_adv: "k \<le> bio_room b \<Longrightarrow> bio_rest m (bio_adv b k) = drop k (bio_rest m b)"
  by (simp add: bio_rest_def drop_load_bytes)

text \<open>
  \<open>bio_alloc\<close> and \<open>bio_get\<close> agree when the rounded size fits: both return the cursor and
  move it. They differ only in what they do to \<open>data_avail\<close> when it does not.
\<close>

lemma of_nat_align4:
  "unat sz + 3 < 4294967296 \<Longrightarrow> align4 sz = of_nat (align4_nat (unat sz))"
  using unat_align4 [of sz] by (metis unat_of_nat_u32 unat_less_u32 u32_eq_iff)

lemma bio_alloc_ok:
  assumes "unat sz + 3 < 4294967296" and "align4_nat (unat sz) \<le> bio_room b"
  shows "bio_alloc b sz = (b_data b, bio_adv b (align4_nat (unat sz)))"
  using assms by (simp add: bio_alloc_def bio_adv_def word_less_nat_alt of_nat_align4
      le_unat_uoi bio_room_def Let_def)

lemma bio_get_ok:
  assumes "unat sz + 3 < 4294967296" and "align4_nat (unat sz) \<le> bio_room b"
  shows "bio_get b sz = (b_data b, bio_adv b (align4_nat (unat sz)))"
  using assms by (simp add: bio_get_def bio_adv_def word_less_nat_alt of_nat_align4
      le_unat_uoi bio_room_def Let_def)

lemma bio_alloc_fail:
  assumes "unat sz + 3 < 4294967296" and "bio_room b < align4_nat (unat sz)"
  shows "bio_alloc b sz = (0, bio_overflow b)"
  using assms by (simp add: bio_alloc_def word_less_nat_alt unat_align4 bio_room_def)

lemma bio_get_fail:
  assumes "unat sz + 3 < 4294967296" and "bio_room b < align4_nat (unat sz)"
  shows "bio_get b sz = (0, bio_overflow (b\<lparr>b_data_avail := 0\<rparr>))"
  using assms by (simp add: bio_get_def word_less_nat_alt unat_align4 bio_room_def)

section \<open>Reading\<close>

text \<open>
  The encoding of a string item: a 32-bit count of units, the units, a zero unit, and
  whatever lies between the end of the string and the next multiple of four.
\<close>

definition str_len :: "u16 list \<Rightarrow> nat" where
  "str_len s = 4 + align4_nat (2 * (length s + 1))"

definition is_str16 :: "u16 list \<Rightarrow> u8 list \<Rightarrow> bool" where
  "is_str16 s bs \<longleftrightarrow> length bs = str_len s \<and>
     take (4 + 2 * (length s + 1)) bs = le32 (of_nat (length s)) @ utf16_bytes (s @ [0])"

definition u16s_at :: "mem \<Rightarrow> u32 \<Rightarrow> nat \<Rightarrow> u16 list" where
  "u16s_at m p n = map (\<lambda>i. load16 m (p + 2 * of_nat i)) [0..<n]"

lemma length_utf16_bytes [simp]: "length (utf16_bytes s) = 2 * length s"
  by (induction s) (auto simp: utf16_bytes_def)

lemma utf16_bytes_simps [simp]:
  "utf16_bytes [] = []" "utf16_bytes (c # s) = le16 c @ utf16_bytes s"
  "utf16_bytes (s @ t) = utf16_bytes s @ utf16_bytes t"
  by (simp_all add: utf16_bytes_def)

lemma u16s_at_Suc: "u16s_at m p (Suc n) = load16 m p # u16s_at m (p + 2) n"
proof -
  have "map (\<lambda>i. load16 m (p + 2 * of_nat i)) [Suc 0..<Suc n] =
        map (\<lambda>i. load16 m (p + 2 + 2 * of_nat i)) [0..<n]"
    unfolding map_Suc_upt [symmetric] by (simp add: comp_def algebra_simps)
  then show ?thesis by (simp add: u16s_at_def upt_conv_Cons del: upt_Suc)
qed

lemma u16s_at_utf16:
  "load_bytes m p n = utf16_bytes s @ rest \<Longrightarrow> u16s_at m p (length s) = s"
proof (induction s arbitrary: p n)
  case Nil
  then show ?case by (simp add: u16s_at_def)
next
  case (Cons c s)
  from arg_cong [OF Cons.prems, of length] have n: "2 \<le> n" by simp
  have "load_bytes m p 2 = le16 c"
    using Cons.prems take_load_bytes [OF n, of m p] by simp
  then have hd: "load16 m p = c" by (simp add: load16_def)
  have "load_bytes m (p + 2) (n - 2) = utf16_bytes s @ rest"
    using Cons.prems drop_load_bytes [OF n, of m p] by simp
  then show ?case using Cons.IH hd by (simp add: u16s_at_Suc)
qed

lemma unat_units: "n < 2147483647 \<Longrightarrow> unat ((of_nat n + 1) * 2 :: u32) = 2 * (n + 1)"
proof -
  assume "n < 2147483647"
  then have "2 * (n + 1) < 4294967296" by simp
  moreover have "((of_nat n + 1) * 2 :: u32) = of_nat (2 * (n + 1))" by (simp add: algebra_simps)
  ultimately show ?thesis by (simp only: unat_of_nat_u32)
qed

lemma bio_get_uint32_ok:
  assumes "bio_cursor b" and "bio_rest m b = le32 n @ rest"
  shows "bio_get_uint32 m b = (n, bio_adv b 4)" and "bio_rest m (bio_adv b 4) = rest"
proof -
  have room: "4 \<le> bio_room b"
    using arg_cong [OF assms(2), of length] by simp
  have "load32 m (b_data b) = n"
    using assms(2) by (auto simp: bio_rest_def intro: load32_prefix)
  then show "bio_get_uint32 m b = (n, bio_adv b 4)"
    using room assms(1) by (simp add: bio_get_uint32_def bio_get_ok bio_cursor_def)
  show "bio_rest m (bio_adv b 4) = rest"
    using room assms(2) by (simp add: bio_rest_adv)
qed

lemma bio_get_string16_ok:
  assumes cur: "bio_cursor b" and rest: "bio_rest m b = bs @ rest" and enc: "is_str16 s bs"
    and len: "length s < 2147483640"
  shows "bio_get_string16 m b = (b_data b + 4, of_nat (length s), bio_adv b (str_len s))"
    and "u16s_at m (b_data b + 4) (length s) = s"
    and "bio_rest m (bio_adv b (str_len s)) = rest"
proof -
  let ?k = "2 * (length s + 1)"
  define pad where "pad = drop (4 + ?k) bs"
  have "bs = take (4 + ?k) bs @ pad" by (simp only: pad_def append_take_drop_id)
  also have "take (4 + ?k) bs = le32 (of_nat (length s)) @ utf16_bytes (s @ [0])"
    using enc by (simp only: is_str16_def)
  finally have bs: "bs = le32 (of_nat (length s)) @ utf16_bytes (s @ [0]) @ pad" by simp
  have lbs: "length bs = str_len s" using enc by (simp add: is_str16_def)
  have room: "str_len s \<le> bio_room b"
    using arg_cong [OF rest, of length] lbs by simp
  have r32: "bio_rest m b = le32 (of_nat (length s)) @ (utf16_bytes (s @ [0]) @ pad @ rest)"
    using rest bs by simp
  have g: "bio_get_uint32 m b = (of_nat (length s), bio_adv b 4)"
    and rest4: "bio_rest m (bio_adv b 4) = utf16_bytes (s @ [0]) @ pad @ rest"
    using bio_get_uint32_ok [OF cur r32] by simp_all
  have sz: "unat ((of_nat (length s) + 1) * 2 :: u32) = ?k"
    using len by (intro unat_units) simp
  have "bio_get (bio_adv b 4) ((of_nat (length s) + 1) * 2) =
        (b_data (bio_adv b 4), bio_adv (bio_adv b 4) (align4_nat ?k))"
    using room len sz by (subst bio_get_ok) (simp_all add: str_len_def)
  then show "bio_get_string16 m b = (b_data b + 4, of_nat (length s), bio_adv b (str_len s))"
    using g by (simp add: bio_get_string16_def bio_adv_adv str_len_def)
  show "u16s_at m (b_data b + 4) (length s) = s"
    using rest4 u16s_at_utf16 [where s = s and p = "b_data b + 4"] by (simp add: bio_rest_def)
  show "bio_rest m (bio_adv b (str_len s)) = rest"
    using room rest lbs by (simp add: bio_rest_adv)
qed

lemma bio_get_ref_ok:
  assumes cur: "bio_cursor b" and rest: "bio_rest m b = obj_bytes obj @ rest"
    and off: "has_offset m b (b_data b - b_data0 b)"
  shows "bio_get_ref m b =
     (if o_type obj = BINDER_TYPE_HANDLE then o_binder obj else 0, bio_adv b 16)"
    and "bio_rest m (bio_adv b 16) = rest"
proof -
  have room: "16 \<le> bio_room b"
    using arg_cong [OF rest, of length] by simp
  have "load_obj m (b_data b) = obj"
    using rest by (auto simp: bio_rest_def intro: load_obj_bytes)
  moreover have "bio_get_obj m b = (b_data b, bio_adv b 16)"
    using room off by (simp add: bio_get_obj_def bio_get_ok layout_defs)
  ultimately show "bio_get_ref m b =
     (if o_type obj = BINDER_TYPE_HANDLE then o_binder obj else 0, bio_adv b 16)"
    using cur by (simp add: bio_get_ref_def bio_cursor_def)
  show "bio_rest m (bio_adv b 16) = rest"
    using room rest by (simp add: bio_rest_adv)
qed

section \<open>Writing\<close>

text \<open>
  \<open>bio_inv buf md mo b\<close>: the parcel \<open>b\<close> is being written in the \<open>md\<close> bytes at
  \<open>buf\<close>, of which the first \<open>mo\<close> words are the offsets array; \<open>bio_used\<close> bytes and
  \<open>bio_nobj\<close> offsets have been handed out, and the counters account for the rest.
\<close>

definition bio_used :: "binder_io \<Rightarrow> nat" where
  "bio_used b = unat (b_data b - b_data0 b)"

definition bio_nobj :: "binder_io \<Rightarrow> nat" where
  "bio_nobj b = unat (b_offs b - b_offs0 b) div 4"

definition bio_inv :: "u32 \<Rightarrow> nat \<Rightarrow> nat \<Rightarrow> binder_io \<Rightarrow> bool" where
  "bio_inv buf md mo b \<longleftrightarrow>
     buf \<noteq> 0 \<and> unat buf + md < 4294967296 \<and> 4 * mo \<le> md \<and>
     b_offs0 b = buf \<and> b_data0 b = buf + of_nat (4 * mo) \<and>
     bio_used b + bio_room b = md - 4 * mo \<and>
     unat (b_offs b - b_offs0 b) = 4 * bio_nobj b \<and>
     bio_nobj b + unat (b_offs_avail b) = mo"

definition bio_written :: "mem \<Rightarrow> binder_io \<Rightarrow> u8 list" where
  "bio_written m b = load_bytes m (b_data0 b) (bio_used b)"

definition bio_objs :: "mem \<Rightarrow> binder_io \<Rightarrow> u32 list" where
  "bio_objs m b = map (\<lambda>i. load32 m (b_offs0 b + 4 * of_nat i)) [0..<bio_nobj b]"

lemma length_bio_written [simp]: "length (bio_written m b) = bio_used b"
  by (simp add: bio_written_def)

lemma length_bio_objs [simp]: "length (bio_objs m b) = bio_nobj b"
  by (simp add: bio_objs_def)

lemma bio_invD:
  assumes "bio_inv buf md mo b"
  shows "0 < unat buf" "unat buf + md < 4294967296" "4 * mo \<le> md" "b_offs0 b = buf"
    "b_data0 b = buf + of_nat (4 * mo)" "4 * mo + bio_used b + bio_room b = md"
    "bio_nobj b + unat (b_offs_avail b) = mo" "unat (b_offs b - b_offs0 b) = 4 * bio_nobj b"
    "md < 4294967296"
  using assms by (auto simp: bio_inv_def unat_gt_0)

text \<open>Where the cursor and the next offset slot lie, as numeric offsets of the buffer.\<close>

lemma bio_inv_data: "bio_inv buf md mo b \<Longrightarrow> b_data b = buf + of_nat (4 * mo + bio_used b)"
  by (simp add: bio_inv_def bio_used_def)

lemma bio_inv_offs:
  assumes "bio_inv buf md mo b"
  shows "b_offs b = buf + of_nat (4 * bio_nobj b)"
proof -
  have "of_nat (4 * bio_nobj b) = b_offs b - b_offs0 b"
    using bio_invD(8) [OF assms, symmetric] by simp
  then show ?thesis using bio_invD(4) [OF assms] by simp
qed

lemma bio_inv_cursor:
  assumes inv: "bio_inv buf md mo b"
  shows "bio_cursor b"
proof -
  have "unat (of_nat (4 * mo + bio_used b) :: u32) = 4 * mo + bio_used b"
    using bio_invD [OF inv] by (intro unat_of_nat_u32) linarith
  then have d: "unat (b_data b) = unat buf + (4 * mo + bio_used b)"
    using bio_invD [OF inv] unfolding bio_inv_data [OF inv] by (subst unat_add_u32) auto
  then have "b_data b \<noteq> 0"
    using bio_invD(1) [OF inv] by (auto simp flip: u32_zero_iff)
  moreover have "unat (b_data b) + bio_room b < 4294967296"
    using d bio_invD [OF inv] by linarith
  ultimately show ?thesis by (simp add: bio_cursor_def bio_room_def)
qed

lemma bio_used_adv:
  assumes inv: "bio_inv buf md mo b" and k: "k \<le> bio_room b"
  shows "bio_used (bio_adv b k) = bio_used b + k"
proof -
  have "b_data (bio_adv b k) - b_data0 (bio_adv b k) = of_nat (bio_used b + k)"
    using bio_inv_data [OF inv] bio_invD(5) [OF inv] by simp
  moreover have "bio_used b + k < 4294967296"
    using bio_invD [OF inv] k by linarith
  ultimately show ?thesis unfolding bio_used_def by (simp only: unat_of_nat_u32)
qed

lemma bio_nobj_adv [simp]: "bio_nobj (bio_adv b k) = bio_nobj b"
  by (simp add: bio_nobj_def)

lemma bio_inv_adv:
  assumes inv: "bio_inv buf md mo b" and k: "k \<le> bio_room b"
  shows "bio_inv buf md mo (bio_adv b k)"
  unfolding bio_inv_def bio_used_adv [OF inv k]
  using k inv unfolding bio_inv_def by auto

lemma bio_overflow_sel [simp]:
  "b_data (bio_overflow b) = b_data b" "b_offs (bio_overflow b) = b_offs b"
  "b_data_avail (bio_overflow b) = b_data_avail b" "b_offs_avail (bio_overflow b) = b_offs_avail b"
  "b_data0 (bio_overflow b) = b_data0 b" "b_offs0 (bio_overflow b) = b_offs0 b"
  by (simp_all add: bio_overflow_def)

lemma bio_overflow_view [simp]:
  "bio_used (bio_overflow b) = bio_used b" "bio_nobj (bio_overflow b) = bio_nobj b"
  "bio_room (bio_overflow b) = bio_room b" "bio_written m (bio_overflow b) = bio_written m b"
  "bio_objs m (bio_overflow b) = bio_objs m b"
  "bio_inv buf md mo (bio_overflow b) = bio_inv buf md mo b"
  by (simp_all add: bio_used_def bio_nobj_def bio_room_def bio_written_def bio_objs_def bio_inv_def)

lemma bio_overflow_flag: "b_flags (bio_overflow b) AND BIO_F_OVERFLOW \<noteq> 0"
proof -
  have "(b_flags b OR BIO_F_OVERFLOW) AND BIO_F_OVERFLOW = BIO_F_OVERFLOW"
    by (rule bit_word_eqI) (auto simp: bit_simps)
  then show ?thesis by (simp add: bio_overflow_def) (simp add: BIO_F_OVERFLOW_def)
qed

text \<open>Everything an operation writes to memory lies inside the buffer.\<close>

definition confined :: "u32 \<Rightarrow> nat \<Rightarrow> mem \<Rightarrow> mem \<Rightarrow> bool" where
  "confined buf n m m' \<longleftrightarrow> (\<forall>x. n \<le> unat (x - buf) \<longrightarrow> m' x = m x)"

lemma confined_refl [simp]: "confined buf n m m"
  by (simp add: confined_def)

lemma confined_trans: "confined buf n m m' \<Longrightarrow> confined buf n m' m'' \<Longrightarrow> confined buf n m m''"
  by (simp add: confined_def)

lemma confined_store:
  assumes "i + length bs \<le> n" and "n < 4294967296"
  shows "confined buf n m (store_bytes (buf + of_nat i) bs m)"
  unfolding confined_def
proof (intro allI impI)
  fix x assume x: "n \<le> unat (x - buf)"
  have "unat (x - (buf + of_nat i)) = unat (x - buf - of_nat i)" by (simp add: algebra_simps)
  also have "\<dots> = unat (x - buf) - i"
    using x assms by (simp add: unat_sub_u32)
  finally have "\<not> unat (x - (buf + of_nat i)) < length bs"
    using x assms by linarith
  then show "store_bytes (buf + of_nat i) bs m x = m x"
    by (simp only: store_bytes_def Let_def if_False)
qed

lemma confined_load:
  assumes "confined buf n m m'" and "apart a k buf n"
  shows "load_bytes m' a k = load_bytes m a k"
  by (rule load_bytes_cong) (use assms in \<open>auto simp: confined_def apart_def\<close>)

text \<open>
  The step every write goes through: \<open>bs\<close> is stored at the cursor and the cursor moves
  past it, by at least its length.
\<close>

lemma bio_write_step:
  assumes inv: "bio_inv buf md mo b" and k: "length bs \<le> k" "k \<le> bio_room b"
  shows "bio_written (store_bytes (b_data b) bs m) (bio_adv b k) =
           bio_written m b @ bs @ load_bytes m (b_data b + of_nat (length bs)) (k - length bs)"
    and "bio_objs (store_bytes (b_data b) bs m) (bio_adv b k) = bio_objs m b"
    and "confined buf md m (store_bytes (b_data b) bs m)"
proof -
  let ?m = "store_bytes (b_data b) bs m"
  have bnd: "4 * mo + bio_used b + k \<le> md" "md < 4294967296"
    using bio_invD [OF inv] k by linarith+
  note d0 = bio_invD(5) [OF inv] and o0 = bio_invD(4) [OF inv]
  have dd: "b_data b = b_data0 b + of_nat (bio_used b)"
    using bio_inv_data [OF inv] d0 by simp
  have "load_bytes ?m (b_data0 b) (bio_used b + k) =
        load_bytes ?m (b_data0 b) (bio_used b) @ load_bytes ?m (b_data b) (length bs + (k - length bs))"
    using k by (simp add: load_bytes_add dd)
  also have "load_bytes ?m (b_data0 b) (bio_used b) = bio_written m b"
    unfolding bio_written_def
    using apart_offsets [of 0 "bio_used b" "bio_used b" "length bs" "b_data0 b"] bnd k
    by (intro load_store_apart) (simp add: dd)
  also have "load_bytes ?m (b_data b) (length bs + (k - length bs)) =
        bs @ load_bytes m (b_data b + of_nat (length bs)) (k - length bs)"
    unfolding load_bytes_add
    using apart_offsets [of "length bs" "k - length bs" 0 "length bs" "b_data b"] bnd k
    by (simp add: mem_simps)
  finally show "bio_written ?m (bio_adv b k) =
      bio_written m b @ bs @ load_bytes m (b_data b + of_nat (length bs)) (k - length bs)"
    by (simp add: bio_written_def bio_used_adv [OF inv k(2)])
  show "bio_objs ?m (bio_adv b k) = bio_objs m b"
    unfolding bio_objs_def
  proof (rule map_cong)
    fix i assume "i \<in> set [0..<bio_nobj b]"
    then have "4 * i + 4 \<le> 4 * mo" using bio_invD(7) [OF inv] by simp
    then have "apart (buf + of_nat (4 * i)) 4 (buf + of_nat (4 * mo + bio_used b)) (length bs)"
      using bnd k by (intro apart_offsets) auto
    then show "load32 ?m (b_offs0 (bio_adv b k) + 4 * of_nat i) = load32 m (b_offs0 b + 4 * of_nat i)"
      using bio_inv_data [OF inv] o0 by (simp add: load32_store_apart)
  qed simp
  show "confined buf md m ?m"
    unfolding bio_inv_data [OF inv] using bnd k by (intro confined_store) auto
qed

section \<open>What each operation writes\<close>

lemma put_chars_eq:
  "2 * length cs + 2 \<le> 4294967296 \<Longrightarrow>
   put_chars p cs m = store_bytes p (utf16_bytes (map of_char cs @ [0])) m"
proof (induction cs arbitrary: p m)
  case Nil
  then show ?case by (simp add: store16_def)
next
  case (Cons c cs)
  then show ?case
    using store_bytes_append [of "le16 (of_char c)" "utf16_bytes (map of_char cs @ [0])" p m]
    by (simp add: store16_def)
qed

text \<open>
  \<open>bio_wrote buf md mo p p' bs os\<close>: going from \<open>p\<close> to \<open>p'\<close> appended the bytes
  \<open>bs\<close> to the message and the entries \<open>os\<close> to its offsets array, kept the flags and the
  invariant, and wrote inside the buffer only.
\<close>

definition bio_wrote ::
    "u32 \<Rightarrow> nat \<Rightarrow> nat \<Rightarrow> binder_io \<times> mem \<Rightarrow> binder_io \<times> mem \<Rightarrow> u8 list \<Rightarrow> u32 list \<Rightarrow> bool" where
  "bio_wrote buf md mo p p' bs os \<longleftrightarrow>
     bio_inv buf md mo (fst p') \<and> bio_written (snd p') (fst p') = bio_written (snd p) (fst p) @ bs \<and>
     bio_objs (snd p') (fst p') = bio_objs (snd p) (fst p) @ os \<and> b_flags (fst p') = b_flags (fst p) \<and>
     bio_room (fst p') = bio_room (fst p) - length bs \<and> confined buf md (snd p) (snd p')"

lemma bio_wrote_step:
  assumes inv: "bio_inv buf md mo b" and k: "length bs \<le> k" "k \<le> bio_room b"
  shows "bio_wrote buf md mo (b, m) (bio_adv b k, store_bytes (b_data b) bs m)
     (bs @ load_bytes m (b_data b + of_nat (length bs)) (k - length bs)) []"
  using bio_write_step [OF inv k] bio_inv_adv [OF inv k(2)] k
  by (simp add: bio_wrote_def)

lemma bio_wrote_trans:
  "bio_wrote buf md mo p p' bs os \<Longrightarrow> bio_wrote buf md mo p' p'' cs qs \<Longrightarrow>
   bio_wrote buf md mo p p'' (bs @ cs) (os @ qs)"
  by (auto simp: bio_wrote_def intro: confined_trans)

lemma bio_put_uint32_eq:
  "bio_cursor b \<Longrightarrow> 4 \<le> bio_room b \<Longrightarrow>
   bio_put_uint32 n (b, m) = (bio_adv b 4, store_bytes (b_data b) (le32 n) m)"
  by (simp add: bio_put_uint32_def bio_alloc_ok bio_cursor_def store32_def)

lemma bio_put_uint32_wrote:
  assumes "bio_inv buf md mo b" and "4 \<le> bio_room b"
  shows "bio_wrote buf md mo (b, m) (bio_put_uint32 n (b, m)) (le32 n) []"
  using bio_wrote_step [OF assms(1), of "le32 n" 4] assms bio_inv_cursor [OF assms(1)]
  by (simp add: bio_put_uint32_eq)

text \<open>
  Both string writers reduce to the same two stores: the count, then the units with their
  terminator in a piece rounded up to four bytes. The test against \<open>MAX_BIO_SIZE\<close> is on
  the number of units.
\<close>

definition put_units :: "u16 list \<Rightarrow> binder_io \<times> mem \<Rightarrow> binder_io \<times> mem" where
  "put_units s p =
     (let (bio, m) = bio_put_uint32 (of_nat (length s)) p;
          (ptr, bio) = bio_alloc bio ((of_nat (length s) + 1) * 2)
      in (bio, if ptr \<noteq> 0 then store_bytes ptr (utf16_bytes (s @ [0])) m else m))"

lemma units_le_iff:
  "n < 4294967296 \<Longrightarrow> MAX_BIO_SIZE div 2 \<le> (of_nat n :: u32) \<longleftrightarrow> 536870912 \<le> n"
  by (simp add: MAX_BIO_SIZE_def word_le_nat_alt)

lemma bio_put_string16_eq:
  assumes "length (takeWhile (\<lambda>c. c \<noteq> 0) s) < 4294967296"
  shows "bio_put_string16 (Some s) p =
     (if length (takeWhile (\<lambda>c. c \<noteq> 0) s) < 536870912
      then put_units (takeWhile (\<lambda>c. c \<noteq> 0) s) p else bio_put_uint32 0xffffffff p)"
  using assms units_le_iff [OF assms]
  by (simp add: bio_put_string16_def put_units_def Let_def del: utf16_bytes_simps)

lemma bio_put_string16_x_eq:
  assumes "length (c_string s) < 4294967296"
  shows "bio_put_string16_x (Some s) p =
     (if length (c_string s) < 536870912 then put_units (widen s) p
      else bio_put_uint32 0xffffffff p)"
  using assms units_le_iff [OF assms]
  by (simp add: bio_put_string16_x_def put_units_def Let_def put_chars_eq widen_def
      del: utf16_bytes_simps split: prod.split)

lemma put_string_None [simp]:
  "bio_put_string16 None p = bio_put_uint32 0xffffffff p"
  "bio_put_string16_x None p = bio_put_uint32 0xffffffff p"
  by (simp_all add: bio_put_string16_def bio_put_string16_x_def)

lemma put_units_wrote:
  assumes inv: "bio_inv buf md mo b" and room: "str_len s \<le> bio_room b"
    and len: "length s < 536870912"
  shows "\<exists>bs. is_str16 s bs \<and> bio_wrote buf md mo (b, m) (put_units s (b, m)) bs []"
proof -
  define p' where "p' = put_units s (b, m)"
  let ?n = "of_nat (length s) :: u32" and ?k = "2 * (length s + 1)"
  let ?b = "bio_adv b 4" and ?m = "store_bytes (b_data b) (le32 ?n) m"
  have r4: "4 \<le> bio_room b" and rk: "align4_nat ?k \<le> bio_room ?b"
    using room by (simp_all add: str_len_def)
  have put: "bio_put_uint32 ?n (b, m) = (?b, ?m)"
    using bio_inv_cursor [OF inv] r4 by (rule bio_put_uint32_eq)
  have inv4: "bio_inv buf md mo ?b" by (rule bio_inv_adv [OF inv r4])
  have "unat ((?n + 1) * 2) = ?k" using len by (intro unat_units) simp
  then have "bio_alloc ?b ((?n + 1) * 2) = (b_data ?b, bio_adv ?b (align4_nat ?k))"
    using len rk by (simp add: bio_alloc_ok)
  then have p': "p' = (bio_adv ?b (align4_nat ?k), store_bytes (b_data ?b) (utf16_bytes (s @ [0])) ?m)"
    using put bio_inv_cursor [OF inv4] by (simp add: p'_def put_units_def bio_cursor_def)
  let ?pad = "load_bytes ?m (b_data ?b + of_nat ?k) (align4_nat ?k - ?k)"
  let ?bs = "le32 ?n @ utf16_bytes (s @ [0]) @ ?pad"
  have "bio_wrote buf md mo (b, m) (?b, ?m) (le32 ?n) []"
    using bio_put_uint32_wrote [OF inv r4, of m ?n] put by simp
  moreover have "bio_wrote buf md mo (?b, ?m) p' (utf16_bytes (s @ [0]) @ ?pad) []"
    using bio_wrote_step [OF inv4, of "utf16_bytes (s @ [0])" "align4_nat ?k" ?m] rk
      align4_nat_ge [of ?k] p' by (simp del: of_nat_mult align4_nat_ge)
  ultimately have "bio_wrote buf md mo (b, m) p' ?bs []"
    using bio_wrote_trans by fastforce
  moreover have "is_str16 s ?bs"
    using align4_nat_ge [of ?k] by (simp add: is_str16_def str_len_def del: align4_nat_ge)
  ultimately show ?thesis unfolding p'_def by blast
qed

text \<open>An object takes sixteen bytes of data and one slot of the offsets array.\<close>

lemma bio_objs_store:
  assumes inv: "bio_inv buf md mo b" and av: "b_offs_avail b \<noteq> 0"
  defines "b' \<equiv> b\<lparr>b_offs_avail := b_offs_avail b - 1, b_offs := b_offs b + 4\<rparr>"
  shows "bio_inv buf md mo b'"
    and "bio_objs (store32 (b_offs b) w m) b' = bio_objs m b @ [w]"
    and "bio_written (store32 (b_offs b) w m) b' = bio_written m b"
    and "confined buf md m (store32 (b_offs b) w m)"
proof -
  note D = bio_invD [OF inv]
  have avn: "0 < unat (b_offs_avail b)" using av by (simp add: unat_gt_0)
  have slot: "4 * bio_nobj b + 4 \<le> 4 * mo" using D(7) avn by linarith
  have offs: "b_offs b = buf + of_nat (4 * bio_nobj b)" by (rule bio_inv_offs [OF inv])
  have "b_offs b' - b_offs0 b' = of_nat (4 * bio_nobj b + 4)"
    using offs D(4) by (simp add: b'_def)
  then have d: "unat (b_offs b' - b_offs0 b') = 4 * bio_nobj b + 4"
    using slot D(3,9) by (simp only: unat_of_nat_u32)
  then have n: "bio_nobj b' = Suc (bio_nobj b)" by (simp add: bio_nobj_def)
  have a: "unat (b_offs_avail b') = unat (b_offs_avail b) - 1"
    using avn by (simp add: b'_def unat_sub_u32 Suc_leI)
  have [simp]: "b_data b' = b_data b" "b_data0 b' = b_data0 b" "b_offs0 b' = b_offs0 b"
    "bio_used b' = bio_used b" "bio_room b' = bio_room b"
    by (simp_all add: b'_def bio_used_def bio_room_def)
  show "bio_inv buf md mo b'"
    using inv D(7) avn n a d unfolding bio_inv_def by auto
  have keep: "load32 (store32 (b_offs b) w m) (b_offs0 b + 4 * of_nat i) =
      load32 m (b_offs0 b + 4 * of_nat i)" if "i < bio_nobj b" for i
  proof -
    have "apart (buf + of_nat (4 * i)) 4 (buf + of_nat (4 * bio_nobj b)) 4"
      using that slot D(3,9) by (intro apart_offsets) auto
    then show ?thesis using offs D(4) by (simp add: store32_def load32_store_apart)
  qed
  have last: "load32 (store32 (b_offs b) w m) (b_offs0 b + 4 * of_nat (bio_nobj b)) = w"
    using offs D(4) by simp
  show "bio_objs (store32 (b_offs b) w m) b' = bio_objs m b @ [w]"
    using keep last by (simp add: bio_objs_def n)
  have "apart (buf + of_nat (4 * mo)) (bio_used b) (buf + of_nat (4 * bio_nobj b)) 4"
    using slot D by (intro apart_offsets) auto
  then show "bio_written (store32 (b_offs b) w m) b' = bio_written m b"
    using offs D(5) by (simp add: bio_written_def store32_def load_store_apart)
  show "confined buf md m (store32 (b_offs b) w m)"
    unfolding offs store32_def using slot D(3,9) by (intro confined_store) auto
qed

lemma bio_put_object_wrote:
  assumes inv: "bio_inv buf md mo b" and room: "16 \<le> bio_room b" and av: "b_offs_avail b \<noteq> 0"
    and al: "bio_alloc_obj (b, m) = (q, b', m')"
  shows "q \<noteq> 0"
    and "bio_wrote buf md mo (b, m) (b', store_obj q obj m') (obj_bytes obj) [of_nat (bio_used b)]"
proof -
  let ?w = "of_nat (bio_used b) :: u32" and ?b = "bio_adv b 16"
  let ?m = "store32 (b_offs b) ?w m"
  have dd: "b_data b - b_data0 b = ?w"
    using bio_inv_data [OF inv] bio_invD(5) [OF inv] by simp
  have "bio_alloc b sizeof_obj = (b_data b, ?b)"
    using room by (simp add: bio_alloc_ok layout_defs)
  then have eq: "q = b_data b" "m' = ?m"
      "b' = bio_adv (b\<lparr>b_offs_avail := b_offs_avail b - 1, b_offs := b_offs b + 4\<rparr>) 16"
    using al av bio_inv_cursor [OF inv] dd
    by (auto simp: bio_alloc_obj_def bio_cursor_def layout_defs bio_adv_def)
  let ?c = "b\<lparr>b_offs_avail := b_offs_avail b - 1, b_offs := b_offs b + 4\<rparr>"
  note S = bio_objs_store [OF inv av]
  have c: "b_data ?c = b_data b" "bio_room ?c = bio_room b" "b_flags ?c = b_flags b"
    by (simp_all add: bio_room_def)
  have "bio_wrote buf md mo (b, m) (?c, ?m) [] [?w]"
    using S(1) c(2,3) by (simp add: bio_wrote_def S(2-4))
  moreover have "bio_wrote buf md mo (?c, ?m) (b', store_obj q obj ?m) (obj_bytes obj) []"
    using bio_wrote_step [OF S(1), of "obj_bytes obj" 16 ?m] room c eq by (simp add: store_obj_def)
  ultimately show "bio_wrote buf md mo (b, m) (b', store_obj q obj m') (obj_bytes obj) [?w]"
    using bio_wrote_trans eq(2) by fastforce
  show "q \<noteq> 0" using bio_inv_cursor [OF inv] eq(1) by (simp add: bio_cursor_def)
qed

end
