(* ===== verification/Parcel.thy ===== *)
theory Parcel
  imports Binder_IO
begin

text \<open>
  What the parcel writer of \<open>binder/binder.c\<close> promises to the programs that build messages
  with it. A message is a sequence of calls of the \<open>bio_put_*\<close> functions; the contract is
  stated as a locale over an abstract parcel (its bytes, its object offsets, the room left)
  and the laws about whole sequences of calls are proved there once. The interpretation on
  \<open>struct binder_io\<close> discharges the laws for the code.
\<close>

section \<open>Sequences of calls\<close>

datatype put_op =
    PutUint32 u32
  | PutObj u32
  | PutRef u32
  | PutString16 "u16 list option"
  | PutString16X "string option"

fun run_put :: "put_op \<Rightarrow> binder_io \<times> mem \<Rightarrow> binder_io \<times> mem" where
  "run_put (PutUint32 n) = bio_put_uint32 n"
| "run_put (PutObj ptr) = bio_put_obj ptr"
| "run_put (PutRef h) = bio_put_ref h"
| "run_put (PutString16 s) = bio_put_string16 s"
| "run_put (PutString16X s) = bio_put_string16_x s"

text \<open>
  The units of the string a call writes: \<open>None\<close> when it writes the marker
  \<open>0xffffffff\<close> of a NULL or oversized string instead.
\<close>

fun op_units :: "put_op \<Rightarrow> u16 list option" where
  "op_units (PutString16 (Some s)) =
     (let c = takeWhile (\<lambda>c. c \<noteq> 0) s in if length c < 536870912 then Some c else None)"
| "op_units (PutString16X (Some s)) =
     (if length (c_string s) < 536870912 then Some (widen s) else None)"
| "op_units _ = None"

fun op_enc :: "put_op \<Rightarrow> u8 list \<Rightarrow> bool" where
  "op_enc (PutUint32 n) bs \<longleftrightarrow> bs = le32 n"
| "op_enc (PutObj ptr) bs \<longleftrightarrow> bs = obj_bytes (binder_obj ptr)"
| "op_enc (PutRef h) bs \<longleftrightarrow> bs = obj_bytes (handle_obj h)"
| "op_enc op bs \<longleftrightarrow>
     (case op_units op of None \<Rightarrow> bs = le32 0xffffffff | Some s \<Rightarrow> is_str16 s bs)"

fun op_len :: "put_op \<Rightarrow> nat" where
  "op_len (PutUint32 n) = 4"
| "op_len (PutObj ptr) = 16"
| "op_len (PutRef h) = 16"
| "op_len op = (case op_units op of None \<Rightarrow> 4 | Some s \<Rightarrow> str_len s)"

fun op_slots :: "put_op \<Rightarrow> nat" where
  "op_slots (PutObj ptr) = 1"
| "op_slots (PutRef h) = (if h \<noteq> 0 then 1 else 0)"
| "op_slots op = 0"

text \<open>An array of 16-bit units or bytes that fits the address space.\<close>

fun op_valid :: "put_op \<Rightarrow> bool" where
  "op_valid (PutString16 (Some s)) \<longleftrightarrow> length s < 4294967296"
| "op_valid (PutString16X (Some s)) \<longleftrightarrow> length s < 4294967296"
| "op_valid op \<longleftrightarrow> True"

lemma op_enc_length: "op_enc op bs \<Longrightarrow> length bs = op_len op"
  by (cases op) (auto simp: is_str16_def split: option.splits)

fun offs_from :: "nat \<Rightarrow> put_op list \<Rightarrow> u32 list" where
  "offs_from k [] = []"
| "offs_from k (op # ops) = replicate (op_slots op) (of_nat k) @ offs_from (k + op_len op) ops"

section \<open>The writer's contract\<close>

locale parcel_writer =
  fixes inv :: "'p \<Rightarrow> bool"
    and room :: "'p \<Rightarrow> nat"
    and slots :: "'p \<Rightarrow> nat"
    and bytes :: "'p \<Rightarrow> u8 list"
    and offsets :: "'p \<Rightarrow> u32 list"
    and overflowed :: "'p \<Rightarrow> bool"
    and put :: "put_op \<Rightarrow> 'p \<Rightarrow> 'p"
  assumes put_inv: "inv p \<Longrightarrow> op_valid op \<Longrightarrow> inv (put op p)"
    and put_fits: "inv p \<Longrightarrow> op_valid op \<Longrightarrow> op_len op \<le> room p \<Longrightarrow> op_slots op \<le> slots p \<Longrightarrow>
      \<exists>bs. op_enc op bs \<and> bytes (put op p) = bytes p @ bs \<and>
        offsets (put op p) = offsets p @ replicate (op_slots op) (of_nat (length (bytes p))) \<and>
        room (put op p) = room p - op_len op \<and> slots (put op p) = slots p - op_slots op \<and>
        overflowed (put op p) = overflowed p"
    and put_full: "inv p \<Longrightarrow> op_valid op \<Longrightarrow> \<not> (op_len op \<le> room p \<and> op_slots op \<le> slots p) \<Longrightarrow>
      overflowed (put op p)"
    and put_sticky: "inv p \<Longrightarrow> op_valid op \<Longrightarrow> overflowed p \<Longrightarrow> overflowed (put op p)"
begin

lemma puts_inv: "inv p \<Longrightarrow> list_all op_valid ops \<Longrightarrow> inv (fold put ops p)"
  by (induction ops arbitrary: p) (auto intro: put_inv)

lemma puts_sticky: "inv p \<Longrightarrow> list_all op_valid ops \<Longrightarrow> overflowed p \<Longrightarrow> overflowed (fold put ops p)"
  by (induction ops arbitrary: p) (auto intro: put_inv put_sticky)

lemma puts_fit:
  assumes "inv p" and "list_all op_valid ops"
    and "sum_list (map op_len ops) \<le> room p" and "sum_list (map op_slots ops) \<le> slots p"
  shows "\<exists>bss. list_all2 op_enc ops bss \<and> bytes (fold put ops p) = bytes p @ concat bss \<and>
     offsets (fold put ops p) = offsets p @ offs_from (length (bytes p)) ops \<and>
     overflowed (fold put ops p) = overflowed p"
  using assms
proof (induction ops arbitrary: p)
  case Nil
  then show ?case by (intro exI [of _ "[]"]) simp
next
  case (Cons op ops)
  then obtain bs where bs: "op_enc op bs" "bytes (put op p) = bytes p @ bs"
      "offsets (put op p) = offsets p @ replicate (op_slots op) (of_nat (length (bytes p)))"
      "room (put op p) = room p - op_len op" "slots (put op p) = slots p - op_slots op"
      "overflowed (put op p) = overflowed p"
    using put_fits [of p op] by auto
  have "inv (put op p)" "list_all op_valid ops"
    "sum_list (map op_len ops) \<le> room (put op p)" "sum_list (map op_slots ops) \<le> slots (put op p)"
    using Cons.prems bs(4,5) by (auto intro: put_inv)
  from Cons.IH [OF this] obtain bss where "list_all2 op_enc ops bss"
      "bytes (fold put ops (put op p)) = bytes (put op p) @ concat bss"
      "offsets (fold put ops (put op p)) =
         offsets (put op p) @ offs_from (length (bytes (put op p))) ops"
      "overflowed (fold put ops (put op p)) = overflowed (put op p)"
    by blast
  then show ?case
    using bs op_enc_length [OF bs(1)] by (intro exI [of _ "bs # bss"]) simp
qed

text \<open>Overflow is never silent: if the flag is clear at the end, every call found room.\<close>

lemma puts_overflow:
  assumes "inv p" and "list_all op_valid ops"
    and "\<not> (sum_list (map op_len ops) \<le> room p \<and> sum_list (map op_slots ops) \<le> slots p)"
  shows "overflowed (fold put ops p)"
  using assms
proof (induction ops arbitrary: p)
  case Nil
  then show ?case by simp
next
  case (Cons op ops)
  have inv': "inv (put op p)" using Cons.prems by (auto intro: put_inv)
  show ?case
  proof (cases "op_len op \<le> room p \<and> op_slots op \<le> slots p")
    case False
    then have "overflowed (put op p)" using Cons.prems by (auto intro: put_full)
    then show ?thesis using inv' Cons.prems by (simp add: puts_sticky)
  next
    case True
    then have "room (put op p) = room p - op_len op" "slots (put op p) = slots p - op_slots op"
      using put_fits [of p op] Cons.prems by auto
    then have "\<not> (sum_list (map op_len ops) \<le> room (put op p) \<and>
        sum_list (map op_slots ops) \<le> slots (put op p))"
      using Cons.prems(3) True by simp linarith
    then show ?thesis using Cons.IH [OF inv'] Cons.prems(2) by simp
  qed
qed

lemma puts_exact:
  assumes "inv p" and "list_all op_valid ops" and "\<not> overflowed (fold put ops p)"
  shows "\<exists>bss. list_all2 op_enc ops bss \<and> bytes (fold put ops p) = bytes p @ concat bss \<and>
     offsets (fold put ops p) = offsets p @ offs_from (length (bytes p)) ops"
  using puts_overflow [OF assms(1,2)] puts_fit [OF assms(1,2)] assms(3) by blast

end

section \<open>The code keeps the contract\<close>

definition bio_overflowed :: "binder_io \<Rightarrow> bool" where
  "bio_overflowed b \<longleftrightarrow> b_flags b AND BIO_F_OVERFLOW \<noteq> 0"

lemma bio_overflowed_overflow [simp]: "bio_overflowed (bio_overflow b)"
  by (simp add: bio_overflowed_def bio_overflow_flag)

text \<open>
  \<open>bio_kept\<close>: what every call keeps, whether it finds room or not: the invariant, the
  memory outside the buffer, and an overflow flag that is already set.
\<close>

definition bio_kept :: "u32 \<Rightarrow> nat \<Rightarrow> nat \<Rightarrow> binder_io \<times> mem \<Rightarrow> binder_io \<times> mem \<Rightarrow> bool" where
  "bio_kept buf md mo p p' \<longleftrightarrow> bio_inv buf md mo (fst p') \<and> confined buf md (snd p) (snd p') \<and>
     (bio_overflowed (fst p) \<longrightarrow> bio_overflowed (fst p'))"

lemma bio_kept_trans: "bio_kept buf md mo p p' \<Longrightarrow> bio_kept buf md mo p' p'' \<Longrightarrow> bio_kept buf md mo p p''"
  by (auto simp: bio_kept_def intro: confined_trans)

lemma bio_wrote_kept: "bio_wrote buf md mo p p' bs os \<Longrightarrow> bio_kept buf md mo p p'"
  by (simp add: bio_wrote_def bio_kept_def bio_overflowed_def)

lemma bio_overflow_kept:
  "bio_inv buf md mo b \<Longrightarrow> bio_kept buf md mo (b, m) (bio_overflow b, m)"
  by (simp add: bio_kept_def)

lemma bio_put_uint32_fail:
  "bio_room b < 4 \<Longrightarrow> bio_put_uint32 n (b, m) = (bio_overflow b, m)"
  by (simp add: bio_put_uint32_def bio_alloc_fail)

lemma bio_put_uint32_kept:
  assumes "bio_inv buf md mo b"
  shows "bio_kept buf md mo (b, m) (bio_put_uint32 n (b, m))"
    and "bio_room b < 4 \<Longrightarrow> bio_overflowed (fst (bio_put_uint32 n (b, m)))"
  using assms bio_put_uint32_wrote [THEN bio_wrote_kept, OF assms] bio_overflow_kept [OF assms]
  by (cases "4 \<le> bio_room b"; force simp: bio_put_uint32_fail)+

lemma put_units_kept:
  assumes inv: "bio_inv buf md mo b" and len: "length s < 536870912"
  shows "bio_kept buf md mo (b, m) (put_units s (b, m))"
    and "bio_room b < str_len s \<Longrightarrow> bio_overflowed (fst (put_units s (b, m)))"
proof -
  have "bio_kept buf md mo (b, m) (put_units s (b, m)) \<and>
    (bio_room b < str_len s \<longrightarrow> bio_overflowed (fst (put_units s (b, m))))"
  proof (cases "str_len s \<le> bio_room b")
    case True
    then show ?thesis using put_units_wrote [OF inv True len] bio_wrote_kept by fastforce
  next
    case False
    let ?n = "of_nat (length s) :: u32"
    obtain b1 m1 where put: "bio_put_uint32 ?n (b, m) = (b1, m1)" by fastforce
    have kept: "bio_kept buf md mo (b, m) (b1, m1)"
      using bio_put_uint32_kept(1) [OF inv] put by metis
    have room: "bio_room b1 < align4_nat (2 * (length s + 1))"
    proof (cases "4 \<le> bio_room b")
      case True
      then show ?thesis
        using False put bio_inv_cursor [OF inv] by (auto simp: bio_put_uint32_eq str_len_def)
    next
      case small: False
      then show ?thesis
        using put bio_put_uint32_fail [of b ?n m] align4_nat_pos [of "2 * (length s + 1)"]
        by auto
    qed
    then have "bio_alloc b1 ((?n + 1) * 2) = (0, bio_overflow b1)"
      using len unat_units [of "length s"] by (intro bio_alloc_fail) auto
    then have "put_units s (b, m) = (bio_overflow b1, m1)"
      using put by (simp add: put_units_def)
    moreover have "bio_inv buf md mo b1" using kept by (simp add: bio_kept_def)
    ultimately show ?thesis
      using kept bio_overflow_kept bio_kept_trans by fastforce
  qed
  then show "bio_kept buf md mo (b, m) (put_units s (b, m))"
    and "bio_room b < str_len s \<Longrightarrow> bio_overflowed (fst (put_units s (b, m)))" by auto
qed

text \<open>
  When an object finds no room, or finds room but no free offset slot, nothing is stored;
  in the second case the sixteen bytes are lost all the same.
\<close>

lemma bio_alloc_obj_fail:
  assumes inv: "bio_inv buf md mo b" and "\<not> (16 \<le> bio_room b \<and> b_offs_avail b \<noteq> 0)"
  shows "\<exists>b'. bio_alloc_obj (b, m) = (0, b', m) \<and> bio_kept buf md mo (b, m) (b', m) \<and> bio_overflowed b'"
proof (cases "16 \<le> bio_room b")
  case True
  then have "bio_alloc_obj (b, m) = (0, bio_overflow (bio_adv b 16), m)"
    using assms(2) by (simp add: bio_alloc_obj_def bio_alloc_ok layout_defs)
  then show ?thesis using bio_inv_adv [OF inv True] by (simp add: bio_kept_def)
next
  case False
  then have "bio_alloc_obj (b, m) = (0, bio_overflow (bio_overflow b), m)"
    by (simp add: bio_alloc_obj_def bio_alloc_fail layout_defs)
  then show ?thesis using inv by (simp add: bio_kept_def)
qed

lemma bio_put_obj_eq:
  "bio_put_obj ptr (b, m) = (case bio_alloc_obj (b, m) of (q, b', m') \<Rightarrow>
     if q = 0 then (b', m') else (b', store_obj q (binder_obj ptr) m'))"
  by (simp add: bio_put_obj_def)

lemma bio_put_ref_eq:
  "h \<noteq> 0 \<Longrightarrow> bio_put_ref h (b, m) = (case bio_alloc_obj (b, m) of (q, b', m') \<Rightarrow>
     if q = 0 then (b', m') else (b', store_obj q (handle_obj h) m'))"
  by (simp add: bio_put_ref_def)

lemma bio_put_ref_0_wrote:
  assumes "bio_inv buf md mo b" and "16 \<le> bio_room b"
  shows "bio_wrote buf md mo (b, m) (bio_put_ref 0 (b, m)) (obj_bytes (handle_obj 0)) []"
  using bio_wrote_step [OF assms(1), of "obj_bytes (handle_obj 0)" 16] assms
    bio_inv_cursor [OF assms(1)]
  by (simp add: bio_put_ref_def bio_alloc_ok layout_defs bio_cursor_def store_obj_def)

lemma bio_put_ref_0_fail:
  "bio_room b < 16 \<Longrightarrow> bio_put_ref 0 (b, m) = (bio_overflow b, m)"
  by (simp add: bio_put_ref_def bio_alloc_fail layout_defs)

text \<open>Each call that fits writes its encoding; each call that does not sets the flag.\<close>

lemma run_put_wrote:
  assumes inv: "bio_inv buf md mo b" and valid: "op_valid op"
    and room: "op_len op \<le> bio_room b" and slots: "op_slots op \<le> unat (b_offs_avail b)"
  shows "\<exists>bs. op_enc op bs \<and> bio_wrote buf md mo (b, m) (run_put op (b, m)) bs
     (replicate (op_slots op) (of_nat (bio_used b)))"
proof -
  have obj: "\<exists>q b' m'. bio_alloc_obj (b, m) = (q, b', m') \<and> q \<noteq> 0 \<and> bio_wrote buf md mo (b, m)
      (b', store_obj q obj m') (obj_bytes obj) [of_nat (bio_used b)]"
    if "16 \<le> bio_room b" "1 \<le> unat (b_offs_avail b)" for obj
    using bio_put_object_wrote [OF inv that(1)] that(2) by (metis One_nat_def not_one_le_zero prod_cases3 unat_0)
  have str: "\<exists>bs. is_str16 s bs \<and> bio_wrote buf md mo (b, m) (put_units s (b, m)) bs []"
    if "str_len s \<le> bio_room b" "length s < 536870912" for s
    using put_units_wrote [OF inv] that by blast
  show ?thesis
  proof (cases op)
    case (PutUint32 n)
    then show ?thesis using room bio_put_uint32_wrote [OF inv] by simp
  next
    case (PutObj ptr)
    then show ?thesis using room slots obj [of "binder_obj ptr"] by (auto simp: bio_put_obj_eq)
  next
    case (PutRef h)
    then show ?thesis
      using room slots obj [of "handle_obj h"] bio_put_ref_0_wrote [OF inv]
      by (cases "h = 0") (auto simp: bio_put_ref_eq)
  next
    case (PutString16 s)
    have "length (takeWhile (\<lambda>c. c \<noteq> 0) s') < 4294967296" if "s = Some s'" for s'
      using that valid PutString16 length_takeWhile_le [of "\<lambda>c. c \<noteq> 0" s'] by simp
    then show ?thesis
      using PutString16 room bio_put_uint32_wrote [OF inv] str
      by (cases s) (auto simp: bio_put_string16_eq Let_def split: if_splits)
  next
    case (PutString16X s)
    have "length (c_string s') < 4294967296" if "s = Some s'" for s'
      using that valid PutString16X length_takeWhile_le [of "\<lambda>c. c \<noteq> CHR 0x00" s']
      by (simp add: c_string_def)
    then show ?thesis
      using PutString16X room bio_put_uint32_wrote [OF inv] str [of "widen (the s)"]
      by (cases s) (auto simp: bio_put_string16_x_eq widen_def split: if_splits)
  qed
qed

lemma run_put_kept:
  assumes inv: "bio_inv buf md mo b" and valid: "op_valid op"
  shows "bio_kept buf md mo (b, m) (run_put op (b, m))"
    and "\<not> (op_len op \<le> bio_room b \<and> op_slots op \<le> unat (b_offs_avail b)) \<Longrightarrow>
      bio_overflowed (fst (run_put op (b, m)))"
proof -
  have "bio_kept buf md mo (b, m) (run_put op (b, m)) \<and> bio_overflowed (fst (run_put op (b, m)))"
    if nofit: "\<not> (op_len op \<le> bio_room b \<and> op_slots op \<le> unat (b_offs_avail b))"
  proof (cases op)
    case (PutUint32 n)
    then show ?thesis using nofit bio_put_uint32_kept [OF inv] by simp
  next
    case (PutObj ptr)
    then have "\<not> (16 \<le> bio_room b \<and> b_offs_avail b \<noteq> 0)"
      using nofit by (auto simp: Suc_le_eq unat_gt_0)
    then show ?thesis
      using bio_alloc_obj_fail [OF inv, of m] PutObj by (fastforce simp: bio_put_obj_eq)
  next
    case (PutRef h)
    then have "h \<noteq> 0 \<Longrightarrow> \<not> (16 \<le> bio_room b \<and> b_offs_avail b \<noteq> 0)"
      and "h = 0 \<Longrightarrow> bio_room b < 16"
      using nofit by (auto simp: Suc_le_eq unat_gt_0)
    then show ?thesis
      using bio_alloc_obj_fail [OF inv, of m] bio_overflow_kept [OF inv] PutRef
      by (cases "h = 0") (fastforce simp: bio_put_ref_eq bio_put_ref_0_fail)+
  next
    case (PutString16 s)
    have "length (takeWhile (\<lambda>c. c \<noteq> 0) s') < 4294967296" if "s = Some s'" for s'
      using that valid PutString16 length_takeWhile_le [of "\<lambda>c. c \<noteq> 0" s'] by simp
    then show ?thesis
      using PutString16 nofit bio_put_uint32_kept [OF inv] put_units_kept [OF inv]
      by (cases s) (auto simp: bio_put_string16_eq Let_def split: if_splits)
  next
    case (PutString16X s)
    have "length (c_string s') < 4294967296" if "s = Some s'" for s'
      using that valid PutString16X length_takeWhile_le [of "\<lambda>c. c \<noteq> CHR 0x00" s']
      by (simp add: c_string_def)
    then show ?thesis
      using PutString16X nofit bio_put_uint32_kept [OF inv] put_units_kept [OF inv, of "widen (the s)"]
      by (cases s) (auto simp: bio_put_string16_x_eq widen_def split: if_splits)
  qed
  then show "bio_kept buf md mo (b, m) (run_put op (b, m))"
    and "\<not> (op_len op \<le> bio_room b \<and> op_slots op \<le> unat (b_offs_avail b)) \<Longrightarrow>
      bio_overflowed (fst (run_put op (b, m)))"
    using run_put_wrote [OF inv valid] bio_wrote_kept by blast+
qed

lemma bio_wrote_slots:
  assumes "bio_inv buf md mo b" and "bio_wrote buf md mo (b, m) p' bs os"
  shows "unat (b_offs_avail (fst p')) = unat (b_offs_avail b) - length os"
proof -
  have "bio_objs (snd p') (fst p') = bio_objs m b @ os"
    using assms(2) by (simp add: bio_wrote_def)
  from arg_cong [OF this, of length] have "bio_nobj (fst p') = bio_nobj b + length os" by simp
  moreover have "bio_nobj b + unat (b_offs_avail b) = mo"
    and "bio_nobj (fst p') + unat (b_offs_avail (fst p')) = mo"
    using assms by (auto simp: bio_wrote_def bio_invD(7))
  ultimately show ?thesis by linarith
qed

interpretation bio: parcel_writer
  "\<lambda>p. bio_inv buf md mo (fst p)" "\<lambda>p. bio_room (fst p)" "\<lambda>p. unat (b_offs_avail (fst p))"
  "\<lambda>p. bio_written (snd p) (fst p)" "\<lambda>p. bio_objs (snd p) (fst p)" "\<lambda>p. bio_overflowed (fst p)"
  run_put
  for buf md mo
proof (unfold_locales, goal_cases)
  case (1 p op)
  then show ?case using run_put_kept(1) by (cases p) (fastforce simp: bio_kept_def)
next
  case (2 p op)
  obtain b m where p: "p = (b, m)" by fastforce
  obtain bs where bs: "op_enc op bs" and w: "bio_wrote buf md mo (b, m) (run_put op (b, m)) bs
      (replicate (op_slots op) (of_nat (bio_used b)))"
    using run_put_wrote [of buf md mo b op m] 2 p by auto
  have "unat (b_offs_avail (fst (run_put op (b, m)))) = unat (b_offs_avail b) - op_slots op"
    using bio_wrote_slots [OF _ w] 2 p by simp
  then show ?case
    using bs w op_enc_length [OF bs] p
    by (intro exI [of _ bs]) (simp add: bio_wrote_def bio_overflowed_def)
next
  case (3 p op)
  then show ?case using run_put_kept(2) by (cases p) fastforce
next
  case (4 p op)
  then show ?case using run_put_kept(1) by (cases p) (fastforce simp: bio_kept_def)
qed

lemma run_puts_confined:
  "bio_inv buf md mo (fst p) \<Longrightarrow> list_all op_valid ops \<Longrightarrow> confined buf md (snd p) (snd (fold run_put ops p))"
proof (induction ops arbitrary: p)
  case Nil
  then show ?case by simp
next
  case (Cons op ops)
  then have "bio_kept buf md mo p (run_put op p)"
    using run_put_kept(1) by (cases p) fastforce
  then show ?case
    using Cons.IH [of "run_put op p"] Cons.prems by (auto simp: bio_kept_def intro: confined_trans)
qed

section \<open>A fresh parcel\<close>

definition buffer_ok :: "u32 \<Rightarrow> u32 \<Rightarrow> u32 \<Rightarrow> bool" where
  "buffer_ok buf md mo \<longleftrightarrow> buf \<noteq> 0 \<and> unat buf + unat md < 4294967296 \<and> 4 * unat mo \<le> unat md"

lemma bio_init_ok:
  assumes "buffer_ok buf md mo"
  shows "bio_inv buf (unat md) (unat mo) (bio_init b buf md mo)"
    and "bio_written m (bio_init b buf md mo) = []" and "bio_objs m (bio_init b buf md mo) = []"
    and "bio_room (bio_init b buf md mo) = unat md - 4 * unat mo"
    and "b_offs_avail (bio_init b buf md mo) = mo" and "b_flags (bio_init b buf md mo) = 0"
proof -
  have mo4: "mo * 4 = of_nat (4 * unat mo)" by (simp add: mult.commute)
  have n: "unat (mo * 4) = 4 * unat mo"
    unfolding mo4 using assms unat_less_u32 [of md]
    by (intro unat_of_nat_u32) (simp add: buffer_ok_def)
  then have le: "mo * 4 \<le> md" using assms by (simp add: word_le_nat_alt buffer_ok_def)
  then have eq: "bio_init b buf md mo = b\<lparr>b_data := buf + mo * 4, b_data0 := buf + mo * 4,
      b_offs := buf, b_offs0 := buf, b_data_avail := md - mo * 4, b_offs_avail := mo, b_flags := 0\<rparr>"
    by (auto simp: bio_init_def layout_defs Let_def)
  show room: "bio_room (bio_init b buf md mo) = unat md - 4 * unat mo"
    using le n by (simp add: eq bio_room_def unat_sub_u32 word_le_nat_alt)
  show "bio_inv buf (unat md) (unat mo) (bio_init b buf md mo)"
    unfolding bio_inv_def room using assms mo4
    by (simp add: eq bio_used_def bio_nobj_def buffer_ok_def)
  show "bio_written m (bio_init b buf md mo) = []" "bio_objs m (bio_init b buf md mo) = []"
    "b_offs_avail (bio_init b buf md mo) = mo" "b_flags (bio_init b buf md mo) = 0"
    by (simp_all add: eq bio_written_def bio_objs_def bio_used_def bio_nobj_def)
qed

lemma bio_init_not_overflowed: "buffer_ok buf md mo \<Longrightarrow> \<not> bio_overflowed (bio_init b buf md mo)"
  by (simp add: bio_overflowed_def bio_init_ok)

lemma run_puts_overflow_iff:
  assumes "buffer_ok buf md mo" and "list_all op_valid ops"
  shows "bio_overflowed (fst (fold run_put ops (bio_init b buf md mo, m))) \<longleftrightarrow>
     \<not> (sum_list (map op_len ops) \<le> unat md - 4 * unat mo \<and> sum_list (map op_slots ops) \<le> unat mo)"
  using bio.puts_fit [of buf "unat md" "unat mo" "(bio_init b buf md mo, m)" ops]
    bio.puts_overflow [of buf "unat md" "unat mo" "(bio_init b buf md mo, m)" ops]
    bio_init_ok [OF assms(1)] bio_init_not_overflowed [OF assms(1), of b] assms(2)
  by fastforce

section \<open>Properties\<close>

text \<open>
  C7: Building a message is memory safe. Whatever sequence of \<open>bio_put_*\<close> calls follows a
  \<open>bio_init\<close> on a buffer of \<open>md\<close> bytes, fitting or not, the parcel stays well formed
  (cursor, offsets and counters account for exactly that buffer) and not one byte outside
  the buffer changes.
\<close>

theorem parcel_build_safe:
  assumes "buffer_ok buf md mo" and "list_all op_valid ops"
  shows "bio_inv buf (unat md) (unat mo) (fst (fold run_put ops (bio_init b buf md mo, m))) \<and>
     confined buf (unat md) m (snd (fold run_put ops (bio_init b buf md mo, m)))"
  using bio.puts_inv [of buf "unat md" "unat mo" "(bio_init b buf md mo, m)"] bio_init_ok(1) [OF assms(1)]
    run_puts_confined [of buf "unat md" "unat mo" "(bio_init b buf md mo, m)"] assms(2)
  by simp

definition sample_ops :: "put_op list" where
  "sample_ops = [PutUint32 0, PutString16X (Some ''hello''), PutObj 0x8000]"

theorem parcel_build_safe_witness:
  "bio_inv 0x1000 512 4 (fst (fold run_put sample_ops (bio_init zero_bio 0x1000 512 4, \<lambda>_. 0))) \<and>
   confined 0x1000 512 (\<lambda>_. 0) (snd (fold run_put sample_ops (bio_init zero_bio 0x1000 512 4, \<lambda>_. 0)))"
  using parcel_build_safe [of "0x1000" 512 4 sample_ops "zero_bio" "\<lambda>_. 0"]
  by (simp add: buffer_ok_def sample_ops_def)

text \<open>
  C9: The overflow flag is exact. After any sequence of calls on a fresh parcel,
  \<open>BIO_F_OVERFLOW\<close> (which \<open>binder_call\<close> tests before it sends) is clear exactly when
  the encoded items and the objects fit in the buffer and its offsets array.
\<close>

theorem parcel_overflow_exact:
  assumes "buffer_ok buf md mo" and "list_all op_valid ops"
  shows "b_flags (fst (fold run_put ops (bio_init b buf md mo, m))) AND BIO_F_OVERFLOW = 0 \<longleftrightarrow>
     sum_list (map op_len ops) \<le> unat md - 4 * unat mo \<and> sum_list (map op_slots ops) \<le> unat mo"
  using run_puts_overflow_iff [OF assms, of b m] by (auto simp: bio_overflowed_def)

theorem parcel_overflow_exact_witness:
  "b_flags (fst (fold run_put sample_ops (bio_init zero_bio 0x1000 512 4, \<lambda>_. 0))) AND BIO_F_OVERFLOW = 0"
  using parcel_overflow_exact [of "0x1000" 512 4 sample_ops zero_bio "\<lambda>_. 0"]
  by (simp add: buffer_ok_def sample_ops_def str_len_def widen_def c_string_def align4_nat_def)

text \<open>
  C8: No message is sent with a hole in it. If the overflow flag is clear after a sequence
  of calls on a fresh parcel, the bytes between \<open>data0\<close> and \<open>data\<close> are the encodings of
  exactly those calls in order, and the offsets array lists exactly the positions of the
  objects among them.
\<close>

theorem parcel_build_exact:
  assumes "buffer_ok buf md mo" and "list_all op_valid ops"
    and "fold run_put ops (bio_init b buf md mo, m) = (b', m')"
    and "b_flags b' AND BIO_F_OVERFLOW = 0"
  shows "(\<exists>bss. list_all2 op_enc ops bss \<and> bio_written m' b' = concat bss) \<and>
     bio_objs m' b' = offs_from 0 ops"
  using bio.puts_exact [of buf "unat md" "unat mo" "(bio_init b buf md mo, m)" ops]
    bio_init_ok [OF assms(1)] assms(2-4)
  by (auto simp: bio_overflowed_def)

theorem parcel_build_exact_witness:
  "\<exists>b' m' bss. fold run_put sample_ops (bio_init zero_bio 0x1000 512 4, \<lambda>_. 0) = (b', m') \<and>
     list_all2 op_enc sample_ops bss \<and> bio_written m' b' = concat bss \<and> bio_objs m' b' = [20]"
proof -
  obtain b' m' where r: "fold run_put sample_ops (bio_init zero_bio 0x1000 512 4, \<lambda>_. 0) = (b', m')"
    by fastforce
  have h: "buffer_ok 0x1000 512 4" "list_all op_valid sample_ops"
    by (simp_all add: buffer_ok_def sample_ops_def)
  have "b_flags b' AND BIO_F_OVERFLOW = 0"
    using run_puts_overflow_iff [OF h, of zero_bio "\<lambda>_. 0"] r
    by (simp add: bio_overflowed_def sample_ops_def str_len_def widen_def c_string_def align4_nat_def)
  from parcel_build_exact [OF h r this] r show ?thesis
    by (auto simp: sample_ops_def str_len_def widen_def c_string_def align4_nat_def)
qed

end
