(* ===== verification/Parcel_Channel.thy ===== *)
theory Parcel_Channel
  imports Parcel
begin

text \<open>
  Reading parcels, and reading what was written. The reader's contract is a locale of its
  own; a channel is a writer and a reader over the same encoding, and the round trip of the
  request header that every binder service expects (policy word, interface name, argument
  string) is proved in it. The interpretations are on \<open>bio_get_*\<close> and \<open>bio_put_*\<close>.
\<close>

section \<open>The reader's contract\<close>

locale parcel_reader =
  fixes ok :: "'r \<Rightarrow> bool"
    and rest :: "'r \<Rightarrow> u8 list"
    and get32 :: "'r \<Rightarrow> u32 \<times> 'r"
    and getstr :: "'r \<Rightarrow> u32 \<times> u32 \<times> 'r"
    and units :: "u32 \<Rightarrow> nat \<Rightarrow> u16 list"
  assumes get32_ok: "ok r \<Longrightarrow> rest r = le32 n @ bs \<Longrightarrow>
      \<exists>r'. get32 r = (n, r') \<and> ok r' \<and> rest r' = bs"
    and getstr_ok: "ok r \<Longrightarrow> rest r = e @ bs \<Longrightarrow> is_str16 s e \<Longrightarrow> length s < 2147483640 \<Longrightarrow>
      \<exists>p r'. getstr r = (p, of_nat (length s), r') \<and> p \<noteq> 0 \<and> units p (length s) = s \<and>
        ok r' \<and> rest r' = bs"

locale parcel_channel =
  parcel_writer inv room slots bytes offsets overflowed put + parcel_reader ok rest get32 getstr units
  for inv :: "'p \<Rightarrow> bool" and room :: "'p \<Rightarrow> nat" and slots :: "'p \<Rightarrow> nat"
    and bytes :: "'p \<Rightarrow> u8 list" and offsets :: "'p \<Rightarrow> u32 list" and overflowed :: "'p \<Rightarrow> bool"
    and put :: "put_op \<Rightarrow> 'p \<Rightarrow> 'p"
    and ok :: "'r \<Rightarrow> bool" and rest :: "'r \<Rightarrow> u8 list" and get32 :: "'r \<Rightarrow> u32 \<times> 'r"
    and getstr :: "'r \<Rightarrow> u32 \<times> u32 \<times> 'r" and units :: "u32 \<Rightarrow> nat \<Rightarrow> u16 list"
begin

lemma string_roundtrip:
  assumes "inv p" and "op_valid op" and "op_units op = Some s" and "str_len s \<le> room p"
    and "\<not> (\<exists>n. op = PutUint32 n)" and "length s < 2147483640"
    and "ok r" and "rest r = drop (length (bytes p)) (bytes (put op p)) @ bs"
  shows "\<exists>q r'. getstr r = (q, of_nat (length s), r') \<and> q \<noteq> 0 \<and> units q (length s) = s \<and>
     ok r' \<and> rest r' = bs"
proof -
  have "op_len op = str_len s" and "op_slots op = 0"
    using assms(3) by (cases op; auto)+
  then obtain e where e: "op_enc op e" "bytes (put op p) = bytes p @ e"
    using put_fits [OF assms(1,2)] assms(4) by auto
  then have "is_str16 s e" using assms(3) by (cases op) auto
  moreover have "rest r = e @ bs" using assms(8) e(2) by simp
  ultimately show ?thesis using getstr_ok assms(6,7) by blast
qed

lemma header_roundtrip:
  assumes "inv p" and "bytes p = []" and ops: "ops = [PutUint32 pol, PutString16X (Some iface), PutString16X (Some arg)]"
    and len: "length iface < 536870912" "length arg < 536870912"
    and room: "4 + str_len (widen iface) + str_len (widen arg) \<le> room p"
    and "ok r" and rest: "rest r = bytes (fold put ops p) @ bs"
  shows "\<exists>r1 q2 r2 q3 r3. get32 r = (pol, r1) \<and>
     getstr r1 = (q2, of_nat (length (widen iface)), r2) \<and> q2 \<noteq> 0 \<and>
     units q2 (length (widen iface)) = widen iface \<and>
     getstr r2 = (q3, of_nat (length (widen arg)), r3) \<and> q3 \<noteq> 0 \<and>
     units q3 (length (widen arg)) = widen arg \<and> ok r3 \<and> rest r3 = bs"
proof -
  have short: "length (c_string x) < 536870912" if "length x < 536870912" for x
    using that length_takeWhile_le [of "\<lambda>c. c \<noteq> CHR 0x00" x] by (simp add: c_string_def)
  have units: "op_units (PutString16X (Some iface)) = Some (widen iface)"
    "op_units (PutString16X (Some arg)) = Some (widen arg)"
    using short len by simp_all
  then obtain bss where bss: "list_all2 op_enc ops bss" "bytes (fold put ops p) = concat bss"
    using puts_fit [of p ops] assms(1,2) len room by (auto simp: ops)
  then obtain e2 e3 where e: "bss = [le32 pol, e2, e3]" "is_str16 (widen iface) e2" "is_str16 (widen arg) e3"
    using units by (auto simp: ops list_all2_Cons1)
  have w: "length (widen iface) < 2147483640" "length (widen arg) < 2147483640"
    using short [OF len(1)] short [OF len(2)] by (simp_all add: widen_def)
  from rest bss(2) e(1) have "rest r = le32 pol @ (e2 @ e3 @ bs)" by simp
  from get32_ok [OF \<open>ok r\<close> this] obtain r1 where 1: "get32 r = (pol, r1)" "ok r1" "rest r1 = e2 @ e3 @ bs"
    by blast
  from getstr_ok [OF 1(2,3) e(2) w(1)] obtain q2 r2 where 2: "getstr r1 = (q2, of_nat (length (widen iface)), r2)"
      "q2 \<noteq> 0" "units q2 (length (widen iface)) = widen iface" "ok r2" "rest r2 = e3 @ bs"
    by blast
  from getstr_ok [OF 2(4,5) e(3) w(2)] 1 2 show ?thesis by fastforce
qed

end

section \<open>The code keeps it\<close>

interpretation bio_rd: parcel_reader bio_cursor "bio_rest m" "bio_get_uint32 m" "bio_get_string16 m" "u16s_at m"
  for m
proof (unfold_locales, goal_cases)
  case (1 r n bs)
  have "4 \<le> bio_room r" using arg_cong [OF 1(2), of length] by simp
  then show ?case using bio_get_uint32_ok [OF 1] bio_cursor_adv [OF 1(1)] by blast
next
  case (2 r e bs s)
  note G = bio_get_string16_ok [OF 2]
  have "length e = str_len s" using 2(3) by (simp add: is_str16_def)
  then have room: "str_len s \<le> bio_room r" using arg_cong [OF 2(2), of length] by simp
  have "bio_cursor (bio_adv r 4)"
    using room 2(1) by (intro bio_cursor_adv) (simp_all add: str_len_def)
  then have "b_data r + 4 \<noteq> 0" by (simp add: bio_cursor_def)
  then show ?case using G bio_cursor_adv [OF 2(1) room] by blast
qed

interpretation bio_ch: parcel_channel
  "\<lambda>p. bio_inv buf md mo (fst p)" "\<lambda>p. bio_room (fst p)" "\<lambda>p. unat (b_offs_avail (fst p))"
  "\<lambda>p. bio_written (snd p) (fst p)" "\<lambda>p. bio_objs (snd p) (fst p)" "\<lambda>p. bio_overflowed (fst p)"
  run_put bio_cursor "bio_rest m" "bio_get_uint32 m" "bio_get_string16 m" "u16s_at m"
  for buf md mo m
  by unfold_locales

section \<open>Properties\<close>

text \<open>
  C10: String round trip. A string written with \<open>bio_put_string16_x\<close> into a parcel that has
  room for it, and then read with \<open>bio_get_string16\<close> from a parcel whose unread bytes start
  with what was written, comes back unit for unit with its length, and the reader is left
  exactly at the bytes that follow.
\<close>

theorem string16_roundtrip:
  assumes "bio_inv buf md mo b" and "length str < 536870912" and "str_len (widen str) \<le> bio_room b"
    and "bio_put_string16_x (Some str) (b, m) = (b', m')"
    and "bio_cursor r" and "bio_rest m2 r = drop (bio_used b) (bio_written m' b') @ tail"
  shows "\<exists>ptr r'. bio_get_string16 m2 r = (ptr, of_nat (length (c_string str)), r') \<and> ptr \<noteq> 0 \<and>
     u16s_at m2 ptr (length (c_string str)) = widen str \<and> bio_cursor r' \<and> bio_rest m2 r' = tail"
proof -
  have len: "length (c_string str) < 536870912"
    using assms(2) length_takeWhile_le [of "\<lambda>c. c \<noteq> CHR 0x00" str] by (simp add: c_string_def)
  then show ?thesis
    using bio_ch.string_roundtrip [of buf md mo "(b, m)" "PutString16X (Some str)" "widen str" r m2 tail] assms
    by (simp add: widen_def)
qed

theorem string16_roundtrip_witness:
  "\<exists>ptr r'. bio_get_string16 (snd (bio_put_string16_x (Some ''hello'') (bio_init zero_bio 0x1000 64 2, \<lambda>_. 0)))
       (zero_bio\<lparr>b_data := 0x1008, b_data_avail := 16\<rparr>) = (ptr, 5, r') \<and>
     u16s_at (snd (bio_put_string16_x (Some ''hello'') (bio_init zero_bio 0x1000 64 2, \<lambda>_. 0))) ptr 5 =
       [104, 101, 108, 108, 111]"
proof -
  let ?b = "bio_init zero_bio 0x1000 64 2" and ?r = "zero_bio\<lparr>b_data := 0x1008, b_data_avail := 16\<rparr>"
  obtain b' m' where w: "bio_put_string16_x (Some ''hello'') (?b, \<lambda>_. 0) = (b', m')" by fastforce
  have str: "widen ''hello'' = [104, 101, 108, 108, 111]" "length (c_string ''hello'') = 5"
    by (simp_all add: widen_def c_string_def)
  have inv: "bio_inv 0x1000 64 2 ?b" and room: "bio_room ?b = 56"
    using bio_init_ok(1,4) [of "0x1000" 64 2 zero_bio] by (simp_all add: buffer_ok_def)
  have b': "b_data0 b' = 0x1008" "bio_used b' = 16" "bio_used ?b = 0"
    using w by (auto simp: bio_put_string16_x_def bio_put_uint32_def bio_alloc_def bio_init_def zero_bio_def
        align4_def c_string_def layout_defs MAX_BIO_SIZE_def bio_used_def)
  have cur: "bio_cursor ?r" by (simp add: bio_cursor_def)
  have rest: "bio_rest m' ?r = drop (bio_used ?b) (bio_written m' b') @ []"
    using b' by (simp add: bio_rest_def bio_written_def bio_room_def)
  from string16_roundtrip [OF inv _ _ w cur rest] str room w show ?thesis
    by (auto simp: str_len_def align4_nat_def)
qed

text \<open>
  C11: Reference round trip. A non-zero handle written with \<open>bio_put_ref\<close> is the handle
  \<open>bio_get_ref\<close> returns to a reader that stands at the same position of a parcel with the
  same bytes and the same offsets array, and the reader moves on past the object.
\<close>

theorem ref_roundtrip:
  assumes inv: "bio_inv buf md mo b" and "h \<noteq> 0" and room: "16 \<le> bio_room b" and av: "b_offs_avail b \<noteq> 0"
    and put: "bio_put_ref h (b, m) = (b', m')"
    and "bio_cursor r" and pos: "b_data r - b_data0 r = of_nat (bio_used b)"
    and rest: "bio_rest m2 r = drop (bio_used b) (bio_written m' b') @ tail"
    and offs: "map (\<lambda>i. load32 m2 (b_offs r + 4 * of_nat i)) [0..<unat (b_offs_avail r)] = bio_objs m' b'"
  shows "bio_get_ref m2 r = (h, bio_adv r 16) \<and> bio_rest m2 (bio_adv r 16) = tail"
proof -
  have "1 \<le> unat (b_offs_avail b)" using av by (simp add: Suc_le_eq unat_gt_0)
  then have "bio_wrote buf md mo (b, m) (b', m') (obj_bytes (handle_obj h)) [of_nat (bio_used b)]"
    using run_put_wrote [OF inv, of "PutRef h" m] room put \<open>h \<noteq> 0\<close> by simp
  then have w: "bio_written m' b' = bio_written m b @ obj_bytes (handle_obj h)"
      "bio_objs m' b' = bio_objs m b @ [of_nat (bio_used b)]"
    by (simp_all add: bio_wrote_def)
  have "list_ex (\<lambda>x. x = of_nat (bio_used b)) (bio_objs m' b')" using w(2) by simp
  then have "has_offset m2 r (b_data r - b_data0 r)"
    unfolding has_offset_def pos offs [symmetric] by (auto simp: list_ex_iff)
  moreover have "bio_rest m2 r = obj_bytes (handle_obj h) @ tail" using rest w(1) by simp
  ultimately show ?thesis
    using bio_get_ref_ok [OF \<open>bio_cursor r\<close>] by (simp add: handle_obj_def)
qed

theorem ref_roundtrip_witness:
  "fst (bio_get_ref (snd (bio_put_ref 7 (bio_init zero_bio 0x1000 64 2, \<lambda>_. 0)))
     (zero_bio\<lparr>b_data := 0x1008, b_data0 := 0x1008, b_data_avail := 16, b_offs := 0x1000, b_offs_avail := 1\<rparr>)) = 7"
proof -
  let ?b = "bio_init zero_bio 0x1000 64 2"
  let ?r = "zero_bio\<lparr>b_data := 0x1008, b_data0 := 0x1008, b_data_avail := 16, b_offs := 0x1000, b_offs_avail := 1\<rparr>"
  obtain b' m' where w: "bio_put_ref 7 (?b, \<lambda>_. 0) = (b', m')" by fastforce
  have inv: "bio_inv 0x1000 64 2 ?b" and room: "16 \<le> bio_room ?b" and av: "b_offs_avail ?b \<noteq> 0"
    using bio_init_ok(1,4,5) [of "0x1000" 64 2 zero_bio] by (simp_all add: buffer_ok_def)
  have b': "b_data0 b' = 0x1008" "bio_used b' = 16" "bio_used ?b = 0" "b_offs0 b' = 0x1000" "bio_nobj b' = 1"
    using w by (auto simp: bio_put_ref_def bio_alloc_obj_def bio_alloc_def bio_init_def zero_bio_def align4_def
        layout_defs bio_used_def bio_nobj_def)
  have "fst (bio_get_ref m' ?r) = 7"
    using ref_roundtrip [OF inv _ room av w, of ?r m' "[]"] b'
    by (simp add: bio_cursor_def bio_rest_def bio_written_def bio_room_def bio_objs_def zero_bio_def)
  then show ?thesis using w by simp
qed

text \<open>
  String reads stay inside the parcel. Whenever \<open>bio_get_string16\<close> returns a pointer
  and the announced length is below \<open>0x7ffffffe\<close>, all \<open>len + 1\<close> units at the pointer lie
  inside the bytes the parcel had left; otherwise it returns NULL, leaves no byte readable
  and sets \<open>BIO_F_OVERFLOW\<close>.
\<close>

theorem get_string16_bounds:
  assumes cur: "bio_cursor b" and get: "bio_get_string16 m b = (ptr, len, b')"
    and len: "unat len < 0x7ffffffe"
  shows "if ptr \<noteq> 0 then ptr = b_data b + 4 \<and> 4 + 2 * (unat len + 1) \<le> bio_room b \<and>
           b' = bio_adv b (4 + align4_nat (2 * (unat len + 1)))
         else bio_room b' = 0 \<and> bio_overflowed b'"
proof -
  let ?k = "2 * (unat len + 1)"
  obtain n b1 where g: "bio_get_uint32 m b = (n, b1)" by fastforce
  then have eq: "len = n" "(ptr, b') = bio_get b1 ((len + 1) * 2)"
    using get by (auto simp: bio_get_string16_def split: prod.splits)
  have sz: "unat ((len + 1) * 2) = ?k"
    using unat_units [of "unat len"] len by simp
  then have nw: "unat ((len + 1) * 2) + 3 < 4294967296" using len by simp
  have b1: "b1 = (if 4 \<le> bio_room b then bio_adv b 4 else bio_overflow (b\<lparr>b_data_avail := 0\<rparr>))"
    using g by (auto simp: bio_get_uint32_def bio_get_ok bio_get_fail split: if_splits)
  have "b_data b + 4 \<noteq> 0" if "4 \<le> bio_room b"
    using bio_cursor_adv [OF cur that] by (simp add: bio_cursor_def)
  moreover have "0 < align4_nat ?k" using align4_nat_pos [of ?k] by simp
  moreover have "bio_get b1 ((len + 1) * 2) =
      (if align4_nat ?k \<le> bio_room b1 then (b_data b1, bio_adv b1 (align4_nat ?k))
       else (0, bio_overflow (b1\<lparr>b_data_avail := 0\<rparr>)))"
    using bio_get_ok [OF nw, of b1] bio_get_fail [OF nw, of b1] unfolding sz by auto
  moreover have "4 + ?k \<le> bio_room b" if "4 \<le> bio_room b" "align4_nat ?k \<le> bio_room b - 4"
    using that le_trans [OF align4_nat_ge] by fastforce
  ultimately show ?thesis
    using eq(2) b1 by (auto simp: bio_adv_adv split: if_splits)
qed

theorem get_string16_bounds_witness:
  "bio_get_string16 (store_bytes 0x2000 (le32 1 @ [65, 0, 0, 0]) (\<lambda>_. 0))
     (zero_bio\<lparr>b_data := 0x2000, b_data_avail := 8\<rparr>) =
   (0x2004, 1, bio_adv (zero_bio\<lparr>b_data := 0x2000, b_data_avail := 8\<rparr>) 8)"
proof -
  let ?m = "store_bytes 0x2000 (le32 1 @ [65, 0, 0, 0]) (\<lambda>_. 0)"
  let ?b = "zero_bio\<lparr>b_data := 0x2000, b_data_avail := 8\<rparr>"
  have cur: "bio_cursor ?b" by (simp add: bio_cursor_def)
  have "load_bytes ?m 0x2000 8 = le32 1 @ [65, 0, 0, 0]" by (simp add: load_store_same_len)
  then have "load32 ?m 0x2000 = 1" by (rule load32_prefix)
  then have "fst (snd (bio_get_string16 ?m ?b)) = 1" "fst (bio_get_string16 ?m ?b) \<noteq> 0"
    by (simp_all add: bio_get_string16_def bio_get_uint32_def bio_get_def align4_def)
  then obtain ptr b' where g: "bio_get_string16 ?m ?b = (ptr, 1, b')" "ptr \<noteq> 0"
    by (cases "bio_get_string16 ?m ?b") auto
  from get_string16_bounds [OF cur g(1)] g show ?thesis by (simp add: align4_nat_def)
qed

text \<open>
  The bound on the length is needed. A parcel of only four bytes that announces a string
  of \<open>0x7fffffff\<close> units makes \<open>(len + 1) * sizeof(uint16_t)\<close> wrap to zero: the reader gets
  a non-NULL pointer and that length, although not a single unit is present.
\<close>

theorem get_string16_wraps:
  assumes "bio_cursor b" and "bio_rest m b = le32 0x7fffffff"
  shows "bio_get_string16 m b = (b_data b + 4, 0x7fffffff, bio_adv b 4) \<and> b_data b + 4 \<noteq> 0 \<and>
     bio_room (bio_adv b 4) = 0"
proof -
  have room: "bio_room b = 4" using arg_cong [OF assms(2), of length] by simp
  have "bio_get_uint32 m b = (0x7fffffff, bio_adv b 4)"
    using bio_get_uint32_ok(1) [OF assms(1), of m "0x7fffffff" "[]"] assms(2) by simp
  moreover have "bio_get (bio_adv b 4) 0 = (b_data b + 4, bio_adv b 4)"
    by (simp add: bio_get_def align4_def)
  ultimately show ?thesis
    using room bio_cursor_adv [OF assms(1), of 4]
    by (simp add: bio_get_string16_def bio_cursor_def)
qed

theorem get_string16_wraps_witness:
  "bio_get_string16 (store_bytes 0x2000 (le32 0x7fffffff) (\<lambda>_. 0)) (zero_bio\<lparr>b_data := 0x2000, b_data_avail := 4\<rparr>) =
   (0x2004, 0x7fffffff, bio_adv (zero_bio\<lparr>b_data := 0x2000, b_data_avail := 4\<rparr>) 4)"
proof -
  let ?b = "zero_bio\<lparr>b_data := 0x2000, b_data_avail := 4\<rparr>" and ?m = "store_bytes 0x2000 (le32 0x7fffffff) (\<lambda>_. 0)"
  have "bio_cursor ?b" "bio_rest ?m ?b = le32 0x7fffffff"
    by (simp_all add: bio_cursor_def bio_rest_def bio_room_def load_store_same_len)
  from get_string16_wraps [OF this] show ?thesis by simp
qed

end
