(* ===== verification/Binder_Core.thy ===== *)
theory Binder_Core
  imports Parcel_Channel
begin

text \<open>
  The connection to the driver in \<open>binder/binder.c\<close>: opening the device, sending commands,
  parsing what the driver returns, the client's blocking call and the server's loop. The
  system calls are a parameter, the record \<open>kernel\<close> over an opaque state \<open>'k\<close>: what the
  driver, the allocator and the other processes do is not under this repository. Memory is
  explicit, and the C locals whose address is taken live at addresses below the stack
  pointer \<open>w_sp\<close>, allocated on entry and released on return. \<open>'s\<close> is the state of the
  program that uses the library.
\<close>

section \<open>State\<close>

record binder_state =
  bs_ptr :: u32
  bs_fd :: int
  bs_mapped :: u32
  bs_mapsize :: u32

record ('k, 's) world =
  w_mem :: mem
  w_sp :: u32
  w_k :: 'k
  w_app :: 's

record 'k kernel =
  k_malloc :: "u32 \<Rightarrow> 'k \<Rightarrow> u32 \<times> 'k"
  k_free :: "u32 \<Rightarrow> 'k \<Rightarrow> 'k"
  k_open :: "string \<Rightarrow> 'k \<Rightarrow> int \<times> 'k"
  k_close :: "int \<Rightarrow> 'k \<Rightarrow> 'k"
  k_mmap :: "u32 \<Rightarrow> int \<Rightarrow> 'k \<Rightarrow> u32 \<times> 'k"
  k_munmap :: "u32 \<Rightarrow> u32 \<Rightarrow> 'k \<Rightarrow> 'k"
  k_version :: "int \<Rightarrow> 'k \<Rightarrow> int \<times> int \<times> 'k"
  k_set_context_mgr :: "int \<Rightarrow> 'k \<Rightarrow> int \<times> 'k"
  k_set_max_threads :: "int \<Rightarrow> int \<Rightarrow> 'k \<Rightarrow> int \<times> 'k"
  k_write_read :: "int \<Rightarrow> binder_write_read \<Rightarrow> mem \<Rightarrow> 'k \<Rightarrow> int \<times> binder_write_read \<times> mem \<times> 'k"
  k_pthread_create :: "u32 \<Rightarrow> mem \<Rightarrow> 'k \<Rightarrow> 'k"

text \<open>Locals on the stack: \<open>n\<close> bytes below the stack pointer for the time of the body.\<close>

definition with_frame ::
    "u32 \<Rightarrow> (u32 \<Rightarrow> ('k, 's) world \<Rightarrow> 'a \<times> ('k, 's) world) \<Rightarrow> ('k, 's) world \<Rightarrow> 'a \<times> ('k, 's) world" where
  "with_frame n body w =
     (let a = w_sp w - n; (r, w') = body a (w\<lparr>w_sp := a\<rparr>) in (r, w'\<lparr>w_sp := w_sp w\<rparr>))"

definition store_words :: "(u32 \<times> u32) list \<Rightarrow> ('k, 's) world \<Rightarrow> ('k, 's) world" where
  "store_words ws w = w\<lparr>w_mem := fold (\<lambda>(a, v). store32 a v) ws (w_mem w)\<rparr>"

section \<open>Opening and closing\<close>

definition MAP_FAILED :: u32 where "MAP_FAILED = 0xffffffff"

definition binder_open ::
    "'k kernel \<Rightarrow> u32 \<Rightarrow> ('k, 's) world \<Rightarrow> binder_state option \<times> ('k, 's) world" where
  "binder_open K mapsize w =
     (let (bs, k) = k_malloc K 12 (w_k w) in
      if bs = 0 then (None, w\<lparr>w_k := k\<rparr>)
      else let (fd, k) = k_open K ''/dev/binder'' k in
      if fd < 0 then (None, w\<lparr>w_k := k_free K bs k\<rparr>)
      else let (res, vers, k) = k_version K fd k in
      if res = -1 \<or> vers \<noteq> BINDER_CURRENT_PROTOCOL_VERSION then (None, w\<lparr>w_k := k_free K bs k\<rparr>)
      else let (mapped, k) = k_mmap K mapsize fd k in
      if mapped = MAP_FAILED then (None, w\<lparr>w_k := k_free K bs (k_close K fd k)\<rparr>)
      else (Some \<lparr>bs_ptr = bs, bs_fd = fd, bs_mapped = mapped, bs_mapsize = mapsize\<rparr>, w\<lparr>w_k := k\<rparr>))"

definition binder_close :: "'k kernel \<Rightarrow> binder_state \<Rightarrow> ('k, 's) world \<Rightarrow> ('k, 's) world" where
  "binder_close K bs w =
     w\<lparr>w_k := k_free K (bs_ptr bs) (k_close K (bs_fd bs) (k_munmap K (bs_mapped bs) (bs_mapsize bs) (w_k w)))\<rparr>"

definition binder_become_context_manager ::
    "'k kernel \<Rightarrow> binder_state \<Rightarrow> ('k, 's) world \<Rightarrow> int \<times> ('k, 's) world" where
  "binder_become_context_manager K bs w =
     (let (res, k) = k_set_context_mgr K (bs_fd bs) (w_k w) in (res, w\<lparr>w_k := k\<rparr>))"

definition binder_set_maxthreads ::
    "'k kernel \<Rightarrow> binder_state \<Rightarrow> int \<Rightarrow> ('k, 's) world \<Rightarrow> ('k, 's) world" where
  "binder_set_maxthreads K bs threads w =
     (let (res, k) = k_set_max_threads K (bs_fd bs) threads (w_k w) in w\<lparr>w_k := k\<rparr>)"

section \<open>Sending commands\<close>

definition ioctl_bwr ::
    "'k kernel \<Rightarrow> binder_state \<Rightarrow> binder_write_read \<Rightarrow> ('k, 's) world \<Rightarrow> int \<times> binder_write_read \<times> ('k, 's) world" where
  "ioctl_bwr K bs bwr w =
     (let (res, bwr, m, k) = k_write_read K (bs_fd bs) bwr (w_mem w) (w_k w)
      in (res, bwr, w\<lparr>w_mem := m, w_k := k\<rparr>))"

definition binder_write ::
    "'k kernel \<Rightarrow> binder_state \<Rightarrow> u32 \<Rightarrow> u32 \<Rightarrow> ('k, 's) world \<Rightarrow> int \<times> ('k, 's) world" where
  "binder_write K bs dat len w =
     (let (res, bwr, w) = ioctl_bwr K bs
        \<lparr>write_size = len, write_consumed = 0, write_buffer = dat,
         read_size = 0, read_consumed = 0, read_buffer = 0\<rparr> w
      in (res, w))"

text \<open>
  The packed local of \<open>binder_send_reply\<close>: \<open>cmd_free\<close>, \<open>buffer\<close>, \<open>cmd_reply\<close> and
  the transaction, 52 bytes at \<open>d\<close>; the parameter \<open>status\<close>, whose address is taken, is at
  \<open>d + 52\<close>. The fields \<open>sender_pid\<close> and \<open>sender_euid\<close> are left as they are.
\<close>

definition binder_send_reply ::
    "'k kernel \<Rightarrow> binder_state \<Rightarrow> binder_io \<Rightarrow> u32 \<Rightarrow> int \<Rightarrow> ('k, 's) world \<Rightarrow> ('k, 's) world" where
  "binder_send_reply K bs reply buffer_to_free status w =
     snd (with_frame 56 (\<lambda>d w.
       let w = store_words [(d + 52, of_int status), (d, BC_FREE_BUFFER), (d + 4, buffer_to_free),
             (d + 8, BC_REPLY), (d + 12, 0), (d + 16, 0), (d + 20, 0)] w;
           w = store_words
             (if status \<noteq> 0
              then [(d + 24, TF_STATUS_CODE), (d + 36, 4), (d + 40, 0), (d + 44, d + 52), (d + 48, 0)]
              else [(d + 24, 0), (d + 36, b_data reply - b_data0 reply),
                    (d + 40, b_offs reply - b_offs0 reply), (d + 44, b_data0 reply),
                    (d + 48, b_offs0 reply)]) w
       in binder_write K bs d 52 w) w)"

definition binder_acquire :: "'k kernel \<Rightarrow> binder_state \<Rightarrow> u32 \<Rightarrow> ('k, 's) world \<Rightarrow> ('k, 's) world" where
  "binder_acquire K bs target w =
     snd (with_frame 8 (\<lambda>cmd w.
       binder_write K bs cmd 8 (store_words [(cmd, BC_ACQUIRE), (cmd + 4, target)] w)) w)"

definition binder_release :: "'k kernel \<Rightarrow> binder_state \<Rightarrow> u32 \<Rightarrow> ('k, 's) world \<Rightarrow> ('k, 's) world" where
  "binder_release K bs target w =
     snd (with_frame 8 (\<lambda>cmd w.
       binder_write K bs cmd 8 (store_words [(cmd, BC_RELEASE), (cmd + 4, target)] w)) w)"

definition binder_link_to_death ::
    "'k kernel \<Rightarrow> binder_state \<Rightarrow> u32 \<Rightarrow> u32 \<Rightarrow> ('k, 's) world \<Rightarrow> ('k, 's) world" where
  "binder_link_to_death K bs target death w =
     snd (with_frame 12 (\<lambda>d w.
       binder_write K bs d 12
         (store_words [(d, BC_REQUEST_DEATH_NOTIFICATION), (d + 4, target), (d + 8, death)] w)) w)"

definition binder_done ::
    "'k kernel \<Rightarrow> binder_state \<Rightarrow> binder_io \<Rightarrow> ('k, 's) world \<Rightarrow> binder_io \<times> ('k, 's) world" where
  "binder_done K bs reply w =
     (if b_flags reply AND BIO_F_SHARED \<noteq> 0
      then (reply\<lparr>b_flags := 0\<rparr>,
            snd (with_frame 8 (\<lambda>d w.
              binder_write K bs d 8 (store_words [(d, BC_FREE_BUFFER), (d + 4, b_data0 reply)] w)) w))
      else (reply, w))"

section \<open>Parsing what the driver returned\<close>

text \<open>
  A handler gets the connection, the address of the transaction, the message and the reply
  parcel, and returns its status and the reply, or does not return (\<open>None\<close>). The two
  structures it is given are locals of \<open>binder_parse\<close>. \<open>death\<close> stands for dereferencing the cookie of a death notification as
  a \<open>struct binder_death\<close> and calling \<open>death->func(bs, death->ptr)\<close>: the structures
  live in the program's own heap.
\<close>

type_synonym ('k, 's) binder_handler =
  "binder_state \<Rightarrow> u32 \<Rightarrow> binder_io \<Rightarrow> binder_io \<Rightarrow> ('k, 's) world \<Rightarrow>
   (int \<times> binder_io \<times> ('k, 's) world) option"

type_synonym ('k, 's) death_call = "binder_state \<Rightarrow> u32 \<Rightarrow> ('k, 's) world \<Rightarrow> ('k, 's) world"

text \<open>
  The local variables of the loop: the cursor, the result so far, whether the local pointer
  \<open>bio\<close> is still set, and the structure it points to.
\<close>

record ('k, 's) parse_state =
  ps_ptr :: u32
  ps_r :: int
  ps_bio_set :: bool
  ps_bio :: binder_io
  ps_w :: "('k, 's) world"

definition handle_transaction ::
    "'k kernel \<Rightarrow> ('k, 's) binder_handler option \<Rightarrow> binder_state \<Rightarrow> u32 \<Rightarrow> ('k, 's) world \<Rightarrow>
     ('k, 's) world option" where
  "handle_transaction K func bs txn w =
     (case func of None \<Rightarrow> Some w
      | Some f \<Rightarrow>
        let rdata = w_sp w - 256;
            reply = bio_init zero_bio rdata 256 4;
            msg = bio_init_from_txn (w_mem w) txn zero_bio
        in map_option (\<lambda>(res, reply, w').
             (binder_send_reply K bs reply (t_buffer (load_txn (w_mem w') txn)) res w')\<lparr>w_sp := w_sp w\<rparr>)
             (f bs txn msg reply (w\<lparr>w_sp := rdata\<rparr>)))"

text \<open>
  The locals of the \<open>BR_SPAWN_LOOPER\<close> branch are the \<open>pthread_t\<close> at \<open>d\<close> and the
  descriptor at \<open>d + 4\<close>, whose field \<open>bs\<close> is stored; the field \<open>func\<close> is a code
  address, which memory does not represent. The new thread gets the address of the
  descriptor, a local that is gone when the branch ends.
\<close>

definition spawn_looper :: "'k kernel \<Rightarrow> binder_state \<Rightarrow> ('k, 's) world \<Rightarrow> ('k, 's) world" where
  "spawn_looper K bs w =
     snd (with_frame 12 (\<lambda>d w.
       let w = store_words [(d + 4, bs_ptr bs)] w
       in ((), w\<lparr>w_k := k_pthread_create K (d + 4) (w_mem w) (w_k w)\<rparr>)) w)"

text \<open>
  One iteration: \<open>Inl\<close> is a \<open>return\<close> out of the loop, \<open>Inr\<close> the next state, and
  \<open>None\<close> a handler that does not return.
\<close>

definition parse_cmd ::
    "'k kernel \<Rightarrow> ('k, 's) binder_handler option \<Rightarrow> ('k, 's) death_call \<Rightarrow> binder_state \<Rightarrow> u32 \<Rightarrow>
     ('k, 's) parse_state \<Rightarrow> ((int \<times> binder_io \<times> ('k, 's) world) + ('k, 's) parse_state) option" where
  "parse_cmd K func death bs fin s =
     (let cmd = load32 (w_mem (ps_w s)) (ps_ptr s);
          ptr = ps_ptr s + 4;
          s = s\<lparr>ps_ptr := ptr\<rparr> in
      if cmd = BR_NOOP \<or> cmd = BR_TRANSACTION_COMPLETE then Some (Inr s)
      else if cmd = BR_INCREFS \<or> cmd = BR_ACQUIRE \<or> cmd = BR_RELEASE \<or> cmd = BR_DECREFS
        then Some (Inr (s\<lparr>ps_ptr := ptr + sizeof_ptr_cookie\<rparr>))
      else if cmd = BR_SPAWN_LOOPER
        then Some (Inr (s\<lparr>ps_w := spawn_looper K bs (ps_w s)\<rparr>))
      else if cmd = BR_TRANSACTION then
        (if fin - ptr < sizeof_txn then Some (Inl (-1, ps_bio s, ps_w s))
         else map_option (\<lambda>w. Inr (s\<lparr>ps_w := w, ps_ptr := ptr + sizeof_txn\<rparr>))
                (handle_transaction K func bs ptr (ps_w s)))
      else if cmd = BR_REPLY then
        (if fin - ptr < sizeof_txn then Some (Inl (-1, ps_bio s, ps_w s))
         else Some (Inr ((if ps_bio_set s
                    then s\<lparr>ps_bio := bio_init_from_txn (w_mem (ps_w s)) ptr (ps_bio s), ps_bio_set := False\<rparr>
                    else s)\<lparr>ps_ptr := ptr + sizeof_txn, ps_r := 0\<rparr>)))
      else if cmd = BR_DEAD_BINDER
        then Some (Inr (s\<lparr>ps_ptr := ptr + sizeof_uintptr,
                    ps_w := death bs (load32 (w_mem (ps_w s)) ptr) (ps_w s)\<rparr>))
      else if cmd = BR_FAILED_REPLY then Some (Inr (s\<lparr>ps_r := -1\<rparr>))
      else if cmd = BR_DEAD_REPLY then Some (Inr (s\<lparr>ps_r := -1\<rparr>))
      else Some (Inl (-1, ps_bio s, ps_w s)))"

partial_function (option) parse_loop ::
    "'k kernel \<Rightarrow> ('k, 's) binder_handler option \<Rightarrow> ('k, 's) death_call \<Rightarrow> binder_state \<Rightarrow> u32 \<Rightarrow>
     ('k, 's) parse_state \<Rightarrow> (int \<times> binder_io \<times> ('k, 's) world) option" where
  "parse_loop K func death bs fin s =
     (if ps_ptr s < fin
      then Option.bind (parse_cmd K func death bs fin s)
             (\<lambda>x. case x of Inl res \<Rightarrow> Some res
                        | Inr s' \<Rightarrow> parse_loop K func death bs fin s')
      else Some (ps_r s, ps_bio s, ps_w s))"

text \<open>
  \<open>bio\<close> is \<open>None\<close> for a NULL pointer. The result carries the structure \<open>bio\<close> points to;
  it is \<open>zero_bio\<close> when there is none.
\<close>

definition binder_parse ::
    "'k kernel \<Rightarrow> ('k, 's) binder_handler option \<Rightarrow> ('k, 's) death_call \<Rightarrow> binder_state \<Rightarrow> binder_io option \<Rightarrow>
     u32 \<Rightarrow> u32 \<Rightarrow> ('k, 's) world \<Rightarrow> (int \<times> binder_io \<times> ('k, 's) world) option" where
  "binder_parse K func death bs bio ptr sz w =
     parse_loop K func death bs (ptr + sz)
       \<lparr>ps_ptr = ptr, ps_r = 1, ps_bio_set = (bio \<noteq> None),
        ps_bio = (case bio of None \<Rightarrow> zero_bio | Some b \<Rightarrow> b), ps_w = w\<rparr>"

section \<open>Calling and serving\<close>

definition call_failed :: "binder_io" where
  "call_failed = zero_bio\<lparr>b_flags := 0 OR BIO_F_IOERROR\<rparr>"

partial_function (option) call_loop ::
    "'k kernel \<Rightarrow> ('k, 's) death_call \<Rightarrow> binder_state \<Rightarrow> u32 \<Rightarrow> binder_write_read \<Rightarrow> binder_io \<Rightarrow> ('k, 's) world \<Rightarrow>
     (int \<times> binder_io \<times> ('k, 's) world) option" where
  "call_loop K death bs readbuf bwr reply w =
     (let (res, bwr, w) = ioctl_bwr K bs
        (bwr\<lparr>read_size := 128, read_consumed := 0, read_buffer := readbuf\<rparr>) w in
      if res < 0 then Some (-1, call_failed, w)
      else Option.bind (binder_parse K None death bs (Some reply) readbuf (read_consumed bwr) w)
        (\<lambda>(res, reply, w).
           if res = 0 then Some (0, reply, w)
           else if res < 0 then Some (-1, call_failed, w)
           else call_loop K death bs readbuf bwr reply w))"

definition binder_call ::
    "'k kernel \<Rightarrow> ('k, 's) death_call \<Rightarrow> binder_state \<Rightarrow> binder_io \<Rightarrow> binder_io \<Rightarrow> u32 \<Rightarrow> u32 \<Rightarrow>
     ('k, 's) world \<Rightarrow> (int \<times> binder_io \<times> ('k, 's) world) option" where
  "binder_call K death bs msg reply target code w =
     (if b_flags msg AND BIO_F_OVERFLOW \<noteq> 0 then Some (-1, call_failed, w)
      else
        let readbuf = w_sp w - 172; d = readbuf + 128;
            w1 = store_words [(d, BC_TRANSACTION), (d + 4, target), (d + 12, code), (d + 16, 0),
                   (d + 28, b_data msg - b_data0 msg), (d + 32, b_offs msg - b_offs0 msg),
                   (d + 36, b_data0 msg), (d + 40, b_offs0 msg)] (w\<lparr>w_sp := readbuf\<rparr>)
        in map_option (\<lambda>(res, reply, w'). (res, reply, w'\<lparr>w_sp := w_sp w\<rparr>))
             (call_loop K death bs readbuf
               \<lparr>write_size = 44, write_consumed = 0, write_buffer = d,
                read_size = 0, read_consumed = 0, read_buffer = 0\<rparr> reply w1))"

text \<open>
  The body of the \<open>for\<close> loop of \<open>binder_loop\<close> and \<open>binder_thread_loop\<close>, which are the
  same but for the command they announce themselves with. \<open>None\<close> is a body that does not
  return, \<open>Some (False, _)\<close> a \<open>break\<close>.
\<close>

definition loop_body ::
    "'k kernel \<Rightarrow> ('k, 's) binder_handler option \<Rightarrow> ('k, 's) death_call \<Rightarrow> binder_state \<Rightarrow> u32 \<Rightarrow>
     binder_write_read \<times> ('k, 's) world \<Rightarrow> (bool \<times> binder_write_read \<times> ('k, 's) world) option" where
  "loop_body K func death bs readbuf = (\<lambda>(bwr, w).
     let (res, bwr, w) = ioctl_bwr K bs
       (bwr\<lparr>read_size := 128, read_consumed := 0, read_buffer := readbuf\<rparr>) w in
     if res < 0 then Some (False, bwr, w)
     else map_option (\<lambda>(res, bio, w). (0 < res, bwr, w))
       (binder_parse K func death bs None readbuf (read_consumed bwr) w))"

partial_function (option) serve_loop ::
    "'k kernel \<Rightarrow> ('k, 's) binder_handler option \<Rightarrow> ('k, 's) death_call \<Rightarrow> binder_state \<Rightarrow> u32 \<Rightarrow>
     binder_write_read \<times> ('k, 's) world \<Rightarrow> ('k, 's) world option" where
  "serve_loop K func death bs readbuf s =
     Option.bind (loop_body K func death bs readbuf s)
       (\<lambda>(go, s'). if go then serve_loop K func death bs readbuf s' else Some (snd s'))"

definition loop_enter ::
    "'k kernel \<Rightarrow> u32 \<Rightarrow> binder_state \<Rightarrow> ('k, 's) world \<Rightarrow> u32 \<times> binder_write_read \<times> ('k, 's) world" where
  "loop_enter K cmd bs w =
     (let readbuf = w_sp w - 128;
          (res, w) = binder_write K bs readbuf 4 (store_words [(readbuf, cmd)] (w\<lparr>w_sp := readbuf\<rparr>))
      in (readbuf, \<lparr>write_size = 0, write_consumed = 0, write_buffer = 0,
                    read_size = 0, read_consumed = 0, read_buffer = 0\<rparr>, w))"

definition binder_loop ::
    "'k kernel \<Rightarrow> ('k, 's) binder_handler option \<Rightarrow> ('k, 's) death_call \<Rightarrow> binder_state \<Rightarrow>
     ('k, 's) world \<Rightarrow> ('k, 's) world option" where
  "binder_loop K func death bs w =
     (let (readbuf, s) = loop_enter K BC_ENTER_LOOPER bs w in
      map_option (\<lambda>w'. w'\<lparr>w_sp := w_sp w\<rparr>) (serve_loop K func death bs readbuf s))"

definition binder_thread_loop ::
    "'k kernel \<Rightarrow> ('k, 's) binder_handler option \<Rightarrow> ('k, 's) death_call \<Rightarrow> binder_state \<Rightarrow>
     ('k, 's) world \<Rightarrow> ('k, 's) world option" where
  "binder_thread_loop K func death bs w =
     (let (readbuf, s) = loop_enter K BC_REGISTER_LOOPER bs w in
      map_option (\<lambda>w'. w'\<lparr>w_sp := w_sp w\<rparr>) (serve_loop K func death bs readbuf s))"

text \<open>
  The routine of a thread started by \<open>BR_SPAWN_LOOPER\<close>. It is given the address of the descriptor and
  reads it when it runs: what it does is defined (not \<open>None\<close>) only while the descriptor still holds the
  pointer to the state. Its handler is the one of the thread that started it.
\<close>

definition binder_thread_routine ::
    "'k kernel \<Rightarrow> ('k, 's) binder_handler option \<Rightarrow> ('k, 's) death_call \<Rightarrow> binder_state \<Rightarrow> u32 \<Rightarrow>
     ('k, 's) world \<Rightarrow> ('k, 's) world option" where
  "binder_thread_routine K func death bs btd w =
     (if load32 (w_mem w) btd = bs_ptr bs then binder_thread_loop K func death bs w else None)"

lemma thread_in_time:
  "binder_thread_routine K func death bs btd (store_words [(btd, bs_ptr bs)] w) =
   binder_thread_loop K func death bs (store_words [(btd, bs_ptr bs)] w)"
  by (simp add: binder_thread_routine_def store_words_def)

end
