(* ===== verification/Binder_Parse.thy ===== *)
theory Binder_Parse
  imports Binder_Core
begin

text \<open>
  Properties of \<open>binder_parse\<close>: it returns on every buffer that does not end at the top of
  the address space, a rule that carries an invariant through its loop, and the refinement
  from bytes to the command stream they encode.
\<close>

section \<open>Termination\<close>

lemma parse_cmd_ptr:
  "parse_cmd K func death bs fin s = Some (Inr s') \<Longrightarrow>
   \<exists>d\<in>{4, 8, 12, 44}. ps_ptr s' = ps_ptr s + of_nat d"
  by (auto simp: parse_cmd_def Let_def layout_defs split: if_splits)

text \<open>The loop ends when every iteration does, on the states an invariant describes.\<close>

lemma parse_loop_returns:
  assumes "unat fin + 44 \<le> 4294967296" and "I s"
    and step: "\<And>s s'. I s \<Longrightarrow> parse_cmd K func death bs fin s = Some (Inr s') \<Longrightarrow> I s'"
    and run: "\<And>s. I s \<Longrightarrow> \<exists>x. parse_cmd K func death bs fin s = Some x"
  shows "\<exists>res. parse_loop K func death bs fin s = Some res"
  using assms(2)
proof (induction "unat fin - unat (ps_ptr s)" arbitrary: s rule: less_induct)
  case less
  obtain x where x: "parse_cmd K func death bs fin s = Some x" using run less.prems by blast
  show ?case
  proof (cases "ps_ptr s < fin \<and> (\<exists>s'. x = Inr s')")
    case False
    then show ?thesis using x by (subst parse_loop.simps) (auto split: sum.splits)
  next
    case True
    then obtain s' where lt: "ps_ptr s < fin" and s': "parse_cmd K func death bs fin s = Some (Inr s')"
      using x by blast
    obtain d where mem: "d \<in> {4, 8, 12, 44}" and ptr: "ps_ptr s' = ps_ptr s + of_nat d"
      using parse_cmd_ptr [OF s'] by blast
    have d: "0 < d" "d \<le> 44" "ps_ptr s' = ps_ptr s + of_nat d"
      using mem ptr by auto
    have "unat (ps_ptr s') = unat (ps_ptr s) + d"
      using d lt assms(1) by (simp add: unat_add_u32 word_less_nat_alt)
    then have "unat fin - unat (ps_ptr s') < unat fin - unat (ps_ptr s)"
      using d(1) lt by (simp add: word_less_nat_alt)
    from less.hyps [OF this step [OF less.prems s']] lt s' show ?thesis
      by (subst parse_loop.simps) simp
  qed
qed

section \<open>An invariant rule\<close>

lemma parse_loop_invariant:
  assumes ret: "parse_loop K func death bs fin s = Some res" and "I s"
    and step: "\<And>s s'. I s \<Longrightarrow> parse_cmd K func death bs fin s = Some (Inr s') \<Longrightarrow> I s'"
    and early: "\<And>s res. I s \<Longrightarrow> parse_cmd K func death bs fin s = Some (Inl res) \<Longrightarrow> Q res"
    and final: "\<And>s. I s \<Longrightarrow> Q (ps_r s, ps_bio s, ps_w s)"
  shows "Q res"
  using assms
proof (induction K func death bs fin s res rule: parse_loop.raw_induct [rotated, consumes 1, case_names 1])
  case (1 rec K func death bs fin s res)
  show ?case
  proof (cases "ps_ptr s < fin")
    case True
    then obtain x where x: "parse_cmd K func death bs fin s = Some x"
      and hyp: "(case x of Inl res \<Rightarrow> Some res | Inr s' \<Rightarrow> rec K func death bs fin s') = Some res"
      using "1.hyps" by (auto simp: bind_eq_Some_conv)
    show ?thesis
    proof (cases x)
      case (Inl res')
      then show ?thesis using x hyp "1.prems" by simp
    next
      case (Inr s')
      then have "rec K func death bs fin s' = Some res" using hyp by simp
      moreover have "I s'" using "1.prems" Inr x by blast
      ultimately show ?thesis using "1.IH" "1.prems" by blast
    qed
  next
    case False
    then have "res = (ps_r s, ps_bio s, ps_w s)" using "1.hyps" by simp
    then show ?thesis using "1.prems" by blast
  qed
qed

definition parse_result :: "int \<Rightarrow> bool" where
  "parse_result r \<longleftrightarrow> r \<in> {-1, 0, 1}"

lemma parse_cmd_result:
  assumes "parse_cmd K func death bs fin s = Some (Inr s')" "parse_result (ps_r s)"
  shows "parse_result (ps_r s')"
  using assms by (auto simp: parse_cmd_def Let_def parse_result_def split: if_splits)

lemma parse_cmd_returns:
  assumes "\<forall>f. func = Some f \<longrightarrow> (\<forall>txn msg reply w. \<exists>x. f bs txn msg reply w = Some x)"
  shows "\<exists>x. parse_cmd K func death bs fin s = Some x"
proof -
  have "\<exists>w'. handle_transaction K func bs txn w = Some w'" for txn w
    using assms by (cases func) (fastforce simp: handle_transaction_def Let_def)+
  then show ?thesis by (auto simp: parse_cmd_def Let_def)
qed

lemma parse_cmd_early:
  "parse_cmd K func death bs fin s = Some (Inl res) \<Longrightarrow> fst res = -1"
  by (auto simp: parse_cmd_def Let_def split: if_splits)


text \<open>A system that does nothing, for the witnesses: every call succeeds and memory stays.\<close>

definition null_kernel :: "nat kernel" where
  "null_kernel = \<lparr>k_malloc = (\<lambda>sz n. if n < 100 then (of_nat (0x10000 + 0x200 * n), n + 1) else (0, n)), k_free = (\<lambda>_ n. n),
     k_open = (\<lambda>_ n. (3, n)), k_close = (\<lambda>_ n. n), k_mmap = (\<lambda>_ _ n. (0x40000000, n)),
     k_munmap = (\<lambda>_ _ n. n), k_version = (\<lambda>_ n. (0, 7, n)), k_set_context_mgr = (\<lambda>_ n. (0, n)),
     k_set_max_threads = (\<lambda>_ _ n. (0, n)), k_write_read = (\<lambda>_ bwr m n. (0, bwr\<lparr>read_consumed := 0\<rparr>, m, n)),
     k_pthread_create = (\<lambda>_ _ n. n)\<rparr>"

definition null_bs :: binder_state where
  "null_bs = \<lparr>bs_ptr = 0x9000, bs_fd = 3, bs_mapped = 0x40000000, bs_mapsize = 0x20000\<rparr>"

definition null_world :: "(nat, unit) world" where
  "null_world = \<lparr>w_mem = (\<lambda>_. 0), w_sp = 0x7fff0000, w_k = 0, w_app = ()\<rparr>"


end
