(* ===== verification/Binder_Frame.thy ===== *)
theory Binder_Frame
  imports Binder_Parse
begin

text \<open>
  What the library leaves alone. \<open>driver_ok\<close> is what is relied on of the driver: an
  ioctl writes only the buffer it is given to read into and the area the process has mapped.
  \<open>kept\<close> says that a call leaves the stack pointer and the memory of its callers as they
  were; every function that sends commands to the driver has this property.
\<close>

section \<open>Definitions\<close>

definition in_map :: "binder_state \<Rightarrow> u32 \<Rightarrow> bool" where
  "in_map bs x \<longleftrightarrow> unat (x - bs_mapped bs) < unat (bs_mapsize bs)"

definition driver_ok :: "'k kernel \<Rightarrow> binder_state \<Rightarrow> bool" where
  "driver_ok K bs \<longleftrightarrow>
     (\<forall>bwr m k res bwr' m' k'. k_write_read K (bs_fd bs) bwr m k = (res, bwr', m', k') \<longrightarrow>
        read_consumed bwr' \<le> read_size bwr \<and>
        (\<forall>x. \<not> in_map bs x \<longrightarrow> unat (read_size bwr) \<le> unat (x - read_buffer bwr) \<longrightarrow> m' x = m x))"

text \<open>\<open>R\<close> is where, beside its own frame and the mapping, the call may write.\<close>

definition kept :: "binder_state \<Rightarrow> (u32 \<Rightarrow> bool) \<Rightarrow> ('k, 's) world \<Rightarrow> ('k, 's) world \<Rightarrow> bool" where
  "kept bs R w w' \<longleftrightarrow> w_sp w' = w_sp w \<and>
     (\<forall>x. w_sp w \<le> x \<longrightarrow> \<not> in_map bs x \<longrightarrow> \<not> R x \<longrightarrow> w_mem w' x = w_mem w x)"

abbreviation (input) nowhere :: "u32 \<Rightarrow> bool" where
  "nowhere \<equiv> \<lambda>x. False"

abbreviation (input) run_of :: "u32 \<Rightarrow> nat \<Rightarrow> u32 \<Rightarrow> bool" where
  "run_of a n \<equiv> \<lambda>x. unat (x - a) < n"

section \<open>Rules\<close>

lemma kept_refl [simp]: "kept bs R w w"
  by (simp add: kept_def)

lemma kept_trans: "kept bs R w w' \<Longrightarrow> kept bs R w' w'' \<Longrightarrow> kept bs R w w''"
  by (simp add: kept_def)

lemma kept_weaken: "kept bs R w w' \<Longrightarrow> (\<And>x. R x \<Longrightarrow> S x) \<Longrightarrow> kept bs S w w'"
  by (auto simp: kept_def)

lemma kept_sp: "kept bs R w w' \<Longrightarrow> w_sp w' = w_sp w"
  by (simp add: kept_def)

lemma kept_same_mem: "w_mem w' = w_mem w \<Longrightarrow> w_sp w' = w_sp w \<Longrightarrow> kept bs R w w'"
  by (simp add: kept_def)

lemma kept_confined:
  assumes "confined a n (w_mem w) m'"
  shows "kept bs (run_of a n) w (w\<lparr>w_mem := m'\<rparr>)"
  using assms by (auto simp: kept_def confined_def not_less)

lemma kept_load:
  assumes "kept bs R w w'" and "\<And>i. i < n \<Longrightarrow> w_sp w \<le> a + of_nat i \<and> \<not> in_map bs (a + of_nat i) \<and> \<not> R (a + of_nat i)"
  shows "load_bytes (w_mem w') a n = load_bytes (w_mem w) a n"
  by (rule load_bytes_cong) (use assms in \<open>auto simp: kept_def\<close>)

lemma above_frame:
  assumes "n \<le> unat (sp :: u32)" and "sp \<le> x"
  shows "sp - of_nat n \<le> x" and "n \<le> unat (x - (sp - of_nat n))"
proof -
  have n: "n < 4294967296" using assms(1) unat_less_u32 [of sp] by linarith
  then have d: "unat (sp - of_nat n) = unat sp - n"
    using assms(1) by (simp add: unat_sub_u32)
  then show 1: "sp - of_nat n \<le> x"
    using assms(2) by (simp add: word_le_nat_alt)
  have "unat (x - (sp - of_nat n)) = unat x - (unat sp - n)"
    using 1 d by (simp add: unat_sub_u32 word_le_nat_alt)
  then show "n \<le> unat (x - (sp - of_nat n))"
    using assms by (simp add: word_le_nat_alt)
qed

lemma snd_with_frame:
  "snd (with_frame n body w) =
     (snd (body (w_sp w - n) (w\<lparr>w_sp := w_sp w - n\<rparr>)))\<lparr>w_sp := w_sp w\<rparr>"
  by (simp add: with_frame_def Let_def case_prod_beta)

lemma with_frame_kept:
  assumes "n \<le> unat (w_sp w)" and "sz = of_nat n"
    and "kept bs (run_of (w_sp w - sz) n) (w\<lparr>w_sp := w_sp w - sz\<rparr>)
           (snd (body (w_sp w - sz) (w\<lparr>w_sp := w_sp w - sz\<rparr>)))"
  shows "kept bs R w (snd (with_frame sz body w))"
proof -
  have "w_mem (snd (body (w_sp w - sz) (w\<lparr>w_sp := w_sp w - sz\<rparr>))) x = w_mem w x"
    if "w_sp w \<le> x" "\<not> in_map bs x" for x
    using above_frame [OF assms(1) that(1)] assms(2,3) that(2) by (simp add: kept_def)
  then show ?thesis by (simp add: kept_def snd_with_frame)
qed

lemma store32_kept_run:
  assumes "unat (p - a) + 4 \<le> n" and "n \<le> unat (x - a)"
  shows "store32 p v m x = m x"
proof -
  have "x - p = (x - a) - (p - a)" by simp
  then have "unat (x - p) = unat (x - a) - unat (p - a)"
    using assms by (metis unat_sub_u32 add_leD1 le_trans)
  then have "\<not> unat (x - p) < 4" using assms by linarith
  then show ?thesis by (simp add: store32_def store_bytes_def Let_def)
qed

lemma store_words_kept:
  "list_all (\<lambda>(p, v). unat (p - a) + 4 \<le> n) ws \<Longrightarrow> kept bs (run_of a n) w (store_words ws w)"
proof (induction ws arbitrary: w)
  case (Cons pv ws)
  obtain p v where pv: "pv = (p, v)" by fastforce
  have "kept bs (run_of a n) w (w\<lparr>w_mem := store32 p v (w_mem w)\<rparr>)"
    using Cons.prems store32_kept_run by (auto simp: kept_def pv)
  moreover have "store_words (pv # ws) w = store_words ws (w\<lparr>w_mem := store32 p v (w_mem w)\<rparr>)"
    by (simp add: store_words_def pv)
  ultimately show ?case using Cons by (auto intro: kept_trans)
qed (simp add: store_words_def)

lemma store_words_sel [simp]:
  "w_sp (store_words ws w) = w_sp w" "w_k (store_words ws w) = w_k w" "w_app (store_words ws w) = w_app w"
  by (simp_all add: store_words_def)

section \<open>The functions that send commands\<close>

lemma binder_write_kept:
  assumes "driver_ok K bs"
  shows "kept bs R w (snd (binder_write K bs dat len w))"
  using assms unfolding driver_ok_def
  by (fastforce simp: kept_def binder_write_def ioctl_bwr_def Let_def split: prod.splits)

lemma frame_write_kept:
  assumes "driver_ok K bs" and "n \<le> unat (w_sp w)" and "sz = of_nat n"
    and "\<And>d w. kept bs (run_of d n) w (f d w)"
  shows "kept bs R w (snd (with_frame sz (\<lambda>d w. binder_write K bs d len (f d w)) w))"
  by (rule with_frame_kept [OF assms(2,3)])
    (rule kept_trans [OF assms(4) binder_write_kept [OF assms(1)]])

lemma binder_acquire_kept:
  "driver_ok K bs \<Longrightarrow> 8 \<le> unat (w_sp w) \<Longrightarrow> kept bs R w (binder_acquire K bs target w)"
  unfolding binder_acquire_def
  by (rule frame_write_kept [where n = 8]) (simp_all add: store_words_kept)

lemma binder_release_kept:
  "driver_ok K bs \<Longrightarrow> 8 \<le> unat (w_sp w) \<Longrightarrow> kept bs R w (binder_release K bs target w)"
  unfolding binder_release_def
  by (rule frame_write_kept [where n = 8]) (simp_all add: store_words_kept)

lemma binder_link_to_death_kept:
  "driver_ok K bs \<Longrightarrow> 12 \<le> unat (w_sp w) \<Longrightarrow> kept bs R w (binder_link_to_death K bs target death w)"
  unfolding binder_link_to_death_def
  by (rule frame_write_kept [where n = 12]) (simp_all add: store_words_kept)

lemma binder_done_kept:
  "driver_ok K bs \<Longrightarrow> 8 \<le> unat (w_sp w) \<Longrightarrow> kept bs R w (snd (binder_done K bs reply w))"
  unfolding binder_done_def
  by (simp, rule impI, rule frame_write_kept [where n = 8]) (simp_all add: store_words_kept)

lemma binder_send_reply_kept:
  assumes "driver_ok K bs" and "56 \<le> unat (w_sp w)"
  shows "kept bs R w (binder_send_reply K bs reply buffer status w)"
  unfolding binder_send_reply_def Let_def
proof (rule frame_write_kept [where n = 56, OF assms], goal_cases)
  case (2 d w)
  show ?case
    by (rule kept_trans; rule store_words_kept) simp_all
qed simp

lemma spawn_looper_kept:
  assumes "12 \<le> unat (w_sp w)"
  shows "kept bs R w (spawn_looper K bs' w)"
proof -
  let ?a = "w_sp w - 12"
  let ?w = "store_words [(?a + 4, bs_ptr bs')] (w\<lparr>w_sp := ?a\<rparr>)"
  have "kept bs (run_of ?a 12) (w\<lparr>w_sp := ?a\<rparr>) ?w"
    by (rule store_words_kept) simp
  then have "kept bs (run_of ?a 12) (w\<lparr>w_sp := ?a\<rparr>)
      (?w\<lparr>w_k := k_pthread_create K (?a + 4) (w_mem ?w) (w_k ?w)\<rparr>)"
    by (simp add: kept_def)
  then show ?thesis
    unfolding spawn_looper_def by (intro with_frame_kept [where n = 12, OF assms]) (simp_all add: Let_def)
qed

end
