(* ===== verification/Binder_Service.thy ===== *)
theory Binder_Service
  imports Binder_Frame
begin

text \<open>
  The contract between the binder library and a program that serves calls through it, as a
  locale: the program's handler and its death callback keep the memory of their caller and
  an invariant of the program. What follows from it, once for every service: the invariant
  holds after every transaction, every parsed buffer and every iteration of the loop, the loop
  never gets stuck, and parsing a buffer is executing the commands it encodes.
\<close>

section \<open>The command stream\<close>

datatype br_cmd =
    Br_noop
  | Br_transaction_complete
  | Br_increfs u32 u32
  | Br_acquire u32 u32
  | Br_release u32 u32
  | Br_decrefs u32 u32
  | Br_spawn_looper
  | Br_transaction binder_transaction_data
  | Br_reply binder_transaction_data
  | Br_dead_binder u32
  | Br_failed_reply
  | Br_dead_reply

fun br_bytes :: "br_cmd \<Rightarrow> u8 list" where
  "br_bytes Br_noop = le32 BR_NOOP"
| "br_bytes Br_transaction_complete = le32 BR_TRANSACTION_COMPLETE"
| "br_bytes (Br_increfs p c) = le32 BR_INCREFS @ le32 p @ le32 c"
| "br_bytes (Br_acquire p c) = le32 BR_ACQUIRE @ le32 p @ le32 c"
| "br_bytes (Br_release p c) = le32 BR_RELEASE @ le32 p @ le32 c"
| "br_bytes (Br_decrefs p c) = le32 BR_DECREFS @ le32 p @ le32 c"
| "br_bytes Br_spawn_looper = le32 BR_SPAWN_LOOPER"
| "br_bytes (Br_transaction t) = le32 BR_TRANSACTION @ txn_bytes t"
| "br_bytes (Br_reply t) = le32 BR_REPLY @ txn_bytes t"
| "br_bytes (Br_dead_binder c) = le32 BR_DEAD_BINDER @ le32 c"
| "br_bytes Br_failed_reply = le32 BR_FAILED_REPLY"
| "br_bytes Br_dead_reply = le32 BR_DEAD_REPLY"

text \<open>What a command means, on decoded values.\<close>

definition bio_of_txn :: "binder_transaction_data \<Rightarrow> binder_io \<Rightarrow> binder_io" where
  "bio_of_txn t bio = bio\<lparr>b_data := t_buffer t, b_data0 := t_buffer t, b_offs := t_offsets t,
     b_offs0 := t_offsets t, b_data_avail := t_data_size t, b_offs_avail := t_offsets_size t div 4,
     b_flags := BIO_F_SHARED\<rparr>"

definition serve_txn ::
    "'k kernel \<Rightarrow> ('k, 's) binder_handler option \<Rightarrow> binder_state \<Rightarrow> u32 \<Rightarrow> binder_transaction_data \<Rightarrow>
     ('k, 's) world \<Rightarrow> ('k, 's) world option" where
  "serve_txn K func bs p t w =
     (case func of None \<Rightarrow> Some w
      | Some f \<Rightarrow> map_option (\<lambda>(res, reply, w').
             (binder_send_reply K bs reply (t_buffer t) res w')\<lparr>w_sp := w_sp w\<rparr>)
          (f bs p (bio_of_txn t zero_bio) (bio_init zero_bio (w_sp w - 256) 256 4) (w\<lparr>w_sp := w_sp w - 256\<rparr>)))"

definition br_effect ::
    "'k kernel \<Rightarrow> ('k, 's) binder_handler option \<Rightarrow> ('k, 's) death_call \<Rightarrow> binder_state \<Rightarrow>
     br_cmd \<Rightarrow> ('k, 's) parse_state \<Rightarrow> ('k, 's) parse_state option" where
  "br_effect K func death bs c s =
     (case c of
        Br_spawn_looper \<Rightarrow> Some (s\<lparr>ps_w := spawn_looper K bs (ps_w s)\<rparr>)
      | Br_transaction t \<Rightarrow>
          map_option (\<lambda>w. s\<lparr>ps_w := w\<rparr>) (serve_txn K func bs (ps_ptr s + 4) t (ps_w s))
      | Br_reply t \<Rightarrow>
          Some ((if ps_bio_set s then s\<lparr>ps_bio := bio_of_txn t (ps_bio s), ps_bio_set := False\<rparr> else s)
                  \<lparr>ps_r := 0\<rparr>)
      | Br_dead_binder cookie \<Rightarrow> Some (s\<lparr>ps_w := death bs cookie (ps_w s)\<rparr>)
      | Br_failed_reply \<Rightarrow> Some (s\<lparr>ps_r := -1\<rparr>)
      | Br_dead_reply \<Rightarrow> Some (s\<lparr>ps_r := -1\<rparr>)
      | _ \<Rightarrow> Some s)"

definition br_step ::
    "'k kernel \<Rightarrow> ('k, 's) binder_handler option \<Rightarrow> ('k, 's) death_call \<Rightarrow> binder_state \<Rightarrow>
     br_cmd \<Rightarrow> ('k, 's) parse_state \<Rightarrow> ('k, 's) parse_state option" where
  "br_step K func death bs c s =
     map_option (\<lambda>s'. s'\<lparr>ps_ptr := ps_ptr s + of_nat (length (br_bytes c))\<rparr>) (br_effect K func death bs c s)"

fun br_run ::
    "'k kernel \<Rightarrow> ('k, 's) binder_handler option \<Rightarrow> ('k, 's) death_call \<Rightarrow> binder_state \<Rightarrow>
     br_cmd list \<Rightarrow> ('k, 's) parse_state \<Rightarrow> ('k, 's) parse_state option" where
  "br_run K func death bs [] s = Some s"
| "br_run K func death bs (c # cs) s =
     Option.bind (br_step K func death bs c s) (br_run K func death bs cs)"

definition parse_start :: "binder_io option \<Rightarrow> u32 \<Rightarrow> ('k, 's) world \<Rightarrow> ('k, 's) parse_state" where
  "parse_start bio ptr w =
     \<lparr>ps_ptr = ptr, ps_r = 1, ps_bio_set = (bio \<noteq> None),
      ps_bio = (case bio of None \<Rightarrow> zero_bio | Some b \<Rightarrow> b), ps_w = w\<rparr>"

definition parse_end :: "('k, 's) parse_state \<Rightarrow> int \<times> binder_io \<times> ('k, 's) world" where
  "parse_end s = (ps_r s, ps_bio s, ps_w s)"

lemma load_txn_bytes:
  assumes "load_bytes m p n = txn_bytes t @ rest"
  shows "load_txn m p = t"
proof -
  note at = load32_at [where m = m and a = p and n = n]
  have "load32 m p = t_target t"
    using assms by (auto simp: txn_bytes_def intro: load32_prefix)
  moreover have "load32 m (p + 4) = t_cookie t"
    using assms by (intro at [where pre = "le32 (t_target t)"]) (auto simp: txn_bytes_def)
  moreover have "load32 m (p + 8) = t_code t"
    using assms by (intro at [where pre = "le32 (t_target t) @ le32 (t_cookie t)"]) (auto simp: txn_bytes_def)
  moreover have "load32 m (p + 12) = t_flags t"
    using assms by (intro at [where pre = "le32 (t_target t) @ le32 (t_cookie t) @ le32 (t_code t)"])
      (auto simp: txn_bytes_def)
  moreover have "load32 m (p + 16) = t_sender_pid t"
    using assms by (intro at [where pre = "le32 (t_target t) @ le32 (t_cookie t) @ le32 (t_code t) @
      le32 (t_flags t)"]) (auto simp: txn_bytes_def)
  moreover have "load32 m (p + 20) = t_sender_euid t"
    using assms by (intro at [where pre = "le32 (t_target t) @ le32 (t_cookie t) @ le32 (t_code t) @
      le32 (t_flags t) @ le32 (t_sender_pid t)"]) (auto simp: txn_bytes_def)
  moreover have "load32 m (p + 24) = t_data_size t"
    using assms by (intro at [where pre = "le32 (t_target t) @ le32 (t_cookie t) @ le32 (t_code t) @
      le32 (t_flags t) @ le32 (t_sender_pid t) @ le32 (t_sender_euid t)"]) (auto simp: txn_bytes_def)
  moreover have "load32 m (p + 28) = t_offsets_size t"
    using assms by (intro at [where pre = "le32 (t_target t) @ le32 (t_cookie t) @ le32 (t_code t) @
      le32 (t_flags t) @ le32 (t_sender_pid t) @ le32 (t_sender_euid t) @ le32 (t_data_size t)"])
      (auto simp: txn_bytes_def)
  moreover have "load32 m (p + 32) = t_buffer t"
    using assms by (intro at [where pre = "le32 (t_target t) @ le32 (t_cookie t) @ le32 (t_code t) @
      le32 (t_flags t) @ le32 (t_sender_pid t) @ le32 (t_sender_euid t) @ le32 (t_data_size t) @
      le32 (t_offsets_size t)"]) (auto simp: txn_bytes_def)
  moreover have "load32 m (p + 36) = t_offsets t"
    using assms by (intro at [where pre = "le32 (t_target t) @ le32 (t_cookie t) @ le32 (t_code t) @
      le32 (t_flags t) @ le32 (t_sender_pid t) @ le32 (t_sender_euid t) @ le32 (t_data_size t) @
      le32 (t_offsets_size t) @ le32 (t_buffer t)"]) (auto simp: txn_bytes_def)
  ultimately show ?thesis by (simp add: load_txn_def)
qed

lemma bio_init_from_txn_eq: "bio_init_from_txn m p b = bio_of_txn (load_txn m p) b"
  by (simp add: bio_init_from_txn_def bio_of_txn_def layout_defs)

lemma length_br_bytes: "length (br_bytes c) \<in> {4, 8, 12, 44}"
  by (cases c) simp_all

section \<open>The loop of a server\<close>

text \<open>The states the loop of \<open>binder_loop\<close> comes back to.\<close>

inductive serve_reach ::
    "'k kernel \<Rightarrow> ('k, 's) binder_handler option \<Rightarrow> ('k, 's) death_call \<Rightarrow> binder_state \<Rightarrow> u32 \<Rightarrow>
     binder_write_read \<times> ('k, 's) world \<Rightarrow> binder_write_read \<times> ('k, 's) world \<Rightarrow> bool"
  for K func death bs readbuf s where
  reach_start: "serve_reach K func death bs readbuf s s"
| reach_step: "serve_reach K func death bs readbuf s s' \<Longrightarrow>
    loop_body K func death bs readbuf s' = Some (True, s'') \<Longrightarrow>
    serve_reach K func death bs readbuf s s''"

inductive_cases serve_reachE: "serve_reach K func death bs readbuf s s'"

lemma serve_loop_result:
  assumes "serve_loop K func death bs readbuf s = Some w'"
  shows "\<exists>s1 s2. serve_reach K func death bs readbuf s s1 \<and>
     loop_body K func death bs readbuf s1 = Some (False, s2) \<and> w' = snd s2"
  using assms reach_start [of K func death bs readbuf s]
proof (induction K func death bs readbuf s w' rule: serve_loop.raw_induct [rotated, consumes 1, case_names 1])
  case (1 rec K func death bs readbuf s w')
  obtain go s' where body: "loop_body K func death bs readbuf s = Some (go, s')"
    and go: "(if go then rec K func death bs readbuf s' else Some (snd s')) = Some w'"
    using "1.hyps" by (auto simp: bind_eq_Some_conv)
  show ?case
  proof (cases go)
    case True
    then obtain s1 s2 where 1: "serve_reach K func death bs readbuf s' s1"
        "loop_body K func death bs readbuf s1 = Some (False, s2)" "w' = snd s2"
      using "1.IH" go reach_start by (metis (full_types))
    have "serve_reach K func death bs readbuf s s1"
      using 1(1) body True by (induction rule: serve_reach.induct) (auto intro: serve_reach.intros)
    then show ?thesis using 1 by blast
  next
    case False
    then have "loop_body K func death bs readbuf s = Some (False, s')" "w' = snd s'" using body go by simp_all
    then show ?thesis using reach_start by blast
  qed
qed

text \<open>A run of bytes of a caller: above the stack pointer, outside the mapping, not wrapping.\<close>

definition caller_run :: "binder_state \<Rightarrow> ('k, 's) world \<Rightarrow> u32 \<Rightarrow> nat \<Rightarrow> bool" where
  "caller_run bs w a n \<longleftrightarrow> unat a + n < 4294967296 \<and>
     (\<forall>i<n. w_sp w \<le> a + of_nat i \<and> \<not> in_map bs (a + of_nat i))"

lemma caller_run_sub:
  assumes "caller_run bs w a n" and "i + k \<le> n" and "w_sp w' = w_sp w"
  shows "caller_run bs w' (a + of_nat i) k"
proof -
  have "unat (a + of_nat i) = unat a + i"
    using assms(1,2) by (simp add: caller_run_def unat_add_u32)
  moreover have "w_sp w \<le> a + of_nat i + of_nat j \<and> \<not> in_map bs (a + of_nat i + of_nat j)" if "j < k" for j
    using assms(1,2) that unfolding caller_run_def
    by (metis (no_types, lifting) add.assoc add_less_cancel_left less_le_trans of_nat_add)
  ultimately show ?thesis
    using assms unfolding caller_run_def by (auto simp: add.assoc)
qed

lemma caller_run_kept:
  "kept bs nowhere w w' \<Longrightarrow> caller_run bs w a n \<Longrightarrow> load_bytes (w_mem w') a n = load_bytes (w_mem w) a n"
  by (erule kept_load) (auto simp: caller_run_def)

text \<open>
  The commands a server expects, and a driver that answers the next read of the loop with the
  commands \<open>cs\<close>.
\<close>

fun serves :: "br_cmd \<Rightarrow> bool" where
  "serves (Br_reply t) = False"
| "serves Br_failed_reply = False"
| "serves Br_dead_reply = False"
| "serves _ = True"

lemma br_step_r: "serves c \<Longrightarrow> br_step K func death bs c s = Some s' \<Longrightarrow> ps_r s' = ps_r s"
  by (cases c) (auto simp: br_step_def br_effect_def)

lemma br_run_r: "list_all serves cs \<Longrightarrow> br_run K func death bs cs s = Some s' \<Longrightarrow> ps_r s' = ps_r s"
  by (induction cs arbitrary: s) (auto simp: bind_eq_Some_conv br_step_r)

definition delivers ::
    "'k kernel \<Rightarrow> binder_state \<Rightarrow> u32 \<Rightarrow> binder_write_read \<times> ('k, 's) world \<Rightarrow> br_cmd list \<Rightarrow> bool" where
  "delivers K bs readbuf s cs \<longleftrightarrow>
     (let (res, bwr, w) = ioctl_bwr K bs
            ((fst s)\<lparr>read_size := 128, read_consumed := 0, read_buffer := readbuf\<rparr>) (snd s)
      in 0 \<le> res \<and> load_bytes (w_mem w) readbuf (unat (read_consumed bwr)) = concat (map br_bytes cs))"

section \<open>The contract\<close>

locale binder_service =
  fixes K :: "'k kernel" and bs :: binder_state
    and func :: "('k, 's) binder_handler option" and death :: "('k, 's) death_call"
    and Inv :: "'s \<Rightarrow> 'k \<Rightarrow> bool"
  assumes driver: "Inv app k \<Longrightarrow> driver_ok K bs"
    and ioctl_inv: "Inv app k \<Longrightarrow> k_write_read K (bs_fd bs) bwr m k = (res, bwr', m', k') \<Longrightarrow> Inv app k'"
    and spawn_inv: "Inv app k \<Longrightarrow> Inv app (k_pthread_create K p m k)"
    and func_ok: "func = Some f \<Longrightarrow> 64 \<le> unat (w_sp w) \<Longrightarrow> bio_inv rdata 256 4 reply \<Longrightarrow>
      Inv (w_app w) (w_k w) \<Longrightarrow>
      \<exists>res reply' w'. f bs txn msg reply w = Some (res, reply', w') \<and>
        kept bs (run_of rdata 256) w w' \<and> Inv (w_app w') (w_k w')"
    and death_ok: "64 \<le> unat (w_sp w) \<Longrightarrow> Inv (w_app w) (w_k w) \<Longrightarrow>
      kept bs nowhere w (death bs cookie w) \<and> Inv (w_app (death bs cookie w)) (w_k (death bs cookie w))"
begin

abbreviation (input) ok :: "('k, 's) world \<Rightarrow> ('k, 's) world \<Rightarrow> bool" where
  "ok w w' \<equiv> kept bs nowhere w w' \<and> Inv (w_app w') (w_k w')"

lemma binder_write_inv:
  "Inv (w_app w) (w_k w) \<Longrightarrow>
   Inv (w_app (snd (binder_write K bs dat len w))) (w_k (snd (binder_write K bs dat len w)))"
  by (auto simp: binder_write_def ioctl_bwr_def Let_def split: prod.splits intro: ioctl_inv)

lemma send_reply_inv:
  "Inv (w_app w) (w_k w) \<Longrightarrow>
   Inv (w_app (binder_send_reply K bs reply b st w)) (w_k (binder_send_reply K bs reply b st w))"
  unfolding binder_send_reply_def snd_with_frame Let_def by (simp add: binder_write_inv)

lemma reply_buffer:
  assumes "1024 \<le> unat sp"
  shows "bio_inv (sp - 256) 256 4 (bio_init zero_bio (sp - 256) 256 4)"
proof -
  have d: "unat (sp - 256) = unat sp - 256"
    using assms by (simp add: unat_sub_u32)
  have "sp - 256 \<noteq> 0"
    using assms d unfolding u32_zero_iff [symmetric] by linarith
  moreover have "unat (sp - 256) + 256 < 4294967296"
    using assms d unat_less_u32 [of sp] by linarith
  ultimately have "buffer_ok (sp - 256) 256 4"
    by (simp add: buffer_ok_def)
  from bio_init_ok(1) [OF this] show ?thesis by simp
qed

text \<open>A handler run on a fresh reply parcel below the stack pointer, and the reply sent.\<close>

lemma serve_ok:
  assumes sp: "1024 \<le> unat (w_sp w)" and "Inv (w_app w) (w_k w)" and f: "func = Some f"
  shows "\<exists>res reply w1. f bs p msg (bio_init zero_bio (w_sp w - 256) 256 4) (w\<lparr>w_sp := w_sp w - 256\<rparr>) =
       Some (res, reply, w1) \<and>
     kept bs (run_of (w_sp w - 256) 256) (w\<lparr>w_sp := w_sp w - 256\<rparr>) w1 \<and>
     (\<forall>b. ok w ((binder_send_reply K bs reply b res w1)\<lparr>w_sp := w_sp w\<rparr>))"
proof -
  have d: "unat (w_sp w - 256) = unat (w_sp w) - 256" using sp by (simp add: unat_sub_u32)
  then have sp1: "64 \<le> unat (w_sp (w\<lparr>w_sp := w_sp w - 256\<rparr>))" using sp by simp
  obtain res reply w1 where call: "f bs p msg (bio_init zero_bio (w_sp w - 256) 256 4) (w\<lparr>w_sp := w_sp w - 256\<rparr>) =
       Some (res, reply, w1)"
    and 1: "kept bs (run_of (w_sp w - 256) 256) (w\<lparr>w_sp := w_sp w - 256\<rparr>) w1" "Inv (w_app w1) (w_k w1)"
    using func_ok [OF f sp1 reply_buffer [OF sp]] assms(2) by fastforce
  have sp2: "56 \<le> unat (w_sp w1)" using 1 d sp by (simp add: kept_def)
  have "ok w ((binder_send_reply K bs reply b res w1)\<lparr>w_sp := w_sp w\<rparr>)" for b
  proof -
    have 2: "kept bs (run_of (w_sp w - 256) 256) (w\<lparr>w_sp := w_sp w - 256\<rparr>) (binder_send_reply K bs reply b res w1)"
      using 1 binder_send_reply_kept [OF driver [OF 1(2)] sp2] kept_trans by blast
    have "kept bs nowhere w (snd (with_frame 256 (\<lambda>_ _. ((), binder_send_reply K bs reply b res w1)) w))"
      by (rule with_frame_kept [where n = 256]) (use sp 2 in simp_all)
    then show ?thesis using send_reply_inv 1 by (simp add: snd_with_frame)
  qed
  then show ?thesis using call 1 by blast
qed

lemma handle_transaction_ok:
  assumes "1024 \<le> unat (w_sp w)" and "Inv (w_app w) (w_k w)"
  shows "\<exists>w'. handle_transaction K func bs txn w = Some w' \<and> ok w w'"
proof (cases func)
  case None
  then show ?thesis using assms by (simp add: handle_transaction_def)
next
  case (Some f)
  then show ?thesis
    using serve_ok [OF assms Some, of txn "bio_init_from_txn (w_mem w) txn zero_bio"]
    by (auto simp: handle_transaction_def Let_def)
qed

lemma parse_cmd_ok:
  assumes "1024 \<le> unat (w_sp (ps_w s))" and "Inv (w_app (ps_w s)) (w_k (ps_w s))"
  shows "parse_cmd K func death bs fin s = Some (Inr s') \<Longrightarrow> ok (ps_w s) (ps_w s')"
    and "parse_cmd K func death bs fin s = Some (Inl res) \<Longrightarrow> snd (snd res) = ps_w s"
    and "\<exists>x. parse_cmd K func death bs fin s = Some x"
proof -
  have sp: "ok (ps_w s) (spawn_looper K bs (ps_w s))"
    using assms spawn_looper_kept [of "ps_w s" bs nowhere K bs]
    by (simp add: spawn_looper_def snd_with_frame Let_def spawn_inv)
  have de: "ok (ps_w s) (death bs c (ps_w s))" for c
    using assms by (intro death_ok) auto
  have ha: "ok (ps_w s) w'" if "handle_transaction K func bs p (ps_w s) = Some w'" for p w'
    using handle_transaction_ok [OF assms, of p] that by simp
  show "parse_cmd K func death bs fin s = Some (Inr s') \<Longrightarrow> ok (ps_w s) (ps_w s')"
    unfolding parse_cmd_def Let_def using assms sp de by (auto split: if_splits dest!: ha)
  show "parse_cmd K func death bs fin s = Some (Inl res) \<Longrightarrow> snd (snd res) = ps_w s"
    unfolding parse_cmd_def Let_def by (auto split: if_splits)
  show "\<exists>x. parse_cmd K func death bs fin s = Some x"
    unfolding parse_cmd_def Let_def using handle_transaction_ok [OF assms] by fastforce
qed

lemma parse_ok:
  assumes "binder_parse K func death bs bio ptr sz w = Some (r, bio', w')"
    and sp: "1024 \<le> unat (w_sp w)" and inv: "Inv (w_app w) (w_k w)"
  shows "ok w w'"
proof -
  have "ok w (snd (snd (r, bio', w')))"
  proof (rule parse_loop_invariant [OF assms(1) [unfolded binder_parse_def], where I = "\<lambda>s. ok w (ps_w s)"], goal_cases)
    case 1
    then show ?case using inv by simp
  next
    case (2 s s')
    then show ?case using parse_cmd_ok(1) [OF _ _ 2(2)] sp kept_sp kept_trans by metis
  next
    case (3 s res)
    then show ?case using parse_cmd_ok(2) [OF _ _ 3(2)] sp kept_sp by metis
  qed simp
  then show ?thesis by simp
qed

text \<open>Parsing the bytes of a command is executing the command.\<close>

lemma handle_transaction_serve:
  assumes sp: "1024 \<le> unat (w_sp w)" and inv: "Inv (w_app w) (w_k w)"
    and run: "caller_run bs w txn 40" and bytes: "load_bytes (w_mem w) txn 40 = txn_bytes t"
  shows "handle_transaction K func bs txn w = serve_txn K func bs txn t w"
proof (cases func)
  case None
  then show ?thesis by (simp add: handle_transaction_def serve_txn_def)
next
  case (Some f)
  let ?w = "w\<lparr>w_sp := w_sp w - 256\<rparr>"
  have t: "load_txn (w_mem w) txn = t"
    using load_txn_bytes [where rest = "[]"] bytes by simp
  obtain res reply w1 where call: "f bs txn (bio_of_txn t zero_bio)
      (bio_init zero_bio (w_sp w - 256) 256 4) ?w = Some (res, reply, w1)"
    and k: "kept bs (run_of (w_sp w - 256) 256) ?w w1"
    using serve_ok [OF sp inv Some] by blast
  have "load_bytes (w_mem w1) txn 40 = load_bytes (w_mem ?w) txn 40"
  proof (rule kept_load [OF k])
    fix i :: nat assume "i < 40"
    then have i: "w_sp w \<le> txn + of_nat i" "\<not> in_map bs (txn + of_nat i)"
      using run by (auto simp: caller_run_def)
    show "w_sp ?w \<le> txn + of_nat i \<and> \<not> in_map bs (txn + of_nat i) \<and>
        \<not> unat (txn + of_nat i - (w_sp w - 256)) < 256"
      using above_frame [of 256, OF _ i(1)] i(2) sp by simp
  qed
  then have "load_txn (w_mem w1) txn = t"
    using load_txn_bytes [where rest = "[]"] bytes by simp
  then show ?thesis
    using call by (simp add: handle_transaction_def serve_txn_def Some Let_def
        bio_init_from_txn_eq t)
qed

lemma parse_cmd_step:
  assumes sp: "1024 \<le> unat (w_sp (ps_w s))" and inv: "Inv (w_app (ps_w s)) (w_k (ps_w s))"
    and run: "caller_run bs (ps_w s) (ps_ptr s) n" and fin: "fin = ps_ptr s + of_nat n"
    and bytes: "load_bytes (w_mem (ps_w s)) (ps_ptr s) n = br_bytes c @ rest"
  shows "parse_cmd K func death bs fin s = map_option Inr (br_step K func death bs c s)"
proof -
  have n: "n = length (br_bytes c) + length rest"
    using arg_cong [OF bytes, of length] by simp
  have cmd0: "load32 (w_mem (ps_w s)) (ps_ptr s) = from_le32 (take 4 (br_bytes c))"
    using take_load_bytes [of 4 n "w_mem (ps_w s)" "ps_ptr s"] bytes n length_br_bytes [of c]
    by (auto simp: load32_def)
  have cmd: "load32 (w_mem (ps_w s)) (ps_ptr s) = w" if "br_bytes c = le32 w @ pl" for w pl
    by (rule load32_prefix) (use bytes that in simp)
  have pl: "load_bytes (w_mem (ps_w s)) (ps_ptr s + 4) (n - 4) = pl @ rest" if "br_bytes c = le32 w @ pl" for w pl
    using drop_load_bytes [of 4 n "w_mem (ps_w s)" "ps_ptr s"] bytes that n by simp
  have room: "\<not> fin - (ps_ptr s + 4) < 40" if "length (br_bytes c) = 44"
  proof -
    have "fin - (ps_ptr s + 4) = of_nat (n - 4)" using that n fin by simp
    moreover have "n < 4294967296" using run by (simp add: caller_run_def)
    ultimately have "unat (fin - (ps_ptr s + 4)) = n - 4" by (simp only: unat_of_nat_u32)
    then show ?thesis using that n by (simp add: word_less_nat_alt)
  qed
  have txn: "load_bytes (w_mem (ps_w s)) (ps_ptr s + 4) 40 = txn_bytes t" if "br_bytes c = le32 w @ txn_bytes t" for w t
    using pl [OF that] take_load_bytes [of 40 "n - 4" "w_mem (ps_w s)" "ps_ptr s + 4"] n that by simp
  have sub: "caller_run bs (ps_w s) (ps_ptr s + 4) 40" if "length (br_bytes c) = 44"
    using caller_run_sub [OF run, of 4 40 "ps_w s"] n that by simp
  show ?thesis
  proof (cases c)
    case (Br_transaction t)
    then show ?thesis
      using cmd [of BR_TRANSACTION "txn_bytes t"] room sub
        handle_transaction_serve [OF sp inv _ txn [of BR_TRANSACTION t]]
      by (simp add: parse_cmd_def br_step_def br_effect_def option.map_comp comp_def Let_def proto_defs layout_defs)
        (simp only: add.commute)
  next
    case (Br_reply t)
    then show ?thesis
      using cmd [of BR_REPLY "txn_bytes t"] room load_txn_bytes [OF pl [of BR_REPLY "txn_bytes t"]]
      by (simp add: parse_cmd_def br_step_def br_effect_def option.map_comp comp_def Let_def proto_defs layout_defs bio_init_from_txn_eq)
  next
    case (Br_dead_binder d)
    then show ?thesis
      using cmd [of BR_DEAD_BINDER "le32 d"] load32_prefix [OF pl [of BR_DEAD_BINDER "le32 d"]]
      by (simp add: parse_cmd_def br_step_def br_effect_def option.map_comp comp_def Let_def proto_defs layout_defs)
  qed (simp_all add: cmd0 parse_cmd_def br_step_def br_effect_def option.map_comp comp_def Let_def proto_defs layout_defs)
qed

lemma br_step_ptr: "br_step K func death bs c s = Some s' \<Longrightarrow> ps_ptr s' = ps_ptr s + of_nat (length (br_bytes c))"
  by (auto simp: br_step_def)

lemma parse_loop_stream:
  assumes "1024 \<le> unat (w_sp (ps_w s))" and "Inv (w_app (ps_w s)) (w_k (ps_w s))"
    and "caller_run bs (ps_w s) (ps_ptr s) n" and "fin = ps_ptr s + of_nat n"
    and "load_bytes (w_mem (ps_w s)) (ps_ptr s) n = concat (map br_bytes cs)"
  shows "\<exists>s'. br_run K func death bs cs s = Some s' \<and> parse_loop K func death bs fin s = Some (parse_end s')"
  using assms
proof (induction cs arbitrary: s n)
  case Nil
  have "n = 0" using arg_cong [OF Nil.prems(5), of length] by simp
  then show ?case using Nil by (subst parse_loop.simps) (simp add: parse_end_def)
next
  case (Cons c cs)
  let ?l = "length (br_bytes c)"
  have l: "0 < ?l" using length_br_bytes [of c] by auto
  have n: "n = ?l + length (concat (map br_bytes cs))"
    using arg_cong [OF Cons.prems(5), of length] by simp
  have lt: "ps_ptr s < fin"
    using Cons.prems(3,4) l n by (simp add: word_less_nat_alt unat_add_u32 caller_run_def)
  have "parse_cmd K func death bs fin s = map_option Inr (br_step K func death bs c s)"
    using parse_cmd_step [OF Cons.prems(1-4)] Cons.prems(5) by simp
  then obtain s1 where s1: "br_step K func death bs c s = Some s1"
      and step: "parse_cmd K func death bs fin s = Some (Inr s1)"
    using parse_cmd_ok(3) [OF Cons.prems(1,2), of fin] by (cases "br_step K func death bs c s") auto
  from step have ok: "ok (ps_w s) (ps_w s1)"
    by (rule parse_cmd_ok(1) [OF Cons.prems(1,2)])
  note ptr = br_step_ptr [OF s1] and sp = kept_sp [OF conjunct1 [OF ok]]
  have "load_bytes (w_mem (ps_w s1)) (ps_ptr s) n = load_bytes (w_mem (ps_w s)) (ps_ptr s) n"
    using ok Cons.prems(3) by (intro caller_run_kept [where bs = bs]) auto
  then have "load_bytes (w_mem (ps_w s1)) (ps_ptr s1) (n - ?l) = concat (map br_bytes cs)"
    unfolding ptr using drop_load_bytes [of ?l n] Cons.prems(5) n
    by (metis append_eq_conv_conj concat.simps(2) le_add1 list.simps(9))
  moreover have "caller_run bs (ps_w s1) (ps_ptr s1) (n - ?l)"
    unfolding ptr using sp n by (intro caller_run_sub [OF Cons.prems(3)]) auto
  moreover have "fin = ps_ptr s1 + of_nat (n - ?l)"
    using Cons.prems(4) n by (simp add: ptr)
  ultimately have "\<exists>s'. br_run K func death bs cs s1 = Some s' \<and>
      parse_loop K func death bs fin s1 = Some (parse_end s')"
    using Cons.prems(1) ok sp by (intro Cons.IH) auto
  then show ?case using lt step s1 by (subst parse_loop.simps) simp
qed

lemma parse_stream:
  assumes "1024 \<le> unat (w_sp w)" and "Inv (w_app w) (w_k w)" and "caller_run bs w ptr n"
    and "load_bytes (w_mem w) ptr n = concat (map br_bytes cs)"
  shows "\<exists>s'. br_run K func death bs cs (parse_start bio ptr w) = Some s' \<and>
     binder_parse K func death bs bio ptr (of_nat n) w = Some (parse_end s')"
  unfolding binder_parse_def parse_start_def using assms by (intro parse_loop_stream) auto

text \<open>Serving: one iteration, and any number of them.\<close>

lemma body_ok:
  assumes body: "loop_body K func death bs readbuf (bwr, w) = Some (go, bwr', w')"
    and sp: "1024 \<le> unat (w_sp w)" and inv: "Inv (w_app w) (w_k w)"
  shows "kept bs (run_of readbuf 128) w w' \<and> Inv (w_app w') (w_k w')"
proof -
  let ?bwr = "bwr\<lparr>read_size := 128, read_consumed := 0, read_buffer := readbuf\<rparr>"
  obtain res bwr1 m1 k1 where io: "k_write_read K (bs_fd bs) ?bwr (w_mem w) (w_k w) = (res, bwr1, m1, k1)"
    using prod_cases4 by blast
  let ?w = "w\<lparr>w_mem := m1, w_k := k1\<rparr>"
  have k1: "kept bs (run_of readbuf 128) w ?w"
    using driver [OF inv] io unfolding driver_ok_def kept_def by (fastforce simp: not_less)
  have i1: "Inv (w_app ?w) (w_k ?w)" using ioctl_inv [OF inv io] by simp
  show ?thesis
  proof (cases "res < 0")
    case True
    then show ?thesis using body io k1 i1 by (simp add: loop_body_def ioctl_bwr_def)
  next
    case False
    then obtain r b where "binder_parse K func death bs None readbuf (read_consumed bwr1) ?w = Some (r, b, w')"
      using body io by (auto simp: loop_body_def ioctl_bwr_def)
    from parse_ok [OF this] have "ok ?w w'" using sp i1 by simp
    then show ?thesis using kept_trans [OF k1] kept_weaken by blast
  qed
qed

lemma parse_returns:
  assumes "unat ptr + unat sz + 44 \<le> 4294967296"
    and sp: "1024 \<le> unat (w_sp w)" and inv: "Inv (w_app w) (w_k w)"
  shows "\<exists>res. binder_parse K func death bs bio ptr sz w = Some res"
  unfolding binder_parse_def
proof (rule parse_loop_returns [where I = "\<lambda>s. ok w (ps_w s)"], goal_cases)
  case 1
  then show ?case using assms(1) by (simp add: unat_add_u32)
next
  case 2
  then show ?case using inv by simp
next
  case (3 s s')
  then show ?case using parse_cmd_ok(1) [OF _ _ 3(2)] sp kept_sp kept_trans by metis
next
  case (4 s)
  then show ?case using parse_cmd_ok(3) sp kept_sp by metis
qed

lemma body_returns:
  assumes "unat readbuf + 172 \<le> 4294967296"
    and sp: "1024 \<le> unat (w_sp (snd s))" and inv: "Inv (w_app (snd s)) (w_k (snd s))"
  shows "\<exists>go s'. loop_body K func death bs readbuf s = Some (go, s')"
proof -
  obtain bwr w where s: "s = (bwr, w)" by fastforce
  let ?bwr = "bwr\<lparr>read_size := 128, read_consumed := 0, read_buffer := readbuf\<rparr>"
  obtain res bwr1 m1 k1 where io: "k_write_read K (bs_fd bs) ?bwr (w_mem w) (w_k w) = (res, bwr1, m1, k1)"
    using prod_cases4 by blast
  have "read_consumed bwr1 \<le> 128"
    using driver [OF inv] io unfolding driver_ok_def by (fastforce simp: s)
  then have "unat readbuf + unat (read_consumed bwr1) + 44 \<le> 4294967296"
    using assms(1) by (simp add: word_le_nat_alt)
  then have "\<exists>res. binder_parse K func death bs None readbuf (read_consumed bwr1) (w\<lparr>w_mem := m1, w_k := k1\<rparr>) = Some res"
    using sp ioctl_inv [OF _ io] inv by (intro parse_returns) (simp_all add: s)
  then show ?thesis
    using io by (auto simp: s loop_body_def ioctl_bwr_def)
qed

lemma reach_ok:
  assumes "serve_reach K func death bs readbuf s s'"
    and "1024 \<le> unat (w_sp (snd s))" and "Inv (w_app (snd s)) (w_k (snd s))"
  shows "kept bs (run_of readbuf 128) (snd s) (snd s') \<and> Inv (w_app (snd s')) (w_k (snd s'))"
  using assms
proof induction
  case (reach_step s' s'')
  then have 1: "kept bs (run_of readbuf 128) (snd s) (snd s') \<and> Inv (w_app (snd s')) (w_k (snd s'))" by blast
  moreover have "kept bs (run_of readbuf 128) (snd s') (snd s'') \<and> Inv (w_app (snd s'')) (w_k (snd s''))"
    using body_ok [of readbuf "fst s'" "snd s'" True "fst s''" "snd s''"] reach_step 1 kept_sp by fastforce
  ultimately show ?case using kept_trans by blast
qed simp

text \<open>
  A server's loop, entered with an announcement and served for as long as the system runs: it
  comes back to its head in a state that keeps the invariant, from which the next iteration
  returns; and when it ends, it ends in such a state with its caller's memory as it was.
\<close>

lemma loop_enter_ok:
  assumes "loop_enter K cmd bs w = (readbuf, s)" and "2048 \<le> unat (w_sp w)" and "Inv (w_app w) (w_k w)"
  shows "readbuf = w_sp w - 128" and "w_sp (snd s) = w_sp w - 128"
    and "kept bs (run_of readbuf 128) (w\<lparr>w_sp := w_sp w - 128\<rparr>) (snd s)"
    and "Inv (w_app (snd s)) (w_k (snd s))"
proof -
  let ?r = "w_sp w - 128"
  let ?w = "store_words [(?r, cmd)] (w\<lparr>w_sp := ?r\<rparr>)"
  have eq: "readbuf = ?r" "snd s = snd (binder_write K bs ?r 4 ?w)"
    using assms(1) by (auto simp: loop_enter_def Let_def split: prod.splits)
  show "readbuf = ?r" by (fact eq)
  have "kept bs (run_of ?r 128) (w\<lparr>w_sp := ?r\<rparr>) ?w"
    by (rule store_words_kept) simp
  then have k: "kept bs (run_of ?r 128) (w\<lparr>w_sp := ?r\<rparr>) (snd s)"
    unfolding eq by (rule kept_trans) (rule binder_write_kept [OF driver [OF assms(3)]])
  then show "kept bs (run_of readbuf 128) (w\<lparr>w_sp := w_sp w - 128\<rparr>) (snd s)" by (simp add: eq(1))
  show "w_sp (snd s) = ?r" using kept_sp [OF k] by simp
  show "Inv (w_app (snd s)) (w_k (snd s))"
    unfolding eq by (rule binder_write_inv) (use assms(3) in simp)
qed

lemma body_goes_on:
  assumes readbuf: "unat readbuf + 172 \<le> 4294967296" "\<forall>i<128. \<not> in_map bs (readbuf + of_nat i)"
    and sp: "1024 \<le> unat readbuf" "w_sp (snd s) = readbuf" and inv: "Inv (w_app (snd s)) (w_k (snd s))"
    and cs: "delivers K bs readbuf s cs" "list_all serves cs"
  shows "\<exists>s'. loop_body K func death bs readbuf s = Some (True, s')"
proof -
  obtain bwr w where s: "s = (bwr, w)" by fastforce
  let ?bwr = "bwr\<lparr>read_size := 128, read_consumed := 0, read_buffer := readbuf\<rparr>"
  obtain res bwr1 m1 k1 where io: "k_write_read K (bs_fd bs) ?bwr (w_mem w) (w_k w) = (res, bwr1, m1, k1)"
    using prod_cases4 by blast
  let ?w = "w\<lparr>w_mem := m1, w_k := k1\<rparr>" and ?n = "unat (read_consumed bwr1)"
  have n: "?n \<le> 128"
    using driver [OF inv] io unfolding driver_ok_def by (fastforce simp: s word_le_nat_alt)
  have "readbuf \<le> readbuf + of_nat i" if "i < 128" for i
    using that readbuf(1) by (simp add: word_le_nat_alt unat_add_u32)
  then have run: "caller_run bs ?w readbuf ?n"
    using n readbuf sp(2) by (auto simp: caller_run_def s)
  have "0 \<le> res" "load_bytes (w_mem ?w) readbuf ?n = concat (map br_bytes cs)"
    using cs(1) io by (simp_all add: delivers_def ioctl_bwr_def s)
  moreover obtain s' where run': "br_run K func death bs cs (parse_start None readbuf ?w) = Some s'"
      "binder_parse K func death bs None readbuf (of_nat ?n) ?w = Some (parse_end s')"
    using parse_stream [OF _ _ run, of cs None] calculation(2) sp ioctl_inv [OF _ io] inv by (auto simp: s)
  moreover have "ps_r s' = 1"
    using br_run_r [OF cs(2) run'(1)] by (simp add: parse_start_def)
  ultimately show ?thesis
    using io by (auto simp: loop_body_def ioctl_bwr_def s parse_end_def)
qed

lemma serve_forever:
  assumes enter: "loop_enter K cmd bs w = (readbuf, s)"
    and sp: "2048 \<le> unat (w_sp w)" "unat (w_sp w) + 44 \<le> 4294967296"
    and inv: "Inv (w_app w) (w_k w)" and reach: "serve_reach K func death bs readbuf s s'"
    and stack: "\<forall>i<128. \<not> in_map bs (w_sp w - 128 + of_nat i)"
  shows "Inv (w_app (snd s')) (w_k (snd s')) \<and> (\<exists>go s''. loop_body K func death bs readbuf s' = Some (go, s''))
    \<and> (\<forall>cs. delivers K bs readbuf s' cs \<longrightarrow> list_all serves cs \<longrightarrow>
         (\<exists>s''. loop_body K func death bs readbuf s' = Some (True, s'')))"
proof -
  note E = loop_enter_ok [OF enter sp(1) inv]
  have d: "unat (w_sp w - 128) = unat (w_sp w) - 128" using sp by (simp add: unat_sub_u32)
  have r: "kept bs (run_of readbuf 128) (snd s) (snd s')" "Inv (w_app (snd s')) (w_k (snd s'))"
    using reach_ok [OF reach] E d sp by simp_all
  have "1024 \<le> unat (w_sp (snd s'))" using kept_sp [OF r(1)] E(2) d sp by simp
  moreover have "unat readbuf + 172 \<le> 4294967296" "1024 \<le> unat readbuf" "w_sp (snd s') = readbuf"
    using E(1,2) d sp kept_sp [OF r(1)] by simp_all
  ultimately show ?thesis
    using body_returns [of readbuf s'] body_goes_on [of readbuf s'] r(2) stack E(1) by simp
qed

end

end
