(* ===== verification/Binder_Commands.thy ===== *)
theory Binder_Commands
  imports Binder_Service
begin

text \<open>
  What the library hands to the driver, and what a call returns: the bytes of each command,
  the reply parcel of a call that succeeds and of one that fails, and \<open>binder_done\<close>.
\<close>

section \<open>Reading back stored words\<close>

lemma unat_neg_u32: "0 < unat (x :: u32) \<Longrightarrow> unat (- x) = 4294967296 - unat x"
proof -
  assume x: "0 < unat x"
  have "(of_nat (4294967296 - unat x) :: u32) = of_nat 4294967296 - of_nat (unat x)"
    by (intro of_nat_diff less_imp_le) (rule unat_less_u32)
  then have "- x = of_nat (4294967296 - unat x)" by simp
  then show ?thesis using x by (simp only: unat_of_nat_u32)
qed

lemma load32_store32_other:
  assumes "4 \<le> unat (p - q)" and "4 \<le> unat (q - p)"
  shows "load32 (store32 q v m) p = load32 m p"
proof -
  have "apart p 4 q 4"
    unfolding apart_def
  proof (intro allI impI)
    fix i :: nat assume i: "i < 4"
    have "unat (p - q) + 4 \<le> 4294967296"
    proof (rule ccontr)
      assume "\<not> ?thesis"
      then have "unat (- (p - q)) < 4"
        using assms(1) unat_less_u32 [of "p - q"] unat_neg_u32 [of "p - q"] by linarith
      then show False using assms(2) by simp
    qed
    then have "unat ((p - q) + of_nat i) = unat (p - q) + i"
      using i by (subst unat_add_u32) simp_all
    then show "4 \<le> unat (p + of_nat i - q)"
      using assms(1) by (simp add: algebra_simps)
  qed
  then show ?thesis by (simp add: store32_def load32_store_apart)
qed

lemma load32_fold_store:
  "list_all (\<lambda>(q, v). 4 \<le> unat (p - q) \<and> 4 \<le> unat (q - p)) ws \<Longrightarrow>
   load32 (fold (\<lambda>(a, v). store32 a v) ws m) p = load32 m p"
  by (induction ws arbitrary: m) (auto simp: load32_store32_other)

lemma load_bytes_le32: "load_bytes m a 4 = le32 (load32 m a)"
proof -
  obtain b0 b1 b2 b3 where l: "load_bytes m a 4 = [b0, b1, b2, b3]"
    using length_load_bytes [of m a 4] by (auto simp: numeral_eq_Suc length_Suc_conv simp del: length_load_bytes)
  have "[b0, b1, b2, b3] = le32 (from_le32 [b0, b1, b2, b3])"
    by (simp add: le32_def) (intro conjI; rule bit_word_eqI; auto simp: bit_simps dest: bit_imp_le_length)
  then show ?thesis by (simp add: l load32_def)
qed

section \<open>Commands\<close>

text \<open>
  \<open>sent K bs bytes P w w'\<close>: \<open>w'\<close> is \<open>w\<close> after one write-only ioctl on the connection, at
  which the command bytes in the caller's memory are \<open>bytes\<close> and memory satisfies \<open>P\<close>.
\<close>

definition sent :: "'k kernel \<Rightarrow> binder_state \<Rightarrow> u8 list \<Rightarrow> (mem \<Rightarrow> bool) \<Rightarrow> ('k, 's) world \<Rightarrow> ('k, 's) world \<Rightarrow> bool" where
  "sent K bs bytes P w w' \<longleftrightarrow> (\<exists>bwr m res bwr' m' k'.
     write_consumed bwr = 0 \<and> read_size bwr = 0 \<and>
     load_bytes m (write_buffer bwr) (unat (write_size bwr)) = bytes \<and> P m \<and>
     k_write_read K (bs_fd bs) bwr m (w_k w) = (res, bwr', m', k') \<and>
     w' = w\<lparr>w_mem := m', w_k := k'\<rparr>)"

lemma frame_sent:
  assumes "load_bytes (w_mem (f (w_sp w - n) (w\<lparr>w_sp := w_sp w - n\<rparr>))) (w_sp w - n) (unat len) = bytes"
    and "\<And>d w. w_k (f d w) = w_k w \<and> w_app (f d w) = w_app w \<and> w_sp (f d w) = w_sp w"
    and "P (w_mem (f (w_sp w - n) (w\<lparr>w_sp := w_sp w - n\<rparr>)))"
  shows "sent K bs bytes P w (snd (with_frame n (\<lambda>d w. binder_write K bs d len (f d w)) w))"
proof -
  let ?d = "w_sp w - n" and ?bwr = "\<lparr>write_size = len, write_consumed = 0, write_buffer = w_sp w - n,
      read_size = 0, read_consumed = 0, read_buffer = 0\<rparr>"
  let ?w = "f ?d (w\<lparr>w_sp := ?d\<rparr>)"
  obtain res bwr' m' k' where io: "k_write_read K (bs_fd bs) ?bwr (w_mem ?w) (w_k w) = (res, bwr', m', k')"
    using prod_cases4 by blast
  have "snd (with_frame n (\<lambda>d w. binder_write K bs d len (f d w)) w) = w\<lparr>w_mem := m', w_k := k'\<rparr>"
    using io assms(2) by (simp add: snd_with_frame binder_write_def ioctl_bwr_def Let_def)
  then show ?thesis
    unfolding sent_def using io assms(1,3) by (intro exI [of _ ?bwr] exI [of _ "w_mem ?w"]) simp
qed

lemma load_words:
  "load_bytes m a (4 * n) = concat (map (\<lambda>i. le32 (load32 m (a + 4 * of_nat i))) [0..<n])"
proof (induction n)
  case (Suc n)
  have "load_bytes m a (4 * Suc n) = load_bytes m a (4 * n) @ load_bytes m (a + of_nat (4 * n)) 4"
    using load_bytes_add [of m a "4 * n" 4] by (simp add: add.commute)
  then show ?case using Suc by (simp add: load_bytes_le32)
qed simp

lemma load_words2: "load_bytes m a 8 = le32 (load32 m a) @ le32 (load32 m (a + 4))"
  using load_words [of m a 2] by (simp add: upt_rec)

lemma load_words3:
  "load_bytes m a 12 = le32 (load32 m a) @ le32 (load32 m (a + 4)) @ le32 (load32 m (a + 8))"
  using load_words [of m a 3] by (simp add: upt_rec)

lemmas store_read = store_words_def load32_store32_other unat_neg_u32

text \<open>
  The reference commands reach the driver as the protocol encodes them. Each of
  \<open>binder_acquire\<close>, \<open>binder_release\<close> and \<open>binder_link_to_death\<close> is one write-only ioctl
  whose buffer holds the command code, the handle and, for the last, the cookie, in this
  order, little-endian; nothing else of the program's state changes.
\<close>

theorem reference_commands_sent:
  "sent K bs (le32 BC_ACQUIRE @ le32 h) (\<lambda>_. True) w (binder_acquire K bs h w) \<and>
   sent K bs (le32 BC_RELEASE @ le32 h) (\<lambda>_. True) w (binder_release K bs h w) \<and>
   sent K bs (le32 BC_REQUEST_DEATH_NOTIFICATION @ le32 h @ le32 cookie) (\<lambda>_. True) w (binder_link_to_death K bs h cookie w)"
proof (intro conjI)
  show "sent K bs (le32 BC_ACQUIRE @ le32 h) (\<lambda>_. True) w (binder_acquire K bs h w)"
    unfolding binder_acquire_def by (rule frame_sent) (simp_all add: load_words2 store_read)
  show "sent K bs (le32 BC_RELEASE @ le32 h) (\<lambda>_. True) w (binder_release K bs h w)"
    unfolding binder_release_def by (rule frame_sent) (simp_all add: load_words2 store_read)
  show "sent K bs (le32 BC_REQUEST_DEATH_NOTIFICATION @ le32 h @ le32 cookie) (\<lambda>_. True) w (binder_link_to_death K bs h cookie w)"
    unfolding binder_link_to_death_def by (rule frame_sent) (simp_all add: load_words3 store_read)
qed

text \<open>The transaction of a reply: a status code, or the parcel.\<close>

definition reply_txn :: "binder_io \<Rightarrow> int \<Rightarrow> u32 \<Rightarrow> u32 \<Rightarrow> u32 \<Rightarrow> binder_transaction_data" where
  "reply_txn reply status statusp pid euid =
     (if status \<noteq> 0
      then \<lparr>t_target = 0, t_cookie = 0, t_code = 0, t_flags = TF_STATUS_CODE, t_sender_pid = pid, t_sender_euid = euid,
            t_data_size = 4, t_offsets_size = 0, t_buffer = statusp, t_offsets = 0\<rparr>
      else \<lparr>t_target = 0, t_cookie = 0, t_code = 0, t_flags = 0, t_sender_pid = pid, t_sender_euid = euid,
            t_data_size = of_nat (bio_used reply), t_offsets_size = b_offs reply - b_offs0 reply,
            t_buffer = b_data0 reply, t_offsets = b_offs0 reply\<rparr>)"

lemma load_words13:
  "load_bytes m a 52 = le32 (load32 m a) @ le32 (load32 m (a + 4)) @ le32 (load32 m (a + 8)) @
     txn_bytes (load_txn m (a + 12))"
  using load_words [of m a 13] by (simp add: upt_rec txn_bytes_def load_txn_def) (simp add: add.commute)

text \<open>
  A reply is one command pair. \<open>binder_send_reply\<close> is one write-only ioctl of 52 bytes: the
  buffer of the request is freed, then the reply is sent, and its transaction carries, for status
  0, the address and the used length of the reply parcel and of its offsets array, and
  otherwise the flag \<open>TF_STATUS_CODE\<close> and the address of a 4-byte word that holds the
  status.
\<close>

theorem send_reply_sent:
  "\<exists>pid euid. sent K bs
     (le32 BC_FREE_BUFFER @ le32 buffer @ le32 BC_REPLY @ txn_bytes (reply_txn reply status (w_sp w - 4) pid euid))
     (\<lambda>m. load32 m (w_sp w - 4) = of_int status) w (binder_send_reply K bs reply buffer status w)"
proof (intro exI)
  let ?m = "w_mem (store_words [(w_sp w - 4, of_int status)] w)"
  show "sent K bs
     (le32 BC_FREE_BUFFER @ le32 buffer @ le32 BC_REPLY @ txn_bytes (reply_txn reply status (w_sp w - 4)
        (load32 (w_mem w) (w_sp w - 28)) (load32 (w_mem w) (w_sp w - 24))))
     (\<lambda>m. load32 m (w_sp w - 4) = of_int status) w (binder_send_reply K bs reply buffer status w)"
    unfolding binder_send_reply_def Let_def
    by (rule frame_sent) (simp_all add: load_words13 store_read load_txn_def reply_txn_def bio_used_def)
qed

section \<open>Calling\<close>

text \<open>
  The client programs of the repository register no death callback and serve no calls: the
  library, as they use it, is a service without a handler.
\<close>

definition no_death :: "('k, 's) death_call" where
  "no_death bs cookie w = w"

interpretation client: binder_service K bs None no_death "\<lambda>_ _. driver_ok K bs" for K bs
  by unfold_locales (simp_all add: no_death_def)

lemma call_failed_done: "binder_done K bs call_failed w = (call_failed, w)"
  by (simp add: binder_done_def call_failed_def zero_bio_def bio_flag_defs)

lemma call_loop_result:
  assumes "call_loop K death bs readbuf bwr reply w = Some (r, reply', w')"
  shows "r = 0 \<or> r = -1 \<and> reply' = call_failed"
proof -
  have "fst res = 0 \<or> fst res = -1 \<and> fst (snd res) = call_failed"
    if "call_loop K death bs readbuf bwr reply w = Some res" for res
    using that
  proof (induction K death bs readbuf bwr reply w res
      rule: call_loop.raw_induct [rotated, consumes 1, case_names 1])
    case (1 rec K death bs readbuf bwr reply w res)
    obtain io bwr1 w1 where io: "ioctl_bwr K bs
        (bwr\<lparr>read_size := 128, read_consumed := 0, read_buffer := readbuf\<rparr>) w = (io, bwr1, w1)"
      using prod_cases3 by blast
    show ?case
    proof (cases "io < 0")
      case True
      then show ?thesis using "1.hyps" io by auto
    next
      case False
      then obtain q reply2 w2 where "binder_parse K None death bs (Some reply) readbuf (read_consumed bwr1) w1 =
          Some (q, reply2, w2)"
        and "(if q = 0 then Some (0, reply2, w2) else if q < 0 then Some (-1, call_failed, w2)
              else rec K death bs readbuf bwr1 reply2 w2) = Some res"
        using "1.hyps" io by (auto simp: bind_eq_Some_conv)
      then show ?thesis using "1.IH" by (auto split: if_splits)
    qed
  qed
  from this [OF assms] show ?thesis by simp
qed



lemma done_sent:
  assumes "b_flags reply AND BIO_F_SHARED \<noteq> 0"
  shows "sent K bs (le32 BC_FREE_BUFFER @ le32 (b_data0 reply)) (\<lambda>_. True) w (snd (binder_done K bs reply w))"
proof -
  have "sent K bs (le32 BC_FREE_BUFFER @ le32 (b_data0 reply)) (\<lambda>_. True) w
      (snd (with_frame 8 (\<lambda>d w. binder_write K bs d 8
         (store_words [(d, BC_FREE_BUFFER), (d + 4, b_data0 reply)] w)) w))"
    by (rule frame_sent) (simp_all add: load_words2 store_read)
  then show ?thesis using assms by (simp add: binder_done_def)
qed

text \<open>
  C14: A reply is released once. \<open>binder_done\<close> on a parcel that borrows a driver buffer sends one
  \<open>BC_FREE_BUFFER\<close> for the start of that buffer, and a second call does nothing.
\<close>

theorem binder_done_once:
  assumes "b_flags reply AND BIO_F_SHARED \<noteq> 0" and "binder_done K bs reply w = (reply', w')"
  shows "sent K bs (le32 BC_FREE_BUFFER @ le32 (b_data0 reply)) (\<lambda>_. True) w w' \<and>
     binder_done K bs reply' w' = (reply', w')"
  using done_sent [OF assms(1), of K bs w] assms by (auto simp: binder_done_def)

theorem binder_done_once_witness:
  "\<exists>w'. binder_done null_kernel null_bs (zero_bio\<lparr>b_flags := BIO_F_SHARED, b_data0 := 0x40000000\<rparr>) null_world =
       (zero_bio\<lparr>b_flags := 0, b_data0 := 0x40000000\<rparr>, w') \<and>
     sent null_kernel null_bs (le32 BC_FREE_BUFFER @ le32 0x40000000) (\<lambda>_. True) null_world w'"
proof -
  let ?r = "zero_bio\<lparr>b_flags := BIO_F_SHARED, b_data0 := 0x40000000\<rparr>"
  obtain r w' where d: "binder_done null_kernel null_bs ?r null_world = (r, w')" by (metis surj_pair)
  have "b_flags ?r AND BIO_F_SHARED \<noteq> 0" by (simp add: BIO_F_SHARED_def)
  from binder_done_once [OF this d] d show ?thesis
    by (auto simp: binder_done_def zero_bio_def BIO_F_SHARED_def)
qed

text \<open>What \<open>binder_call\<close> sends; three fields of the structure are not initialised.\<close>

definition request_txn ::
    "binder_io \<Rightarrow> u32 \<Rightarrow> u32 \<Rightarrow> u32 \<Rightarrow> u32 \<Rightarrow> u32 \<Rightarrow> binder_transaction_data" where
  "request_txn msg target code cookie pid euid =
     \<lparr>t_target = target, t_cookie = cookie, t_code = code, t_flags = 0, t_sender_pid = pid, t_sender_euid = euid,
      t_data_size = of_nat (bio_used msg), t_offsets_size = b_offs msg - b_offs0 msg,
      t_buffer = b_data0 msg, t_offsets = b_offs0 msg\<rparr>"

text \<open>
  A driver that answers the request with the commands \<open>cs\<close>: the ioctl that carries these
  command bytes and a read buffer of 128 bytes succeeds and fills the buffer with them.
\<close>

definition answers ::
    "'k kernel \<Rightarrow> binder_state \<Rightarrow> 'k \<Rightarrow> binder_io \<Rightarrow> u32 \<Rightarrow> u32 \<Rightarrow> br_cmd list \<Rightarrow> bool" where
  "answers K bs k msg target code cs \<longleftrightarrow> (\<forall>bwr m cookie pid euid.
     load_bytes m (write_buffer bwr) (unat (write_size bwr)) =
       le32 BC_TRANSACTION @ txn_bytes (request_txn msg target code cookie pid euid) \<longrightarrow>
     read_size bwr = 128 \<longrightarrow>
     (\<exists>res bwr' m' k'. k_write_read K (bs_fd bs) bwr m k = (res, bwr', m', k') \<and> 0 \<le> res \<and>
        read_consumed bwr' = of_nat (length (concat (map br_bytes cs))) \<and>
        load_bytes m' (read_buffer bwr) (length (concat (map br_bytes cs))) = concat (map br_bytes cs)))"

fun quiet :: "br_cmd \<Rightarrow> bool" where
  "quiet Br_noop = True"
| "quiet Br_transaction_complete = True"
| "quiet (Br_increfs p c) = True"
| "quiet (Br_acquire p c) = True"
| "quiet (Br_release p c) = True"
| "quiet (Br_decrefs p c) = True"
| "quiet _ = False"

lemma quiet_run:
  "list_all quiet cs \<Longrightarrow> \<exists>p. br_run K None death bs cs s = Some (s\<lparr>ps_ptr := p\<rparr>)"
proof (induction cs arbitrary: s)
  case Nil
  then show ?case by (auto intro!: exI [of _ "ps_ptr s"])
next
  case (Cons c cs)
  then obtain p where "br_step K None death bs c s = Some (s\<lparr>ps_ptr := p\<rparr>)"
    by (cases c) (simp_all add: br_step_def br_effect_def)
  moreover obtain q where "br_run K None death bs cs (s\<lparr>ps_ptr := p\<rparr>) = Some (s\<lparr>ps_ptr := q\<rparr>)"
    using Cons.IH [of "s\<lparr>ps_ptr := p\<rparr>"] Cons.prems by auto
  ultimately show ?case by (intro exI [of _ q]) simp
qed

lemma br_run_append:
  "br_run K func death bs (xs @ ys) s = Option.bind (br_run K func death bs xs s) (br_run K func death bs ys)"
  by (induction xs arbitrary: s) (auto simp: bind_assoc split: bind_split)

lemma load_words11: "load_bytes m a 44 = le32 (load32 m a) @ txn_bytes (load_txn m (a + 4))"
  using load_words [of m a 11] by (simp add: upt_rec txn_bytes_def load_txn_def) (simp add: add.commute)

text \<open>The memory and the argument of the first ioctl of a call: the request in the frame of \<open>binder_call\<close>.\<close>

definition request_world :: "binder_io \<Rightarrow> u32 \<Rightarrow> u32 \<Rightarrow> ('k, 's) world \<Rightarrow> ('k, 's) world" where
  "request_world msg target code w =
     (let r = w_sp w - 172 in
      store_words [(r + 128, BC_TRANSACTION), (r + 132, target), (r + 140, code), (r + 144, 0),
        (r + 156, b_data msg - b_data0 msg), (r + 160, b_offs msg - b_offs0 msg),
        (r + 164, b_data0 msg), (r + 168, b_offs0 msg)] (w\<lparr>w_sp := r\<rparr>))"

definition request_bwr :: "('k, 's) world \<Rightarrow> binder_write_read" where
  "request_bwr w = \<lparr>write_size = 44, write_consumed = 0, write_buffer = w_sp w - 172 + 128, read_size = 128,
     read_consumed = 0, read_buffer = w_sp w - 172\<rparr>"

lemma request_world_sel [simp]:
  "w_sp (request_world msg target code w) = w_sp w - 172" "w_k (request_world msg target code w) = w_k w"
  "w_app (request_world msg target code w) = w_app w"
  by (simp_all add: request_world_def Let_def)

lemma request_sent:
  "\<exists>cookie pid euid. load_bytes (w_mem (request_world msg target code w)) (w_sp w - 172 + 128) 44 =
     le32 BC_TRANSACTION @ txn_bytes (request_txn msg target code cookie pid euid)"
proof -
  define r where "r = w_sp w - 172"
  have "load_bytes (w_mem (request_world msg target code w)) (r + 128) 44 = le32 BC_TRANSACTION @ txn_bytes
      (request_txn msg target code (load32 (w_mem w) (r + 136)) (load32 (w_mem w) (r + 148)) (load32 (w_mem w) (r + 152)))"
    by (simp add: request_world_def r_def [symmetric] load_words11 store_read load_txn_def request_txn_def bio_used_def)
      (simp add: add.commute)
  then show ?thesis unfolding r_def by blast
qed

lemma binder_call_loop:
  assumes "\<not> bio_overflowed msg"
  shows "binder_call K death bs msg reply target code w =
    map_option (\<lambda>(res, reply, w'). (res, reply, w'\<lparr>w_sp := w_sp w\<rparr>))
      (call_loop K death bs (w_sp w - 172) ((request_bwr w)\<lparr>read_size := 0, read_buffer := 0\<rparr>) reply
        (request_world msg target code w))"
  using assms by (simp add: binder_call_def bio_overflowed_def request_world_def request_bwr_def Let_def add.assoc)

text \<open>A call whose first ioctl is answered with bookkeeping commands and a reply.\<close>

lemma call_answered:
  assumes drv: "driver_ok K bs" and over: "\<not> bio_overflowed msg" and sp: "2048 \<le> unat (w_sp w)"
    and run: "caller_run bs (w\<lparr>w_sp := w_sp w - 172\<rparr>) (w_sp w - 172) 128"
    and cs: "cs = pre @ [Br_reply t]" "list_all quiet pre" "length (concat (map br_bytes cs)) \<le> 128"
    and io: "k_write_read K (bs_fd bs) (request_bwr w) (w_mem (request_world msg target code w)) (w_k w) = (res, bwr', m', k')"
      "0 \<le> res" "read_consumed bwr' = of_nat (length (concat (map br_bytes cs)))"
      "load_bytes m' (w_sp w - 172) (length (concat (map br_bytes cs))) = concat (map br_bytes cs)"
  shows "binder_call K no_death bs msg reply target code w = Some (0, bio_of_txn t reply, w\<lparr>w_mem := m', w_k := k'\<rparr>)"
proof -
  let ?r = "w_sp w - 172" and ?w = "(request_world msg target code w)\<lparr>w_mem := m', w_k := k'\<rparr>"
  let ?n = "length (concat (map br_bytes cs))"
  have sp1: "1024 \<le> unat (w_sp ?w)" using sp by (simp add: unat_sub_u32)
  have run1: "caller_run bs ?w ?r ?n" using caller_run_sub [OF run, of 0 ?n ?w] cs(3) by simp
  obtain s where s: "br_run K None no_death bs cs (parse_start (Some reply) ?r ?w) = Some s"
      "binder_parse K None no_death bs (Some reply) ?r (of_nat ?n) ?w = Some (parse_end s)"
    using client.parse_stream [OF sp1 drv run1, of cs "Some reply"] io(4) by auto
  obtain p where "br_run K None no_death bs pre (parse_start (Some reply) ?r ?w) =
      Some ((parse_start (Some reply) ?r ?w)\<lparr>ps_ptr := p\<rparr>)"
    using quiet_run [OF cs(2)] by blast
  then have "parse_end s = (0, bio_of_txn t reply, ?w)"
    using s(1) by (auto simp: cs(1) br_run_append br_step_def br_effect_def parse_end_def parse_start_def)
  then have "call_loop K no_death bs ?r ((request_bwr w)\<lparr>read_size := 0, read_buffer := 0\<rparr>) reply (request_world msg target code w) =
      Some (0, bio_of_txn t reply, ?w)"
    using s(2) io by (subst call_loop.simps) (simp add: ioctl_bwr_def request_bwr_def)
  then show ?thesis
    by (simp add: binder_call_loop [OF over] request_world_def store_words_def Let_def)
qed

text \<open>
  C12: A call delivers the reply. When the driver answers the request that \<open>binder_call\<close> sends
  with bookkeeping commands and a \<open>BR_REPLY\<close>, the call returns 0, and the reply parcel is the
  one of the reply's transaction, unread and marked for release; the stack pointer is back where
  it was and the program's own state is untouched.
\<close>

theorem binder_call_delivers:
  assumes drv: "driver_ok K bs" and over: "\<not> bio_overflowed msg" and sp: "2048 \<le> unat (w_sp w)"
    and run: "caller_run bs (w\<lparr>w_sp := w_sp w - 172\<rparr>) (w_sp w - 172) 128"
    and cs: "cs = pre @ [Br_reply t]" "list_all quiet pre" "length (concat (map br_bytes cs)) \<le> 128"
    and ans: "answers K bs (w_k w) msg target code cs"
  shows "\<exists>w'. binder_call K no_death bs msg reply target code w = Some (0, bio_of_txn t reply, w') \<and>
     w_sp w' = w_sp w \<and> w_app w' = w_app w"
proof -
  have "read_size (request_bwr w) = 128" "read_buffer (request_bwr w) = w_sp w - 172" by (simp_all add: request_bwr_def)
  moreover obtain cookie pid euid where "load_bytes (w_mem (request_world msg target code w)) (write_buffer (request_bwr w))
      (unat (write_size (request_bwr w))) = le32 BC_TRANSACTION @ txn_bytes (request_txn msg target code cookie pid euid)"
    using request_sent [of msg target code w] by (auto simp: request_bwr_def)
  note ans [unfolded answers_def, rule_format, OF this]
  ultimately obtain res bwr' m' k' where
      "k_write_read K (bs_fd bs) (request_bwr w) (w_mem (request_world msg target code w)) (w_k w) = (res, bwr', m', k')" "0 \<le> res"
      "read_consumed bwr' = of_nat (length (concat (map br_bytes cs)))"
      "load_bytes m' (w_sp w - 172) (length (concat (map br_bytes cs))) = concat (map br_bytes cs)"
    by auto
  from call_answered [OF drv over sp run cs this] show ?thesis by simp
qed

text \<open>A driver that answers every request for input with one reply.\<close>

definition reply_kernel :: "br_cmd list \<Rightarrow> nat kernel" where
  "reply_kernel cs = null_kernel\<lparr>k_write_read := (\<lambda>_ bwr m n.
     if read_size bwr = 128
     then (0, bwr\<lparr>read_consumed := of_nat (length (concat (map br_bytes cs)))\<rparr>,
           store_bytes (read_buffer bwr) (concat (map br_bytes cs)) m, n)
     else (0, bwr\<lparr>read_consumed := 0\<rparr>, m, n))\<rparr>"

lemma reply_kernel_ok:
  assumes "length (concat (map br_bytes cs)) \<le> 128"
  shows "driver_ok (reply_kernel cs) bs" and "answers (reply_kernel cs) bs k msg target code cs"
proof -
  have "unat (of_nat (length (concat (map br_bytes cs))) :: u32) \<le> 128" using assms by simp
  then show "driver_ok (reply_kernel cs) bs"
    using assms by (auto simp: driver_ok_def reply_kernel_def word_le_nat_alt store_bytes_def Let_def split: if_splits)
  show "answers (reply_kernel cs) bs k msg target code cs"
    using assms by (simp add: answers_def reply_kernel_def load_store_same)
qed

theorem binder_call_delivers_witness:
  "\<exists>w'. binder_call (reply_kernel [Br_transaction_complete, Br_reply (load_txn (\<lambda>_. 1) 0)]) no_death null_bs
       (bio_init zero_bio 0x7fff1000 256 4) zero_bio 0 2 null_world =
     Some (0, bio_of_txn (load_txn (\<lambda>_. 1) 0) zero_bio, w')"
proof -
  let ?cs = "[Br_transaction_complete, Br_reply (load_txn (\<lambda>_. 1) 0)]"
  have len: "length (concat (map br_bytes ?cs)) \<le> 128" by simp
  have over: "\<not> bio_overflowed (bio_init zero_bio 0x7fff1000 256 4)"
    by (rule bio_init_not_overflowed) (simp add: buffer_ok_def)
  have sp: "2048 \<le> unat (w_sp null_world)" by (simp add: null_world_def)
  let ?w = "null_world\<lparr>w_sp := w_sp null_world - 172\<rparr>"
  have addr: "unat (0x7ffeff54 + of_nat i :: u32) = 0x7ffeff54 + i" if "i < 128" for i
    using that by (simp add: unat_add_u32)
  have "\<not> in_map null_bs (0x7ffeff54 + of_nat i)" if "i < 128" for i
  proof -
    have "unat (0x7ffeff54 + of_nat i - 0x40000000 :: u32) = 0x7ffeff54 + i - 0x40000000"
      using addr [OF that] by (subst unat_sub_u32) simp_all
    then show ?thesis by (simp add: in_map_def null_bs_def)
  qed
  then have run: "caller_run null_bs ?w (w_sp null_world - 172) 128"
    using addr by (simp add: caller_run_def word_le_nat_alt null_world_def)
  show ?thesis
    using binder_call_delivers [OF reply_kernel_ok(1) [OF len] over sp run, where pre = "[Br_transaction_complete]" and
        t = "load_txn (\<lambda>_. 1) 0", OF _ _ len reply_kernel_ok(2) [OF len], of zero_bio] by auto
qed

end
