(* ===== verification/Binder_Codes.thy ===== *)
theory Binder_Codes
  imports Binder_Commands
begin

text \<open>
  The whole of the protocol in \<open>binder/include/linux/binder.h\<close>, with the codes the library does not
  use, and what the library owes to it: a command word carries the size of its payload, the parser
  moves by exactly that size, and every buffer the library hands to the driver splits into whole
  commands.
\<close>

section \<open>The remaining constants\<close>

definition BINDER_TYPE_WEAK_BINDER :: u32 where
  "BINDER_TYPE_WEAK_BINDER = B_PACK_CHARS (of_char CHR ''w'') (of_char CHR ''b'') (of_char CHR ''*'') B_TYPE_LARGE"
definition BINDER_TYPE_WEAK_HANDLE :: u32 where
  "BINDER_TYPE_WEAK_HANDLE = B_PACK_CHARS (of_char CHR ''w'') (of_char CHR ''h'') (of_char CHR ''*'') B_TYPE_LARGE"
definition BINDER_TYPE_FD :: u32 where
  "BINDER_TYPE_FD = B_PACK_CHARS (of_char CHR ''f'') (of_char CHR ''d'') (of_char CHR ''*'') B_TYPE_LARGE"

definition FLAT_BINDER_FLAG_PRIORITY_MASK :: u32 where "FLAT_BINDER_FLAG_PRIORITY_MASK = 0xff"

definition TF_ONE_WAY :: u32 where "TF_ONE_WAY = 0x01"
definition TF_ROOT_OBJECT :: u32 where "TF_ROOT_OBJECT = 0x04"
definition TF_ACCEPT_FDS :: u32 where "TF_ACCEPT_FDS = 0x10"

text \<open>The sizes of the structures that only unused codes mention.\<close>

definition sizeof_bwr :: u32 where [layout_defs]: "sizeof_bwr = 24"
definition sizeof_version :: u32 where [layout_defs]: "sizeof_version = 4"
definition sizeof_pri_desc :: u32 where [layout_defs]: "sizeof_pri_desc = 8"
definition sizeof_pri_ptr_cookie :: u32 where [layout_defs]: "sizeof_pri_ptr_cookie = 12"

definition IOWR :: "char \<Rightarrow> u32 \<Rightarrow> u32 \<Rightarrow> u32" where
  "IOWR ty nr sz = IOC 3 (of_char ty) nr sz"

definition BINDER_WRITE_READ :: u32 where "BINDER_WRITE_READ = IOWR CHR ''b'' 1 sizeof_bwr"
definition BINDER_SET_IDLE_TIMEOUT :: u32 where "BINDER_SET_IDLE_TIMEOUT = IOW CHR ''b'' 3 8"
definition BINDER_SET_MAX_THREADS :: u32 where "BINDER_SET_MAX_THREADS = IOW CHR ''b'' 5 4"
definition BINDER_SET_IDLE_PRIORITY :: u32 where "BINDER_SET_IDLE_PRIORITY = IOW CHR ''b'' 6 4"
definition BINDER_SET_CONTEXT_MGR :: u32 where "BINDER_SET_CONTEXT_MGR = IOW CHR ''b'' 7 4"
definition BINDER_THREAD_EXIT :: u32 where "BINDER_THREAD_EXIT = IOW CHR ''b'' 8 4"
definition BINDER_VERSION :: u32 where "BINDER_VERSION = IOWR CHR ''b'' 9 sizeof_version"

definition BR_ERROR :: u32 where "BR_ERROR = IOR CHR ''r'' 0 4"
definition BR_OK :: u32 where "BR_OK = IO CHR ''r'' 1"
definition BR_ACQUIRE_RESULT :: u32 where "BR_ACQUIRE_RESULT = IOR CHR ''r'' 4 4"
definition BR_ATTEMPT_ACQUIRE :: u32 where "BR_ATTEMPT_ACQUIRE = IOR CHR ''r'' 11 sizeof_pri_ptr_cookie"
definition BR_FINISHED :: u32 where "BR_FINISHED = IO CHR ''r'' 14"
definition BR_CLEAR_DEATH_NOTIFICATION_DONE :: u32 where
  "BR_CLEAR_DEATH_NOTIFICATION_DONE = IOR CHR ''r'' 16 sizeof_uintptr"

definition BC_ACQUIRE_RESULT :: u32 where "BC_ACQUIRE_RESULT = IOW CHR ''c'' 2 4"
definition BC_INCREFS :: u32 where "BC_INCREFS = IOW CHR ''c'' 4 4"
definition BC_DECREFS :: u32 where "BC_DECREFS = IOW CHR ''c'' 7 4"
definition BC_INCREFS_DONE :: u32 where "BC_INCREFS_DONE = IOW CHR ''c'' 8 sizeof_ptr_cookie"
definition BC_ACQUIRE_DONE :: u32 where "BC_ACQUIRE_DONE = IOW CHR ''c'' 9 sizeof_ptr_cookie"
definition BC_ATTEMPT_ACQUIRE :: u32 where "BC_ATTEMPT_ACQUIRE = IOW CHR ''c'' 10 sizeof_pri_desc"
definition BC_EXIT_LOOPER :: u32 where "BC_EXIT_LOOPER = IO CHR ''c'' 13"
definition BC_CLEAR_DEATH_NOTIFICATION :: u32 where
  "BC_CLEAR_DEATH_NOTIFICATION = IOW CHR ''c'' 15 sizeof_handle_cookie"
definition BC_DEAD_BINDER_DONE :: u32 where "BC_DEAD_BINDER_DONE = IOW CHR ''c'' 16 sizeof_uintptr"

text \<open>The two enumerations, in the order of the source.\<close>

definition binder_driver_return_protocol :: "u32 list" where
  "binder_driver_return_protocol =
     [BR_ERROR, BR_OK, BR_TRANSACTION, BR_REPLY, BR_ACQUIRE_RESULT, BR_DEAD_REPLY, BR_TRANSACTION_COMPLETE,
      BR_INCREFS, BR_ACQUIRE, BR_RELEASE, BR_DECREFS, BR_ATTEMPT_ACQUIRE, BR_NOOP, BR_SPAWN_LOOPER, BR_FINISHED,
      BR_DEAD_BINDER, BR_CLEAR_DEATH_NOTIFICATION_DONE, BR_FAILED_REPLY]"

definition binder_driver_command_protocol :: "u32 list" where
  "binder_driver_command_protocol =
     [BC_TRANSACTION, BC_REPLY, BC_ACQUIRE_RESULT, BC_FREE_BUFFER, BC_INCREFS, BC_ACQUIRE, BC_RELEASE, BC_DECREFS,
      BC_INCREFS_DONE, BC_ACQUIRE_DONE, BC_ATTEMPT_ACQUIRE, BC_REGISTER_LOOPER, BC_ENTER_LOOPER, BC_EXIT_LOOPER,
      BC_REQUEST_DEATH_NOTIFICATION, BC_CLEAR_DEATH_NOTIFICATION, BC_DEAD_BINDER_DONE]"

section \<open>Reading a command word\<close>

text \<open>\<open>_IOC_SIZE\<close>, \<open>_IOC_TYPE\<close> and \<open>_IOC_NR\<close> of the system's ioctl header.\<close>

definition ioc_size :: "u32 \<Rightarrow> u32" where "ioc_size c = drop_bit 16 c AND 0x3fff"
definition ioc_type :: "u32 \<Rightarrow> u32" where "ioc_type c = drop_bit 8 c AND 0xff"
definition ioc_nr :: "u32 \<Rightarrow> u32" where "ioc_nr c = c AND 0xff"

lemma unused_values [proto_defs]:
  "BR_ERROR = 0x80047200" "BR_OK = 0x7201" "BR_ACQUIRE_RESULT = 0x80047204" "BR_ATTEMPT_ACQUIRE = 0x800C720B"
  "BR_FINISHED = 0x720E" "BR_CLEAR_DEATH_NOTIFICATION_DONE = 0x80047210"
  "BC_ACQUIRE_RESULT = 0x40046302" "BC_INCREFS = 0x40046304" "BC_DECREFS = 0x40046307"
  "BC_INCREFS_DONE = 0x40086308" "BC_ACQUIRE_DONE = 0x40086309" "BC_ATTEMPT_ACQUIRE = 0x4008630A"
  "BC_EXIT_LOOPER = 0x630D" "BC_CLEAR_DEATH_NOTIFICATION = 0x4008630F" "BC_DEAD_BINDER_DONE = 0x40046310"
  by (simp_all add: BR_ERROR_def BR_OK_def BR_ACQUIRE_RESULT_def BR_ATTEMPT_ACQUIRE_def BR_FINISHED_def
      BR_CLEAR_DEATH_NOTIFICATION_DONE_def BC_ACQUIRE_RESULT_def BC_INCREFS_def BC_DECREFS_def BC_INCREFS_DONE_def
      BC_ACQUIRE_DONE_def BC_ATTEMPT_ACQUIRE_def BC_EXIT_LOOPER_def BC_CLEAR_DEATH_NOTIFICATION_def
      BC_DEAD_BINDER_DONE_def ioc_defs layout_defs)

text \<open>Every code is found by its number, so no two are equal, and says which protocol it belongs to.\<close>

lemma return_protocol_codes:
  "map ioc_nr binder_driver_return_protocol = map of_nat [0..<18]"
  "list_all (\<lambda>c. ioc_type c = of_char CHR ''r'') binder_driver_return_protocol"
  by (simp_all add: binder_driver_return_protocol_def proto_defs ioc_nr_def ioc_type_def upt_rec)

lemma command_protocol_codes:
  "map ioc_nr binder_driver_command_protocol = map of_nat [0..<17]"
  "list_all (\<lambda>c. ioc_type c = of_char CHR ''c'') binder_driver_command_protocol"
  by (simp_all add: binder_driver_command_protocol_def proto_defs ioc_nr_def ioc_type_def upt_rec)

lemma return_protocol_distinct: "distinct binder_driver_return_protocol"
proof -
  have "distinct (map ioc_nr binder_driver_return_protocol)"
    unfolding return_protocol_codes(1) by (simp add: upt_rec)
  then show ?thesis by (simp add: distinct_map)
qed

lemma command_protocol_distinct: "distinct binder_driver_command_protocol"
proof -
  have "distinct (map ioc_nr binder_driver_command_protocol)"
    unfolding command_protocol_codes(1) by (simp add: upt_rec)
  then show ?thesis by (simp add: distinct_map)
qed

lemma command_sizes:
  "ioc_size BC_TRANSACTION = 40" "ioc_size BC_REPLY = 40" "ioc_size BC_FREE_BUFFER = 4" "ioc_size BC_ACQUIRE = 4"
  "ioc_size BC_RELEASE = 4" "ioc_size BC_REGISTER_LOOPER = 0" "ioc_size BC_ENTER_LOOPER = 0"
  "ioc_size BC_REQUEST_DEATH_NOTIFICATION = 8"
  by (simp_all add: proto_defs ioc_size_def)

section \<open>The parser keeps to the protocol\<close>

text \<open>The codes that \<open>binder_parse\<close> has a case for.\<close>

definition parsed_codes :: "u32 list" where
  "parsed_codes = [BR_TRANSACTION, BR_REPLY, BR_DEAD_REPLY, BR_TRANSACTION_COMPLETE, BR_INCREFS, BR_ACQUIRE, BR_RELEASE,
     BR_DECREFS, BR_NOOP, BR_SPAWN_LOOPER, BR_DEAD_BINDER, BR_FAILED_REPLY]"

lemma parsed_codes_protocol: "set parsed_codes \<subseteq> set binder_driver_return_protocol"
  by (simp add: parsed_codes_def binder_driver_return_protocol_def)

lemma parsed_sizes:
  "ioc_size BR_TRANSACTION = sizeof_txn" "ioc_size BR_REPLY = sizeof_txn" "ioc_size BR_DEAD_REPLY = 0"
  "ioc_size BR_TRANSACTION_COMPLETE = 0" "ioc_size BR_INCREFS = sizeof_ptr_cookie" "ioc_size BR_ACQUIRE = sizeof_ptr_cookie"
  "ioc_size BR_RELEASE = sizeof_ptr_cookie" "ioc_size BR_DECREFS = sizeof_ptr_cookie" "ioc_size BR_NOOP = 0"
  "ioc_size BR_SPAWN_LOOPER = 0" "ioc_size BR_DEAD_BINDER = sizeof_uintptr" "ioc_size BR_FAILED_REPLY = 0"
  by (simp_all add: proto_defs ioc_size_def layout_defs)

lemma parse_cmd_next:
  assumes "parse_cmd K func death bs fin s = Some (Inr s')"
  shows "load32 (w_mem (ps_w s)) (ps_ptr s) \<in> set parsed_codes"
    and "ps_ptr s' = ps_ptr s + 4 + ioc_size (load32 (w_mem (ps_w s)) (ps_ptr s))"
  using assms by (auto simp: parse_cmd_def Let_def parsed_codes_def parsed_sizes split: if_splits)

lemma parse_cmd_stop:
  assumes "load32 (w_mem (ps_w s)) (ps_ptr s) \<notin> set parsed_codes"
  shows "parse_cmd K func death bs fin s = Some (Inl (-1, ps_bio s, ps_w s))"
  using assms by (simp add: parse_cmd_def Let_def parsed_codes_def)

text \<open>
  C15: the parser is typed by the protocol. A command word of the protocol names its payload by size,
  all codes are different, and one step of \<open>binder_parse\<close> that goes on has read a code of the protocol
  and has moved the cursor past the word and exactly the payload the code announces. The six codes of
  the protocol the parser has no case for, and every word that is no code at all, end it at once with
  the result -1 and without any effect.
\<close>

theorem parse_follows_codes:
  "distinct binder_driver_return_protocol \<and>
   (\<forall>s'. parse_cmd K func death bs fin s = Some (Inr s') \<longrightarrow>
      load32 (w_mem (ps_w s)) (ps_ptr s) \<in> set binder_driver_return_protocol \<and>
      ps_ptr s' = ps_ptr s + 4 + ioc_size (load32 (w_mem (ps_w s)) (ps_ptr s))) \<and>
   (load32 (w_mem (ps_w s)) (ps_ptr s) \<in> {BR_ERROR, BR_OK, BR_ACQUIRE_RESULT, BR_ATTEMPT_ACQUIRE, BR_FINISHED,
        BR_CLEAR_DEATH_NOTIFICATION_DONE} \<union> - set binder_driver_return_protocol \<longrightarrow>
      parse_cmd K func death bs fin s = Some (Inl (-1, ps_bio s, ps_w s)))"
proof (intro conjI allI impI)
  show "distinct binder_driver_return_protocol" by (rule return_protocol_distinct)
next
  fix s' assume "parse_cmd K func death bs fin s = Some (Inr s')"
  from parse_cmd_next [OF this] parsed_codes_protocol
  show "load32 (w_mem (ps_w s)) (ps_ptr s) \<in> set binder_driver_return_protocol"
    and "ps_ptr s' = ps_ptr s + 4 + ioc_size (load32 (w_mem (ps_w s)) (ps_ptr s))" by blast+
next
  have "{BR_ERROR, BR_OK, BR_ACQUIRE_RESULT, BR_ATTEMPT_ACQUIRE, BR_FINISHED, BR_CLEAR_DEATH_NOTIFICATION_DONE} \<inter> set parsed_codes = {}"
    by (simp add: parsed_codes_def proto_defs)
  moreover assume "load32 (w_mem (ps_w s)) (ps_ptr s) \<in> {BR_ERROR, BR_OK, BR_ACQUIRE_RESULT, BR_ATTEMPT_ACQUIRE, BR_FINISHED,
        BR_CLEAR_DEATH_NOTIFICATION_DONE} \<union> - set binder_driver_return_protocol"
  ultimately show "parse_cmd K func death bs fin s = Some (Inl (-1, ps_bio s, ps_w s))"
    using parsed_codes_protocol by (intro parse_cmd_stop) blast
qed

section \<open>What is sent is made of whole commands\<close>

text \<open>
  A buffer read the way the driver reads it: a command word, which must be one of the protocol, and as
  many bytes of payload as it announces, until the buffer is used up.
\<close>

function command_stream :: "u8 list \<Rightarrow> (u32 \<times> u8 list) list option" where
  "command_stream bs =
     (if bs = [] then Some []
      else if length bs < 4 then None
      else let c = from_le32 (take 4 bs); n = unat (ioc_size c); rest = drop 4 bs in
        if c \<notin> set binder_driver_command_protocol \<or> length rest < n then None
        else map_option (Cons (c, take n rest)) (command_stream (drop n rest)))"
  by auto
termination by (relation "measure length") auto

declare command_stream.simps [simp del]

lemma command_stream_Nil [simp]: "command_stream [] = Some []"
  by (simp add: command_stream.simps)

lemma command_stream_command:
  assumes "c \<in> set binder_driver_command_protocol" and "length p = unat (ioc_size c)"
  shows "command_stream (le32 c @ p @ rest) = map_option (Cons (c, p)) (command_stream rest)"
proof -
  have "le32 c \<noteq> []" using length_le32 [of c] by (metis list.size(3) zero_neq_numeral)
  then show ?thesis using assms by (subst command_stream.simps) simp
qed

lemma library_commands:
  "{BC_TRANSACTION, BC_REPLY, BC_FREE_BUFFER, BC_ACQUIRE, BC_RELEASE, BC_REGISTER_LOOPER, BC_ENTER_LOOPER,
    BC_REQUEST_DEATH_NOTIFICATION} \<subseteq> set binder_driver_command_protocol"
  by (simp add: binder_driver_command_protocol_def)

text \<open>The buffers the library builds, as streams.\<close>

lemma reference_streams:
  "command_stream (le32 BC_ACQUIRE @ le32 h) = Some [(BC_ACQUIRE, le32 h)]"
  "command_stream (le32 BC_RELEASE @ le32 h) = Some [(BC_RELEASE, le32 h)]"
  "command_stream (le32 BC_FREE_BUFFER @ le32 a) = Some [(BC_FREE_BUFFER, le32 a)]"
  "command_stream (le32 BC_REQUEST_DEATH_NOTIFICATION @ le32 h @ le32 cookie) =
     Some [(BC_REQUEST_DEATH_NOTIFICATION, le32 h @ le32 cookie)]"
  using library_commands command_stream_command [where rest = "[]"] by (simp_all add: command_sizes)

lemma transaction_streams:
  "command_stream (le32 BC_TRANSACTION @ txn_bytes t) = Some [(BC_TRANSACTION, txn_bytes t)]"
  "command_stream (le32 BC_FREE_BUFFER @ le32 a @ le32 BC_REPLY @ txn_bytes t) =
     Some [(BC_FREE_BUFFER, le32 a), (BC_REPLY, txn_bytes t)]"
  using library_commands command_stream_command [where rest = "[]"] command_stream_command
  by (simp_all add: command_sizes)

lemma looper_streams:
  "command_stream (le32 BC_ENTER_LOOPER) = Some [(BC_ENTER_LOOPER, [])]"
  "command_stream (le32 BC_REGISTER_LOOPER) = Some [(BC_REGISTER_LOOPER, [])]"
  using library_commands command_stream_command [where rest = "[]" and p = "[]"] by (simp_all add: command_sizes)

text \<open>\<open>w'\<close> is \<open>w\<close> after one write-only ioctl whose buffer is read by the driver as the commands \<open>cs\<close>.\<close>

definition sends_cmds :: "'k kernel \<Rightarrow> binder_state \<Rightarrow> (u32 \<times> u8 list) list \<Rightarrow> ('k, 's) world \<Rightarrow> ('k, 's) world \<Rightarrow> bool" where
  "sends_cmds K bs cs w w' \<longleftrightarrow> (\<exists>bytes P. sent K bs bytes P w w' \<and> command_stream bytes = Some cs)"

lemma sendsI: "sent K bs bytes P w w' \<Longrightarrow> command_stream bytes = Some cs \<Longrightarrow> sends_cmds K bs cs w w'"
  by (auto simp: sends_cmds_def)

lemma reference_sends:
  "sends_cmds K bs [(BC_ACQUIRE, le32 h)] w (binder_acquire K bs h w)"
  "sends_cmds K bs [(BC_RELEASE, le32 h)] w (binder_release K bs h w)"
  "sends_cmds K bs [(BC_REQUEST_DEATH_NOTIFICATION, le32 h @ le32 cookie)] w (binder_link_to_death K bs h cookie w)"
  using reference_commands_sent [of K bs h w cookie] reference_streams by (blast intro: sendsI)+

lemma done_sends:
  "b_flags reply AND BIO_F_SHARED \<noteq> 0 \<Longrightarrow>
   sends_cmds K bs [(BC_FREE_BUFFER, le32 (b_data0 reply))] w (snd (binder_done K bs reply w))"
  by (rule sendsI [OF done_sent reference_streams(3)])

lemma send_reply_sends:
  "\<exists>pid euid. sends_cmds K bs [(BC_FREE_BUFFER, le32 buffer), (BC_REPLY, txn_bytes (reply_txn reply status (w_sp w - 4) pid euid))]
     w (binder_send_reply K bs reply buffer status w)"
  using send_reply_sent [of K bs buffer reply status w] transaction_streams(2) by (blast intro: sendsI)

lemma loop_enter_sends:
  assumes "cmd \<in> {BC_ENTER_LOOPER, BC_REGISTER_LOOPER}"
  shows "sends_cmds K bs [(cmd, [])] (w\<lparr>w_sp := w_sp w - 128\<rparr>) (snd (snd (loop_enter K cmd bs w)))"
proof -
  let ?r = "w_sp w - 128" and ?w = "store_words [(w_sp w - 128, cmd)] (w\<lparr>w_sp := w_sp w - 128\<rparr>)"
  let ?bwr = "\<lparr>write_size = 4, write_consumed = 0, write_buffer = ?r, read_size = 0, read_consumed = 0, read_buffer = 0\<rparr>"
  obtain res bwr' m' k' where io: "k_write_read K (bs_fd bs) ?bwr (w_mem ?w) (w_k w) = (res, bwr', m', k')"
    using prod_cases4 by blast
  have "snd (snd (loop_enter K cmd bs w)) = w\<lparr>w_sp := ?r, w_mem := m', w_k := k'\<rparr>"
    using io by (simp add: loop_enter_def binder_write_def ioctl_bwr_def store_words_def Let_def)
  then have "sent K bs (le32 cmd) (\<lambda>_. True) (w\<lparr>w_sp := ?r\<rparr>) (snd (snd (loop_enter K cmd bs w)))"
    unfolding sent_def using io
    by (intro exI [of _ ?bwr] exI [of _ "w_mem ?w"]) (simp add: load_bytes_le32 store_words_def)
  then show ?thesis using assms looper_streams by (auto intro: sendsI)
qed

text \<open>The request of \<open>binder_call\<close>, as it lies in memory when the loop is entered.\<close>

lemma binder_call_sends:
  assumes "\<not> bio_overflowed msg"
  shows "\<exists>readbuf bwr w1 t. binder_call K death bs msg reply target code w =
      map_option (\<lambda>(res, reply, w'). (res, reply, w'\<lparr>w_sp := w_sp w\<rparr>)) (call_loop K death bs readbuf bwr reply w1)
    \<and> write_consumed bwr = 0
    \<and> command_stream (load_bytes (w_mem w1) (write_buffer bwr) (unat (write_size bwr))) = Some [(BC_TRANSACTION, txn_bytes t)]
    \<and> t_target t = target \<and> t_code t = code \<and> t_data_size t = of_nat (bio_used msg) \<and> t_buffer t = b_data0 msg
    \<and> t_offsets_size t = b_offs msg - b_offs0 msg \<and> t_offsets t = b_offs0 msg
    \<and> w_k w1 = w_k w \<and> w_app w1 = w_app w"
proof -
  obtain cookie pid euid where "load_bytes (w_mem (request_world msg target code w)) (w_sp w - 172 + 128) 44 =
      le32 BC_TRANSACTION @ txn_bytes (request_txn msg target code cookie pid euid)"
    using request_sent by blast
  then show ?thesis
    using binder_call_loop [OF assms, of K death bs reply target code w] transaction_streams(1)
    by (intro exI [of _ "w_sp w - 172"] exI [of _ "(request_bwr w)\<lparr>read_size := 0, read_buffer := 0\<rparr>"]
        exI [of _ "request_world msg target code w"] exI [of _ "request_txn msg target code cookie pid euid"])
      (simp add: request_bwr_def, simp add: request_txn_def)
qed

text \<open>
  C16: everything the library sends is made of whole commands of the protocol. Read the way the driver
  reads it, by the size in each command word, the buffer of \<open>binder_acquire\<close>, \<open>binder_release\<close> and
  \<open>binder_link_to_death\<close> is one command with the handle, that of \<open>binder_done\<close> on a borrowed parcel
  frees its buffer, that of \<open>binder_send_reply\<close> frees the request's buffer and then replies, the loops
  announce themselves with one command, and the first ioctl of \<open>binder_call\<close> carries one transaction with
  the target, the code and the parcel of the message.
\<close>

theorem commands_well_typed:
  "sends_cmds K bs [(BC_ACQUIRE, le32 h)] w (binder_acquire K bs h w)
   \<and> sends_cmds K bs [(BC_RELEASE, le32 h)] w (binder_release K bs h w)
   \<and> sends_cmds K bs [(BC_REQUEST_DEATH_NOTIFICATION, le32 h @ le32 cookie)] w (binder_link_to_death K bs h cookie w)
   \<and> (b_flags reply AND BIO_F_SHARED \<noteq> 0 \<longrightarrow>
        sends_cmds K bs [(BC_FREE_BUFFER, le32 (b_data0 reply))] w (snd (binder_done K bs reply w)))
   \<and> (\<exists>t. sends_cmds K bs [(BC_FREE_BUFFER, le32 buffer), (BC_REPLY, txn_bytes t)] w (binder_send_reply K bs reply buffer status w)
        \<and> t_flags t = (if status = 0 then 0 else TF_STATUS_CODE) \<and> (status = 0 \<longrightarrow> t_buffer t = b_data0 reply))
   \<and> sends_cmds K bs [(BC_ENTER_LOOPER, [])] (w\<lparr>w_sp := w_sp w - 128\<rparr>) (snd (snd (loop_enter K BC_ENTER_LOOPER bs w)))
   \<and> sends_cmds K bs [(BC_REGISTER_LOOPER, [])] (w\<lparr>w_sp := w_sp w - 128\<rparr>) (snd (snd (loop_enter K BC_REGISTER_LOOPER bs w)))
   \<and> (\<not> bio_overflowed msg \<longrightarrow>
        (\<exists>readbuf bwr w1 t. binder_call K death bs msg reply target code w =
           map_option (\<lambda>(res, reply, w'). (res, reply, w'\<lparr>w_sp := w_sp w\<rparr>)) (call_loop K death bs readbuf bwr reply w1)
         \<and> write_consumed bwr = 0
         \<and> command_stream (load_bytes (w_mem w1) (write_buffer bwr) (unat (write_size bwr))) = Some [(BC_TRANSACTION, txn_bytes t)]
         \<and> t_target t = target \<and> t_code t = code \<and> t_data_size t = of_nat (bio_used msg) \<and> t_buffer t = b_data0 msg
         \<and> t_offsets_size t = b_offs msg - b_offs0 msg \<and> t_offsets t = b_offs0 msg
         \<and> w_k w1 = w_k w \<and> w_app w1 = w_app w))"
proof (intro conjI impI)
  obtain pid euid where "sends_cmds K bs [(BC_FREE_BUFFER, le32 buffer),
      (BC_REPLY, txn_bytes (reply_txn reply status (w_sp w - 4) pid euid))] w (binder_send_reply K bs reply buffer status w)"
    using send_reply_sends by blast
  then show "\<exists>t. sends_cmds K bs [(BC_FREE_BUFFER, le32 buffer), (BC_REPLY, txn_bytes t)] w (binder_send_reply K bs reply buffer status w)
      \<and> t_flags t = (if status = 0 then 0 else TF_STATUS_CODE) \<and> (status = 0 \<longrightarrow> t_buffer t = b_data0 reply)"
    by (rule_tac exI, rule_tac conjI, assumption) (simp add: reply_txn_def)
qed (simp_all only: reference_sends done_sends loop_enter_sends insert_iff simp_thms, rule binder_call_sends)

theorem commands_well_typed_witness:
  "sends_cmds null_kernel null_bs [(BC_FREE_BUFFER, le32 0x40000000)] null_world
     (snd (binder_done null_kernel null_bs (zero_bio\<lparr>b_flags := BIO_F_SHARED, b_data0 := 0x40000000\<rparr>) null_world))"
  using commands_well_typed [where K = null_kernel and bs = null_bs and w = null_world
      and reply = "zero_bio\<lparr>b_flags := BIO_F_SHARED, b_data0 := 0x40000000\<rparr>"]
  by (simp add: BIO_F_SHARED_def)

text \<open>A buffer that holds a \<open>BR_INCREFS\<close>, and one that holds zeros.\<close>

definition increfs_state :: "u32 \<Rightarrow> (nat, unit) parse_state" where
  "increfs_state p = \<lparr>ps_ptr = p, ps_r = 1, ps_bio_set = False, ps_bio = zero_bio,
     ps_w = null_world\<lparr>w_mem := store32 0x1000 BR_INCREFS (\<lambda>_. 0)\<rparr>\<rparr>"

theorem parse_follows_codes_witness:
  "(\<exists>s'. parse_cmd null_kernel None no_death null_bs 0x2000 (increfs_state 0x1000) = Some (Inr s') \<and> ps_ptr s' = 0x100C)
   \<and> parse_cmd null_kernel None no_death null_bs 0x2000 (increfs_state 0x1800) =
       Some (Inl (-1, zero_bio, null_world\<lparr>w_mem := store32 0x1000 BR_INCREFS (\<lambda>_. 0)\<rparr>))"
proof
  have "load32 (store32 0x1000 BR_INCREFS (\<lambda>_. 0)) 0x1000 = BR_INCREFS" by simp
  then obtain s' where s': "parse_cmd null_kernel None no_death null_bs 0x2000 (increfs_state 0x1000) = Some (Inr s')"
    by (auto simp: parse_cmd_def increfs_state_def proto_defs)
  then show "\<exists>s'. parse_cmd null_kernel None no_death null_bs 0x2000 (increfs_state 0x1000) = Some (Inr s') \<and> ps_ptr s' = 0x100C"
    using parse_follows_codes [where K = null_kernel and func = None and death = no_death and bs = null_bs and fin = "0x2000"
        and s = "increfs_state 0x1000"]
    by (simp add: increfs_state_def parsed_sizes layout_defs)
  have "load32 (store32 0x1000 BR_INCREFS (\<lambda>_. 0)) 0x1800 = 0"
    by (simp add: load32_store32_other) (simp add: load32_def load_bytes_def upt_rec)
  then show "parse_cmd null_kernel None no_death null_bs 0x2000 (increfs_state 0x1800) =
       Some (Inl (-1, zero_bio, null_world\<lparr>w_mem := store32 0x1000 BR_INCREFS (\<lambda>_. 0)\<rparr>))"
    using parse_follows_codes [where K = null_kernel and func = None and death = no_death and bs = null_bs and fin = "0x2000"
        and s = "increfs_state 0x1800"]
    by (simp add: increfs_state_def binder_driver_return_protocol_def proto_defs)
qed

end
