(* ===== verification/Service_Manager.thy ===== *)
theory Service_Manager
  imports Binder_Service
begin

text \<open>
  The service manager, \<open>binder/service_manager.c\<close>: the registry of services as the linked
  list of \<open>struct svcinfo\<close> the program keeps on its heap, the functions that search and
  extend it, the death callback and the handler of incoming transactions. The heap is a map
  from addresses to \<open>svcinfo\<close> records; names in messages are read from byte memory. The
  messages the program logs are not modelled.
\<close>

section \<open>Constants and state\<close>

definition BINDER_SERVICE_MANAGER :: u32 where "BINDER_SERVICE_MANAGER = 0"
definition SVC_MGR_NAME :: string where "SVC_MGR_NAME = ''android.os.IServiceManager''"

definition PING_TRANSACTION :: u32 where
  "PING_TRANSACTION = B_PACK_CHARS (of_char CHR ''_'') (of_char CHR ''P'') (of_char CHR ''N'') (of_char CHR ''G'')"

definition SVC_MGR_GET_SERVICE :: u32 where "SVC_MGR_GET_SERVICE = 1"
definition SVC_MGR_CHECK_SERVICE :: u32 where "SVC_MGR_CHECK_SERVICE = 2"
definition SVC_MGR_ADD_SERVICE :: u32 where "SVC_MGR_ADD_SERVICE = 3"
definition SVC_MGR_LIST_SERVICES :: u32 where "SVC_MGR_LIST_SERVICES = 4"

definition AID_USER :: u32 where "AID_USER = 100000"
definition AID_ISOLATED_START :: u32 where "AID_ISOLATED_START = 99000"
definition AID_ISOLATED_END :: u32 where "AID_ISOLATED_END = 99999"

lemmas svc_consts = PING_TRANSACTION_def B_PACK_CHARS_def SVC_MGR_GET_SERVICE_def SVC_MGR_CHECK_SERVICE_def
  SVC_MGR_ADD_SERVICE_def SVC_MGR_LIST_SERVICES_def

text \<open>
  \<open>struct svcinfo\<close> is 24 bytes and the name: \<open>next\<close> at 0, \<open>handle\<close> at 4, \<open>death\<close> at
  8 (\<open>func\<close> and \<open>ptr\<close>), \<open>allow_isolated\<close> at 16, \<open>len\<close> at 20. \<open>death.func\<close>
  is \<open>svcinfo_death\<close> in every record the program makes. \<open>si_name\<close> is the \<open>len + 1\<close>
  units allocated after it.
\<close>

record svcinfo =
  si_next :: u32
  si_handle :: u32
  si_death_ptr :: u32
  si_allow_isolated :: int
  si_len :: u32
  si_name :: "u16 list"

definition sizeof_svcinfo :: u32 where "sizeof_svcinfo = 24"
definition offsetof_death :: u32 where "offsetof_death = 8"

record svc_state =
  svclist :: u32
  svcmgr_handle :: u32
  svc_heap :: "u32 \<Rightarrow> svcinfo option"

section \<open>Strings\<close>

text \<open>\<open>x\<close> is NULL or the units from where it points on; a unit is cut to its low byte.\<close>

fun str8_copy :: "nat \<Rightarrow> u16 list \<Rightarrow> string" where
  "str8_copy (Suc n) (c # cs) = (if c \<noteq> 0 then char_of (unat c) # str8_copy n cs else [])"
| "str8_copy _ _ = []"

definition str8 :: "u16 list option \<Rightarrow> u32 \<Rightarrow> string" where
  "str8 x x_len =
     (let lim = (if x_len < 127 then x_len else 127)
      in case x of None \<Rightarrow> [] | Some cs \<Rightarrow> str8_copy (unat lim) cs)"

text \<open>Both arguments up to and including their terminating zero; plain \<open>char\<close> is unsigned on ARM.\<close>

fun str16eq :: "u16 list \<Rightarrow> string \<Rightarrow> int" where
  "str16eq (a # as) (b # bs) =
     (if a \<noteq> 0 \<and> b \<noteq> CHR 0x00
      then (if a \<noteq> of_char b then 0 else str16eq as bs)
      else if a \<noteq> 0 \<or> b \<noteq> CHR 0x00 then 0 else 1)"
| "str16eq _ _ = 0"

section \<open>Permission checks\<close>

definition check_mac_perms :: "u32 \<Rightarrow> string option \<Rightarrow> string \<Rightarrow> string option \<Rightarrow> bool" where
  "check_mac_perms spid tctx perm name = True"

definition check_mac_perms_from_getcon :: "u32 \<Rightarrow> string \<Rightarrow> bool" where
  "check_mac_perms_from_getcon spid perm = True"

definition check_mac_perms_from_lookup :: "u32 \<Rightarrow> string \<Rightarrow> string \<Rightarrow> bool" where
  "check_mac_perms_from_lookup spid perm name = True"

definition name_arg :: "mem \<Rightarrow> u32 \<Rightarrow> u16 list option" where
  "name_arg m s = (if s = 0 then None else Some (u16s_at m s 127))"

definition svc_can_register :: "mem \<Rightarrow> u32 \<Rightarrow> u32 \<Rightarrow> u32 \<Rightarrow> int" where
  "svc_can_register m name name_len spid =
     (if check_mac_perms_from_lookup spid ''add'' (str8 (name_arg m name) name_len) then 1 else 0)"

definition svc_can_list :: "u32 \<Rightarrow> int" where
  "svc_can_list spid = (if check_mac_perms_from_getcon spid ''list'' then 1 else 0)"

definition svc_can_find :: "mem \<Rightarrow> u32 \<Rightarrow> u32 \<Rightarrow> u32 \<Rightarrow> int" where
  "svc_can_find m name name_len spid =
     (if check_mac_perms_from_lookup spid ''find'' (str8 (name_arg m name) name_len) then 1 else 0)"

section \<open>The list\<close>

text \<open>
  The walk of \<open>find_svc\<close>. \<open>None\<close> is a walk that does not end or leaves the heap; the
  invariant below excludes both.
\<close>

partial_function (option) find_from :: "mem \<Rightarrow> (u32 \<Rightarrow> svcinfo option) \<Rightarrow> u32 \<Rightarrow> u32 \<Rightarrow> u32 \<Rightarrow> u32 option" where
  "find_from m h s16 len si =
     (if si = 0 then Some 0
      else Option.bind (h si) (\<lambda>v.
        if len = si_len v \<and> u16s_at m s16 (unat len) = take (unat len) (si_name v) then Some si
        else find_from m h s16 len (si_next v)))"

definition find_svc :: "mem \<Rightarrow> svc_state \<Rightarrow> u32 \<Rightarrow> u32 \<Rightarrow> u32 option" where
  "find_svc m st s16 len = find_from m (svc_heap st) s16 len (svclist st)"

definition set_svc :: "u32 \<Rightarrow> (svcinfo \<Rightarrow> svcinfo) \<Rightarrow> svc_state \<Rightarrow> svc_state" where
  "set_svc si f st = st\<lparr>svc_heap := (svc_heap st)(si := map_option f (svc_heap st si))\<rparr>"

text \<open>A pointer that is not one of the program's records has no meaning; the call then does nothing.\<close>

definition svcinfo_death :: "'k kernel \<Rightarrow> binder_state \<Rightarrow> u32 \<Rightarrow> ('k, svc_state) world \<Rightarrow> ('k, svc_state) world" where
  "svcinfo_death K bs si w =
     (case svc_heap (w_app w) si of None \<Rightarrow> w
      | Some v \<Rightarrow>
        if si_handle v \<noteq> 0
        then let w = binder_release K bs (si_handle v) w
             in w\<lparr>w_app := set_svc si (\<lambda>v. v\<lparr>si_handle := 0\<rparr>) (w_app w)\<rparr>
        else w)"

text \<open>The cookie of a death notification is \<open>&si->death\<close>.\<close>

definition svc_death :: "'k kernel \<Rightarrow> ('k, svc_state) death_call" where
  "svc_death K bs cookie w =
     (case svc_heap (w_app w) (cookie - offsetof_death) of None \<Rightarrow> w
      | Some v \<Rightarrow> svcinfo_death K bs (si_death_ptr v) w)"

definition svcmgr_id :: "u16 list" where
  "svcmgr_id = map of_char ''android.os.IServiceManager''"

section \<open>Finding and adding\<close>

definition do_find_service :: "mem \<Rightarrow> svc_state \<Rightarrow> u32 \<Rightarrow> u32 \<Rightarrow> u32 \<Rightarrow> u32 \<Rightarrow> u32 option" where
  "do_find_service m st s len uid spid =
     (if svc_can_find m s len spid = 0 then Some 0
      else Option.bind (find_svc m st s len) (\<lambda>si.
        if si = 0 then Some 0
        else Option.bind (svc_heap st si) (\<lambda>v.
          if si_handle v = 0 then Some 0
          else if si_allow_isolated v = 0 \<and>
                  (let appid = uid mod AID_USER in AID_ISOLATED_START \<le> appid \<and> appid \<le> AID_ISOLATED_END)
               then Some 0
          else Some (si_handle v))))"

definition do_add_service ::
    "'k kernel \<Rightarrow> binder_state \<Rightarrow> u32 \<Rightarrow> u32 \<Rightarrow> u32 \<Rightarrow> u32 \<Rightarrow> int \<Rightarrow> u32 \<Rightarrow> ('k, svc_state) world \<Rightarrow>
     (int \<times> ('k, svc_state) world) option" where
  "do_add_service K bs s len handle uid allow_isolated spid w =
     (if handle = 0 \<or> len = 0 \<or> len > 127 then Some (-1, w)
      else if svc_can_register (w_mem w) s len spid = 0 then Some (-1, w)
      else Option.bind (find_svc (w_mem w) (w_app w) s len) (\<lambda>si.
        let finish = (\<lambda>si w. binder_link_to_death K bs handle (si + offsetof_death) (binder_acquire K bs handle w)) in
        if si \<noteq> 0 then
          Option.bind (svc_heap (w_app w) si) (\<lambda>v.
            let w = (if si_handle v \<noteq> 0 then svcinfo_death K bs si w else w);
                w = w\<lparr>w_app := set_svc si (\<lambda>v. v\<lparr>si_handle := handle\<rparr>) (w_app w)\<rparr>
            in Some (0, finish si w))
        else
          let (si, k) = k_malloc K (sizeof_svcinfo + (len + 1) * 2) (w_k w) in
          if si = 0 then Some (-1, w\<lparr>w_k := k\<rparr>)
          else
            let v = \<lparr>si_next = svclist (w_app w), si_handle = handle, si_death_ptr = si,
                     si_allow_isolated = allow_isolated, si_len = len,
                     si_name = (u16s_at (w_mem w) s (unat len + 1))[unat len := 0]\<rparr>;
                st = (w_app w)\<lparr>svclist := si, svc_heap := (svc_heap (w_app w))(si := Some v)\<rparr>
            in Some (0, finish si (w\<lparr>w_k := k, w_app := st\<rparr>))))"

section \<open>The handler\<close>

partial_function (option) skip_svcs :: "(u32 \<Rightarrow> svcinfo option) \<Rightarrow> u32 \<Rightarrow> u32 \<Rightarrow> u32 option" where
  "skip_svcs h n si =
     (if n > 0 \<and> si \<noteq> 0 then Option.bind (h si) (\<lambda>v. skip_svcs h (n - 1) (si_next v)) else Some si)"

definition put_reply :: "(binder_io \<times> mem \<Rightarrow> binder_io \<times> mem) \<Rightarrow> binder_io \<Rightarrow> ('k, 's) world \<Rightarrow>
    int \<times> binder_io \<times> ('k, 's) world" where
  "put_reply op reply w = (let (reply, m) = op (reply, w_mem w) in (0, reply, w\<lparr>w_mem := m\<rparr>))"

definition svcmgr_handler :: "'k kernel \<Rightarrow> ('k, svc_state) binder_handler" where
  "svcmgr_handler K bs txn msg reply w =
     (let t = load_txn (w_mem w) txn; m = w_mem w in
      if t_target t \<noteq> svcmgr_handle (w_app w) then Some (-1, reply, w)
      else if t_code t = PING_TRANSACTION then Some (0, reply, w)
      else
        let (strict_policy, msg) = bio_get_uint32 m msg;
            (s, len, msg) = bio_get_string16 m msg in
        if s = 0 then Some (-1, reply, w)
        else if len \<noteq> of_nat (length svcmgr_id) \<or> u16s_at m s (length svcmgr_id) \<noteq> svcmgr_id
        then Some (-1, reply, w)
        else if t_code t = SVC_MGR_GET_SERVICE \<or> t_code t = SVC_MGR_CHECK_SERVICE then
          let (s, len, msg) = bio_get_string16 m msg in
          if s = 0 then Some (-1, reply, w)
          else map_option (\<lambda>handle.
                 if handle = 0 then put_reply (bio_put_uint32 0) reply w
                 else put_reply (bio_put_ref handle) reply w)
               (do_find_service m (w_app w) s len (t_sender_euid t) (t_sender_pid t))
        else if t_code t = SVC_MGR_ADD_SERVICE then
          let (s, len, msg) = bio_get_string16 m msg in
          if s = 0 then Some (-1, reply, w)
          else
            let (handle, msg) = bio_get_ref m msg;
                (ai, msg) = bio_get_uint32 m msg
            in map_option (\<lambda>(r, w).
                 if r \<noteq> 0 then (-1, reply, w) else put_reply (bio_put_uint32 0) reply w)
               (do_add_service K bs s len handle (t_sender_euid t) (if ai \<noteq> 0 then 1 else 0)
                  (t_sender_pid t) w)
        else if t_code t = SVC_MGR_LIST_SERVICES then
          let (n, msg) = bio_get_uint32 m msg in
          if svc_can_list (t_sender_pid t) = 0 then Some (-1, reply, w)
          else Option.bind (skip_svcs (svc_heap (w_app w)) n (svclist (w_app w))) (\<lambda>si.
            if si \<noteq> 0
            then map_option (\<lambda>v. put_reply (bio_put_string16 (Some (si_name v))) reply w) (svc_heap (w_app w) si)
            else Some (-1, reply, w))
        else Some (-1, reply, w))"

section \<open>The program\<close>

text \<open>The result is what \<open>main\<close> returns.\<close>

definition svcmgr_main :: "'k kernel \<Rightarrow> ('k, svc_state) world \<Rightarrow> (int \<times> ('k, svc_state) world) option" where
  "svcmgr_main K w =
     (let (obs, w) = binder_open K (128 * 1024) w in
      case obs of None \<Rightarrow> Some (-1, w)
      | Some bs \<Rightarrow>
        let (res, w) = binder_become_context_manager K bs w in
        if res \<noteq> 0 then Some (-1, w)
        else
          let w = w\<lparr>w_app := (w_app w)\<lparr>svcmgr_handle := BINDER_SERVICE_MANAGER\<rparr>\<rparr>
          in map_option (\<lambda>w. (0, w)) (binder_loop K (Some (svcmgr_handler K)) (svc_death K) bs w))"

end
