(* ===== verification/Service_Registry.thy ===== *)
theory Service_Registry
  imports Service_Manager
begin

text \<open>
  The service manager's registry is correct. \<open>svc_inv\<close> is its data structure invariant: the
  list is a finite chain of distinct live records with distinct, bounded, terminated names.
  Under it the linked list is an abstract map from names to registrations, and
  \<open>find_svc\<close>, \<open>do_find_service\<close>, \<open>do_add_service\<close> and the death callback are
  lookups and updates of that map.
\<close>

section \<open>The chain of records\<close>

primrec svc_chain :: "(u32 \<Rightarrow> svcinfo option) \<Rightarrow> u32 \<Rightarrow> u32 list \<Rightarrow> bool" where
  "svc_chain h p [] \<longleftrightarrow> p = 0"
| "svc_chain h p (a # as) \<longleftrightarrow> p = a \<and> a \<noteq> 0 \<and> (\<exists>v. h a = Some v \<and> svc_chain h (si_next v) as)"

definition svc_key :: "svcinfo \<Rightarrow> u16 list" where
  "svc_key v = take (unat (si_len v)) (si_name v)"

definition svcinfo_ok :: "u32 \<Rightarrow> svcinfo \<Rightarrow> bool" where
  "svcinfo_ok a v \<longleftrightarrow> 1 \<le> unat (si_len v) \<and> unat (si_len v) \<le> 127 \<and>
     length (si_name v) = unat (si_len v) + 1 \<and> si_name v ! unat (si_len v) = 0 \<and> si_death_ptr v = a"

definition svc_at :: "svc_state \<Rightarrow> u32 \<Rightarrow> svcinfo" where
  "svc_at st a = the (svc_heap st a)"

definition svc_list :: "svc_state \<Rightarrow> u32 list \<Rightarrow> bool" where
  "svc_list st ps \<longleftrightarrow> svc_chain (svc_heap st) (svclist st) ps \<and> distinct ps \<and>
     (\<forall>a\<in>set ps. svcinfo_ok a (svc_at st a)) \<and> distinct (map (\<lambda>a. svc_key (svc_at st a)) ps) \<and>
     (\<forall>a. a \<notin> set ps \<longrightarrow> svc_heap st a = None)"

lemma svc_chain_unique: "svc_chain h p ps \<Longrightarrow> svc_chain h p qs \<Longrightarrow> ps = qs"
proof (induction ps arbitrary: p qs)
  case Nil
  then show ?case by (cases qs) auto
next
  case (Cons a ps)
  then show ?case by (cases qs) auto
qed

lemma svc_chain_cong:
  "svc_chain h p ps \<Longrightarrow> (\<And>a. a \<in> set ps \<Longrightarrow> \<exists>v. h' a = Some v \<and> si_next v = si_next (the (h a))) \<Longrightarrow>
   svc_chain h' p ps"
proof (induction ps arbitrary: p)
  case (Cons a ps)
  obtain v where v: "h a = Some v" "svc_chain h (si_next v) ps" using Cons.prems(1) by auto
  obtain v' where v': "h' a = Some v'" "si_next v' = si_next v" using Cons.prems(2) [of a] v(1) by auto
  have "svc_chain h' (si_next v) ps" using Cons.IH [OF v(2)] Cons.prems(2) by auto
  then show ?case using Cons.prems(1) v' by auto
qed simp

lemma svc_chain_heap: "svc_chain h p ps \<Longrightarrow> a \<in> set ps \<Longrightarrow> a \<noteq> 0 \<and> h a = Some (the (h a))"
  by (induction ps arbitrary: p) auto

section \<open>Searching\<close>

lemma find_from_chain:
  assumes "svc_chain h p ps"
  shows "find_from m h s len p =
     Some (case find (\<lambda>a. len = si_len (the (h a)) \<and>
              u16s_at m s (unat len) = svc_key (the (h a))) ps of None \<Rightarrow> 0 | Some a \<Rightarrow> a)"
  using assms
proof (induction ps arbitrary: p)
  case Nil
  then show ?case by (subst find_from.simps) simp
next
  case (Cons a ps)
  then show ?case by (subst find_from.simps) (auto simp: svc_key_def)
qed

lemma svcinfo_ok_len: "svcinfo_ok a v \<Longrightarrow> length (svc_key v) = unat (si_len v)"
  by (simp add: svcinfo_ok_def svc_key_def)

text \<open>
  The name in the message and its length agree with those of a record exactly when the names
  are the same list of units.
\<close>

lemma length_u16s_at [simp]: "length (u16s_at m s n) = n"
  by (simp add: u16s_at_def)

lemma find_svc_list:
  assumes "svc_list st ps"
  shows "find_svc m st s len =
     Some (case find (\<lambda>a. svc_key (svc_at st a) = u16s_at m s (unat len)) ps of None \<Rightarrow> 0 | Some a \<Rightarrow> a)"
proof -
  have eq: "len = si_len (svc_at st a) \<and> u16s_at m s (unat len) = svc_key (svc_at st a) \<longleftrightarrow>
      svc_key (svc_at st a) = u16s_at m s (unat len)" if "a \<in> set ps" for a
  proof -
    have "length (svc_key (svc_at st a)) = unat (si_len (svc_at st a))"
      using assms that svcinfo_ok_len by (auto simp: svc_list_def)
    then show ?thesis by (metis length_u16s_at u32_eq_iff)
  qed
  have "find (\<lambda>a. len = si_len (svc_at st a) \<and> u16s_at m s (unat len) = svc_key (svc_at st a)) ps =
        find (\<lambda>a. svc_key (svc_at st a) = u16s_at m s (unat len)) ps"
    by (rule find_cong) (auto simp: eq)
  then show ?thesis
    using find_from_chain [of "svc_heap st" "svclist st" ps m s len] assms
    by (simp add: find_svc_def svc_list_def svc_at_def)
qed

section \<open>The abstract registry\<close>

text \<open>A registration is a handle (0 once the service has died) and whether isolated processes may use it.\<close>

type_synonym registry = "u16 list \<Rightarrow> (u32 \<times> bool) option"

definition svc_reg :: "svcinfo \<Rightarrow> u32 \<times> bool" where
  "svc_reg v = (si_handle v, si_allow_isolated v \<noteq> 0)"

definition svc_regs :: "svc_state \<Rightarrow> u32 list \<Rightarrow> registry" where
  "svc_regs st ps = map_of (map (\<lambda>a. (svc_key (svc_at st a), svc_reg (svc_at st a))) ps)"

definition isolated :: "u32 \<Rightarrow> bool" where
  "isolated uid \<longleftrightarrow> 99000 \<le> unat uid mod 100000"

definition reg_find :: "(u32 \<times> bool) option \<Rightarrow> u32 \<Rightarrow> u32" where
  "reg_find r uid = (case r of None \<Rightarrow> 0 | Some (h, ai) \<Rightarrow> if ai \<or> \<not> isolated uid then h else 0)"

definition reg_add :: "u16 list \<Rightarrow> u32 \<Rightarrow> bool \<Rightarrow> registry \<Rightarrow> registry" where
  "reg_add nm h ai R = R(nm \<mapsto> (h, case R nm of None \<Rightarrow> ai | Some (_, ai') \<Rightarrow> ai'))"

lemma isolated_word:
  "(let appid = uid mod AID_USER in AID_ISOLATED_START \<le> appid \<and> appid \<le> AID_ISOLATED_END) \<longleftrightarrow> isolated uid"
proof -
  have "unat (uid mod 100000) = unat uid mod 100000" by (simp add: unat_mod_distrib)
  moreover have "unat uid mod 100000 < 100000" by simp
  ultimately show ?thesis
    by (auto simp: isolated_def AID_USER_def AID_ISOLATED_START_def AID_ISOLATED_END_def word_le_nat_alt Let_def)
qed

lemma svc_regs_find:
  "svc_regs st ps nm =
     map_option (\<lambda>a. svc_reg (svc_at st a)) (find (\<lambda>a. svc_key (svc_at st a) = nm) ps)"
  unfolding svc_regs_def by (induction ps) auto

lemma find_SomeD: "find P xs = Some x \<Longrightarrow> P x \<and> x \<in> set xs"
  by (induction xs) (auto split: if_splits)

lemma do_find_service_reg:
  assumes "svc_list st ps"
  shows "do_find_service m st s len uid spid = Some (reg_find (svc_regs st ps (u16s_at m s (unat len))) uid)"
proof (cases "find (\<lambda>a. svc_key (svc_at st a) = u16s_at m s (unat len)) ps")
  case None
  then show ?thesis
    by (simp add: do_find_service_def svc_can_find_def check_mac_perms_from_lookup_def
        find_svc_list [OF assms] svc_regs_find reg_find_def)
next
  case (Some a)
  then have "a \<noteq> 0" "svc_heap st a = Some (svc_at st a)"
    using assms svc_chain_heap find_SomeD unfolding svc_list_def svc_at_def by fastforce+
  then show ?thesis
    by (simp add: do_find_service_def svc_can_find_def check_mac_perms_from_lookup_def
        find_svc_list [OF assms] svc_regs_find reg_find_def Some isolated_word svc_reg_def)
qed

section \<open>Updating the list\<close>

lemma svc_list_heap:
  "svc_list st ps \<Longrightarrow> a \<in> set ps \<Longrightarrow> a \<noteq> 0 \<and> svc_heap st a = Some (svc_at st a) \<and> svcinfo_ok a (svc_at st a)"
  using svc_chain_heap unfolding svc_list_def svc_at_def by fastforce

lemma svc_find_key:
  assumes "svc_list st ps" and "a \<in> set ps"
  shows "find (\<lambda>b. svc_key (svc_at st b) = svc_key (svc_at st a)) ps = Some a"
proof -
  have "find (\<lambda>b. svc_key (svc_at st b) = svc_key (svc_at st a)) ps \<noteq> None"
    using assms(2) by (auto simp: find_None_iff)
  then obtain b where b: "find (\<lambda>b. svc_key (svc_at st b) = svc_key (svc_at st a)) ps = Some b" by blast
  then have "svc_key (svc_at st b) = svc_key (svc_at st a)" "b \<in> set ps"
    using find_SomeD by fastforce+
  then have "b = a"
    using assms inj_onD [of "\<lambda>a. svc_key (svc_at st a)" "set ps" b a]
    by (simp add: svc_list_def distinct_map)
  then show ?thesis using b by simp
qed

lemma set_handle_list:
  fixes h :: u32
  assumes l: "svc_list st ps" and a: "a \<in> set ps"
  defines "st' \<equiv> set_svc a (\<lambda>v. v\<lparr>si_handle := h\<rparr>) st"
  shows "svc_list st' ps"
    and "svc_regs st' ps = (svc_regs st ps)(svc_key (svc_at st a) \<mapsto> (h, si_allow_isolated (svc_at st a) \<noteq> 0))"
    and "svclist st' = svclist st" and "svcmgr_handle st' = svcmgr_handle st"
    and "\<And>b. svc_key (svc_at st' b) = svc_key (svc_at st b)"
proof -
  have at': "svc_at st' b = (if b = a then (svc_at st a)\<lparr>si_handle := h\<rparr> else svc_at st b)" for b
    using svc_list_heap [OF l a] by (cases "svc_heap st a") (simp_all add: st'_def set_svc_def svc_at_def)
  show key: "svc_key (svc_at st' b) = svc_key (svc_at st b)" for b
    by (simp add: at' svc_key_def)
  show sel: "svclist st' = svclist st" "svcmgr_handle st' = svcmgr_handle st"
    by (simp_all add: st'_def set_svc_def)
  have "\<exists>v. svc_heap st' b = Some v \<and> si_next v = si_next (the (svc_heap st b))" if "b \<in> set ps" for b
    using svc_list_heap [OF l that] by (auto simp: st'_def set_svc_def)
  then have "svc_chain (svc_heap st') (svclist st') ps"
    using l svc_chain_cong sel unfolding svc_list_def by metis
  moreover have "svcinfo_ok b (svc_at st' b)" if "b \<in> set ps" for b
    using svc_list_heap [OF l that] by (auto simp: at' svcinfo_ok_def)
  moreover have "svc_heap st' b = None" if "b \<notin> set ps" for b
    using l a that by (auto simp: svc_list_def st'_def set_svc_def)
  ultimately show "svc_list st' ps"
    using l unfolding svc_list_def key by simp
  show "svc_regs st' ps = (svc_regs st ps)(svc_key (svc_at st a) \<mapsto> (h, si_allow_isolated (svc_at st a) \<noteq> 0))"
  proof
    fix nm
    show "svc_regs st' ps nm =
        ((svc_regs st ps)(svc_key (svc_at st a) \<mapsto> (h, si_allow_isolated (svc_at st a) \<noteq> 0))) nm"
    proof (cases "nm = svc_key (svc_at st a)")
      case True
      then show ?thesis
        using svc_find_key [OF l a] unfolding svc_regs_find key by (simp add: at' svc_reg_def)
    next
      case False
      have "svc_reg (svc_at st' b) = svc_reg (svc_at st b)"
        if "find (\<lambda>b. svc_key (svc_at st b) = nm) ps = Some b" for b
        using find_SomeD [OF that] False by (auto simp: at')
      then show ?thesis
        using False by (cases "find (\<lambda>b. svc_key (svc_at st b) = nm) ps") (auto simp: svc_regs_find key)
    qed
  qed
qed

lemma push_svc_list:
  assumes l: "svc_list st ps" and new: "si \<noteq> 0" "si \<notin> set ps" and v: "svcinfo_ok si v" "si_next v = svclist st"
    and key: "svc_regs st ps (svc_key v) = None"
  defines "st' \<equiv> st\<lparr>svclist := si, svc_heap := (svc_heap st)(si := Some v)\<rparr>"
  shows "svc_list st' (si # ps)" and "svc_regs st' (si # ps) = (svc_regs st ps)(svc_key v \<mapsto> svc_reg v)"
proof -
  have at': "svc_at st' b = (if b = si then v else svc_at st b)" for b
    by (simp add: st'_def svc_at_def)
  have same: "map (\<lambda>a. f (svc_at st' a)) ps = map (\<lambda>a. f (svc_at st a)) ps" for f :: "svcinfo \<Rightarrow> 'a"
    using new(2) by (auto simp: at')
  have "\<exists>w. svc_heap st' b = Some w \<and> si_next w = si_next (the (svc_heap st b))" if "b \<in> set ps" for b
    using svc_list_heap [OF l that] new(2) that by (auto simp: st'_def)
  then have tail: "svc_chain (svc_heap st') (svclist st) ps"
    using l svc_chain_cong unfolding svc_list_def by metis
  have chain: "svc_chain (svc_heap st') (svclist st') (si # ps)"
    using tail new(1) v(2) by (simp add: st'_def)
  have fresh: "svc_key v \<notin> set (map (\<lambda>a. svc_key (svc_at st a)) ps)"
    using key by (auto simp: svc_regs_find find_None_iff)
  have ok: "\<forall>b\<in>set (si # ps). svcinfo_ok b (svc_at st' b)"
    using svc_list_heap [OF l] v(1) by (simp add: at')
  have "distinct (map (\<lambda>a. svc_key (svc_at st' a)) (si # ps))"
    using l fresh unfolding svc_list_def by (simp add: same) (simp add: at')
  moreover have "svc_heap st' b = None" if "b \<notin> set (si # ps)" for b
    using l that by (auto simp: svc_list_def st'_def)
  ultimately show "svc_list st' (si # ps)"
    using l new chain ok unfolding svc_list_def by simp
  have "map (\<lambda>a. (svc_key (svc_at st' a), svc_reg (svc_at st' a))) ps =
        map (\<lambda>a. (svc_key (svc_at st a), svc_reg (svc_at st a))) ps"
    by (rule same)
  then have "svc_regs st' ps = svc_regs st ps"
    by (simp only: svc_regs_def)
  moreover have "svc_regs st' (si # ps) = (svc_regs st' ps)(svc_key v \<mapsto> svc_reg v)"
    by (simp add: svc_regs_def at')
  ultimately show "svc_regs st' (si # ps) = (svc_regs st ps)(svc_key v \<mapsto> svc_reg v)" by simp
qed

section \<open>What the program relies on of its system\<close>

text \<open>
  \<open>live k a\<close>: \<open>a\<close> is the address of a block the allocator has handed out in system state
  \<open>k\<close>. A new block is not one that is live; no other call frees a block.
\<close>

definition alloc_ok :: "'k kernel \<Rightarrow> ('k \<Rightarrow> u32 \<Rightarrow> bool) \<Rightarrow> bool" where
  "alloc_ok K live \<longleftrightarrow>
     (\<forall>n k p k'. k_malloc K n k = (p, k') \<longrightarrow>
        (p \<noteq> 0 \<longrightarrow> \<not> live k p \<and> live k' p) \<and> (\<forall>a. live k a \<longrightarrow> live k' a)) \<and>
     (\<forall>fd bwr m k res bwr' m' k' a. k_write_read K fd bwr m k = (res, bwr', m', k') \<longrightarrow>
        live k a \<longrightarrow> live k' a) \<and>
     (\<forall>p m k a. live k a \<longrightarrow> live (k_pthread_create K p m k) a)"

lemma alloc_okD:
  assumes "alloc_ok K live"
  shows "k_write_read K fd bwr m k = (res, bwr', m', k') \<Longrightarrow> live k a \<Longrightarrow> live k' a"
    and "live k a \<Longrightarrow> live (k_pthread_create K p m k) a"
  using assms unfolding alloc_ok_def by blast+

definition svc_rep :: "svc_state \<Rightarrow> registry \<Rightarrow> bool" where
  "svc_rep st R \<longleftrightarrow> (\<exists>ps. svc_list st ps \<and> svc_regs st ps = R)"

definition svcmgr_inv ::
    "'k kernel \<Rightarrow> binder_state \<Rightarrow> ('k \<Rightarrow> u32 \<Rightarrow> bool) \<Rightarrow> svc_state \<Rightarrow> 'k \<Rightarrow> bool" where
  "svcmgr_inv K bs live st k \<longleftrightarrow> driver_ok K bs \<and> alloc_ok K live \<and>
     (\<exists>ps. svc_list st ps \<and> (\<forall>a\<in>set ps. live k a))"

lemma svc_rep_unique: "svc_rep st R \<Longrightarrow> svc_rep st R' \<Longrightarrow> R = R'"
  unfolding svc_rep_def svc_list_def using svc_chain_unique by metis

text \<open>A call that only sends commands: the program's state stays, and live blocks stay live.\<close>

definition sends :: "binder_state \<Rightarrow> ('k \<Rightarrow> u32 \<Rightarrow> bool) \<Rightarrow> ('k, 's) world \<Rightarrow> ('k, 's) world \<Rightarrow> bool" where
  "sends bs live w w' \<longleftrightarrow> kept bs nowhere w w' \<and> w_app w' = w_app w \<and>
     (\<forall>a. live (w_k w) a \<longrightarrow> live (w_k w') a)"

lemma sends_trans: "sends bs live w w' \<Longrightarrow> sends bs live w' w'' \<Longrightarrow> sends bs live w w''"
  unfolding sends_def using kept_trans by fastforce

lemma binder_write_app [simp]: "w_app (snd (binder_write K bs d n w)) = w_app w"
  by (simp add: binder_write_def ioctl_bwr_def Let_def split: prod.split)

lemma binder_write_live:
  "alloc_ok K live \<Longrightarrow> live (w_k w) a \<Longrightarrow> live (w_k (snd (binder_write K bs d n w))) a"
  unfolding alloc_ok_def by (auto simp: binder_write_def ioctl_bwr_def Let_def split: prod.splits)

lemma commands_sends:
  assumes "driver_ok K bs" and "alloc_ok K live" and "64 \<le> unat (w_sp w)"
  shows "sends bs live w (binder_acquire K bs h w)" and "sends bs live w (binder_release K bs h w)"
    and "sends bs live w (binder_link_to_death K bs h d w)"
  unfolding sends_def
  using assms binder_acquire_kept [of K bs w] binder_release_kept [of K bs w] binder_link_to_death_kept [of K bs w]
  by (auto simp: binder_acquire_def binder_release_def binder_link_to_death_def snd_with_frame binder_write_live)

section \<open>Death and registration\<close>

text \<open>The registry, in its list \<open>ps\<close>, represents \<open>R\<close> in a world fit to call the library from.\<close>

definition svc_ok ::
    "'k kernel \<Rightarrow> binder_state \<Rightarrow> ('k \<Rightarrow> u32 \<Rightarrow> bool) \<Rightarrow> u32 list \<Rightarrow> registry \<Rightarrow> ('k, svc_state) world \<Rightarrow> bool" where
  "svc_ok K bs live ps R w \<longleftrightarrow> driver_ok K bs \<and> alloc_ok K live \<and> svc_list (w_app w) ps \<and>
     (\<forall>a\<in>set ps. live (w_k w) a) \<and> svc_regs (w_app w) ps = R \<and> 64 \<le> unat (w_sp w)"

lemma svc_okD:
  assumes "svc_ok K bs live ps R w"
  shows "driver_ok K bs" "alloc_ok K live" "svc_list (w_app w) ps" "\<forall>a\<in>set ps. live (w_k w) a"
    "svc_regs (w_app w) ps = R" "64 \<le> unat (w_sp w)" "svcmgr_inv K bs live (w_app w) (w_k w)"
    "svc_rep (w_app w) R"
  using assms by (auto simp: svc_ok_def svcmgr_inv_def svc_rep_def)

lemma svc_ok_sends:
  "svc_ok K bs live ps R w \<Longrightarrow> sends bs live w w' \<Longrightarrow> svc_ok K bs live ps R w'"
  by (auto simp: svc_ok_def sends_def kept_def)

lemma svc_ok_key:
  assumes "svc_ok K bs live ps R w" and "a \<in> set ps"
  shows "R (svc_key (svc_at (w_app w) a)) = Some (svc_reg (svc_at (w_app w) a))"
  using svc_find_key [OF svc_okD(3) [OF assms(1)] assms(2)] svc_okD(5) [OF assms(1), symmetric]
  by (simp add: svc_regs_find)

lemma svc_ok_set:
  assumes ok: "svc_ok K bs live ps R w" and a: "a \<in> set ps" and nm: "nm = svc_key (svc_at (w_app w) a)"
  shows "svc_ok K bs live ps (R(nm \<mapsto> (h, snd (the (R nm)))))
           (w\<lparr>w_app := set_svc a (\<lambda>v. v\<lparr>si_handle := h\<rparr>) (w_app w)\<rparr>)"
proof -
  have "si_allow_isolated (svc_at (w_app w) a) \<noteq> 0 \<longleftrightarrow> snd (the (R nm))"
    using svc_ok_key [OF ok a] nm by (simp add: svc_reg_def)
  then show ?thesis
    using set_handle_list [OF svc_okD(3) [OF ok] a, of h] svc_okD [OF ok] nm by (simp add: svc_ok_def)
qed

lemma svcinfo_death_ok:
  assumes ok: "svc_ok K bs live ps R w" and a: "a \<in> set ps" and nm: "nm = svc_key (svc_at (w_app w) a)"
  defines "w' \<equiv> svcinfo_death K bs a w"
  shows "svc_ok K bs live ps (R(nm \<mapsto> (0, snd (the (R nm))))) w' \<and> kept bs nowhere w w' \<and>
     svc_key (svc_at (w_app w') a) = nm \<and> svcmgr_handle (w_app w') = svcmgr_handle (w_app w)"
proof -
  have heap: "svc_heap (w_app w) a = Some (svc_at (w_app w) a)"
    using svc_list_heap [OF svc_okD(3) [OF ok] a] by simp
  show ?thesis
  proof (cases "si_handle (svc_at (w_app w) a) = 0")
    case True
    have "R nm = Some (0, snd (the (R nm)))"
      using svc_ok_key [OF ok a] True nm by (simp add: svc_reg_def)
    then have "R(nm \<mapsto> (0, snd (the (R nm)))) = R" by (metis fun_upd_triv)
    moreover have "w' = w" using True heap by (simp add: w'_def svcinfo_death_def)
    ultimately show ?thesis using ok nm by simp
  next
    case False
    let ?w = "binder_release K bs (si_handle (svc_at (w_app w) a)) w"
    have s: "sends bs live w ?w"
      using svc_okD [OF ok] by (intro commands_sends) auto
    then have app: "w_app ?w = w_app w" by (simp add: sends_def)
    have w': "w' = ?w\<lparr>w_app := set_svc a (\<lambda>v. v\<lparr>si_handle := 0\<rparr>) (w_app ?w)\<rparr>"
      using False heap by (simp add: w'_def svcinfo_death_def Let_def)
    have "svc_ok K bs live ps (R(nm \<mapsto> (0, snd (the (R nm))))) w'"
      unfolding w' by (rule svc_ok_set [OF svc_ok_sends [OF ok s] a]) (simp add: nm app)
    moreover have "kept bs nowhere w w'"
      using s by (simp add: w' sends_def kept_def)
    ultimately show ?thesis
      using set_handle_list(4,5) [OF svc_okD(3) [OF ok] a] nm app by (simp add: w')
  qed
qed

lemma svc_death_ok:
  assumes ok: "svc_ok K bs live ps R w" and a: "a \<in> set ps" and nm: "nm = svc_key (svc_at (w_app w) a)"
  shows "svc_ok K bs live ps (R(nm \<mapsto> (0, snd (the (R nm))))) (svc_death K bs (a + offsetof_death) w)"
proof -
  have "svc_heap (w_app w) a = Some (svc_at (w_app w) a)" "si_death_ptr (svc_at (w_app w) a) = a"
    using svc_list_heap [OF svc_okD(3) [OF ok] a] by (simp_all add: svcinfo_ok_def)
  then show ?thesis
    using svcinfo_death_ok [OF assms] by (simp add: svc_death_def)
qed

lemma svc_death_other:
  assumes "svc_ok K bs live ps R w" and "cookie - offsetof_death \<notin> set ps"
  shows "svc_death K bs cookie w = w"
  using svc_okD(3) [OF assms(1)] assms(2) by (simp add: svc_death_def svc_list_def)

text \<open>Registering: what the two last commands of \<open>do_add_service\<close> keep.\<close>

lemma finish_sends:
  assumes "svc_ok K bs live ps R w"
  shows "sends bs live w (binder_link_to_death K bs h d (binder_acquire K bs h w))"
proof -
  have 1: "sends bs live w (binder_acquire K bs h w)"
    using svc_okD [OF assms] by (intro commands_sends) auto
  then have "svc_ok K bs live ps R (binder_acquire K bs h w)" using svc_ok_sends assms by blast
  then have "sends bs live (binder_acquire K bs h w) (binder_link_to_death K bs h d (binder_acquire K bs h w))"
    using svc_okD by (intro commands_sends) blast+
  then show ?thesis using sends_trans 1 by blast
qed

definition add_result ::
    "'k kernel \<Rightarrow> binder_state \<Rightarrow> ('k \<Rightarrow> u32 \<Rightarrow> bool) \<Rightarrow> registry \<Rightarrow> ('k, svc_state) world \<Rightarrow>
     (int \<times> ('k, svc_state) world) option \<Rightarrow> int \<Rightarrow> bool" where
  "add_result K bs live R w res r \<longleftrightarrow> (\<exists>ps w'. res = Some (r, w') \<and> svc_ok K bs live ps R w' \<and>
     kept bs nowhere w w' \<and> svcmgr_handle (w_app w') = svcmgr_handle (w_app w))"

lemma add_result_finish:
  assumes "svc_ok K bs live ps R w1" and "kept bs nowhere w w1"
    and "svcmgr_handle (w_app w1) = svcmgr_handle (w_app w)"
  shows "add_result K bs live R w
     (Some (r, binder_link_to_death K bs h d (binder_acquire K bs h w1))) r"
proof -
  note s = finish_sends [OF assms(1), of h d]
  show ?thesis
    unfolding add_result_def
    using svc_ok_sends [OF assms(1) s] s assms(2,3) kept_trans by (fastforce simp: sends_def)
qed

lemma find_svc_nm:
  assumes "svc_ok K bs live ps R w" and "nm = u16s_at (w_mem w) s (unat len)"
  shows "R nm = None \<Longrightarrow> find_svc (w_mem w) (w_app w) s len = Some 0"
    and "R nm \<noteq> None \<Longrightarrow> \<exists>a. a \<in> set ps \<and> a \<noteq> 0 \<and> svc_key (svc_at (w_app w) a) = nm \<and>
      svc_heap (w_app w) a = Some (svc_at (w_app w) a) \<and> find_svc (w_mem w) (w_app w) s len = Some a"
proof -
  note l = svc_okD(3) [OF assms(1)] and R = svc_okD(5) [OF assms(1), symmetric]
  show "R nm = None \<Longrightarrow> find_svc (w_mem w) (w_app w) s len = Some 0"
    using assms(2) by (simp add: find_svc_list [OF l] R svc_regs_find)
  assume "R nm \<noteq> None"
  then obtain a where a: "find (\<lambda>a. svc_key (svc_at (w_app w) a) = nm) ps = Some a"
    by (auto simp: R svc_regs_find)
  then show "\<exists>a. a \<in> set ps \<and> a \<noteq> 0 \<and> svc_key (svc_at (w_app w) a) = nm \<and>
      svc_heap (w_app w) a = Some (svc_at (w_app w) a) \<and> find_svc (w_mem w) (w_app w) s len = Some a"
    using find_SomeD [OF a] svc_list_heap [OF l] assms(2) by (auto simp: find_svc_list [OF l])
qed

lemma do_add_service_refused:
  assumes "svc_ok K bs live ps R w" and "h = 0 \<or> len = 0 \<or> len > 127"
  shows "add_result K bs live R w (do_add_service K bs s len h uid ai spid w) (-1)"
  unfolding add_result_def using assms by (auto simp: do_add_service_def)

text \<open>Registering a known name reuses its record; the list of records stays the same.\<close>

lemma do_add_service_reuse:
  assumes ok: "svc_ok K bs live ps R w" and valid: "h \<noteq> 0" "len \<noteq> 0" "\<not> len > 127"
    and nm: "nm = u16s_at (w_mem w) s (unat len)" and old: "R nm = Some (h0, ai0)"
    and found: "find_svc (w_mem w) (w_app w) s len = Some a"
  shows "\<exists>w'. do_add_service K bs s len h uid ai spid w = Some (0, w') \<and>
     svc_ok K bs live ps (R(nm \<mapsto> (h, ai0))) w' \<and> kept bs nowhere w w' \<and> a \<in> set ps \<and>
     svc_key (svc_at (w_app w') a) = nm \<and> svcmgr_handle (w_app w') = svcmgr_handle (w_app w)"
proof -
  have a: "a \<in> set ps" "a \<noteq> 0" "svc_key (svc_at (w_app w) a) = nm"
      "svc_heap (w_app w) a = Some (svc_at (w_app w) a)"
    using find_svc_nm(2) [OF ok nm] old found by auto
  define w1 where "w1 = (if si_handle (svc_at (w_app w) a) \<noteq> 0 then svcinfo_death K bs a w else w)"
  define w2 where "w2 = w1\<lparr>w_app := set_svc a (\<lambda>v. v\<lparr>si_handle := h\<rparr>) (w_app w1)\<rparr>"
  define w3 where "w3 = binder_link_to_death K bs h (a + offsetof_death) (binder_acquire K bs h w2)"
  have "\<exists>h1. svc_ok K bs live ps (R(nm \<mapsto> (h1, ai0))) w1 \<and> kept bs nowhere w w1 \<and>
      svc_key (svc_at (w_app w1) a) = nm \<and> svcmgr_handle (w_app w1) = svcmgr_handle (w_app w)"
  proof (cases "si_handle (svc_at (w_app w) a) = 0")
    case True
    have "R(nm \<mapsto> (h0, ai0)) = R" using old by (metis fun_upd_triv)
    then show ?thesis using True ok a(3) by (intro exI [of _ h0]) (simp add: w1_def)
  next
    case False
    then show ?thesis
      using svcinfo_death_ok [OF ok a(1) a(3) [symmetric]] old by (intro exI [of _ 0]) (simp add: w1_def)
  qed
  then obtain h1 where 1: "svc_ok K bs live ps (R(nm \<mapsto> (h1, ai0))) w1" "kept bs nowhere w w1"
      "svc_key (svc_at (w_app w1) a) = nm" "svcmgr_handle (w_app w1) = svcmgr_handle (w_app w)" by blast
  have 2: "svc_ok K bs live ps (R(nm \<mapsto> (h, ai0))) w2"
    using svc_ok_set [OF 1(1) a(1) 1(3) [symmetric], of h] by (simp add: w2_def)
  have k2: "kept bs nowhere w w2" using 1(2) by (simp add: w2_def kept_def)
  have key2: "svc_key (svc_at (w_app w2) a) = nm" "svcmgr_handle (w_app w2) = svcmgr_handle (w_app w)"
    using set_handle_list(4,5) [OF svc_okD(3) [OF 1(1)] a(1)] 1(3,4) by (simp_all add: w2_def)
  note s3 = finish_sends [OF 2, of h "a + offsetof_death", folded w3_def]
  have "do_add_service K bs s len h uid ai spid w = Some (0, w3)"
    using valid a found by (simp add: do_add_service_def svc_can_register_def check_mac_perms_from_lookup_def
        w3_def w2_def w1_def Let_def)
  moreover have "svc_ok K bs live ps (R(nm \<mapsto> (h, ai0))) w3" by (rule svc_ok_sends [OF 2 s3])
  moreover have "kept bs nowhere w w3" "w_app w3 = w_app w2" using s3 k2 kept_trans by (auto simp: sends_def)
  ultimately show ?thesis using a(1) key2 by simp
qed

lemma do_add_service_update:
  assumes ok: "svc_ok K bs live ps R w" and valid: "h \<noteq> 0" "len \<noteq> 0" "\<not> len > 127"
    and nm: "nm = u16s_at (w_mem w) s (unat len)" and old: "R nm = Some (h0, ai0)"
  shows "add_result K bs live (R(nm \<mapsto> (h, ai0))) w (do_add_service K bs s len h uid ai spid w) 0"
proof -
  obtain a where "find_svc (w_mem w) (w_app w) s len = Some a"
    using find_svc_nm(2) [OF ok nm] old by auto
  from do_add_service_reuse [OF ok valid nm old this] show ?thesis unfolding add_result_def by blast
qed

lemma do_add_service_oom:
  assumes ok: "svc_ok K bs live ps R w" and valid: "h \<noteq> 0" "len \<noteq> 0" "\<not> len > 127"
    and nm: "nm = u16s_at (w_mem w) s (unat len)" and "R nm = None"
    and malloc: "k_malloc K (sizeof_svcinfo + (len + 1) * 2) (w_k w) = (0, k)"
  shows "add_result K bs live R w (do_add_service K bs s len h uid ai spid w) (-1)"
proof -
  have "do_add_service K bs s len h uid ai spid w = Some (-1, w\<lparr>w_k := k\<rparr>)"
    using valid malloc find_svc_nm(1) [OF ok nm] assms(6)
    by (simp add: do_add_service_def svc_can_register_def check_mac_perms_from_lookup_def Let_def)
  moreover have "svc_ok K bs live ps R (w\<lparr>w_k := k\<rparr>)"
    using svc_okD [OF ok] malloc unfolding svc_ok_def alloc_ok_def by auto
  ultimately show ?thesis by (auto simp: add_result_def kept_def)
qed

lemma do_add_service_new:
  assumes ok: "svc_ok K bs live ps R w" and valid: "h \<noteq> 0" "len \<noteq> 0" "\<not> len > 127"
    and nm: "nm = u16s_at (w_mem w) s (unat len)" and new: "R nm = None"
    and malloc: "k_malloc K (sizeof_svcinfo + (len + 1) * 2) (w_k w) = (si, k)" "si \<noteq> 0"
  shows "add_result K bs live (R(nm \<mapsto> (h, ai \<noteq> 0))) w (do_add_service K bs s len h uid ai spid w) 0"
proof -
  define v where "v = \<lparr>si_next = svclist (w_app w), si_handle = h, si_death_ptr = si,
      si_allow_isolated = ai, si_len = len, si_name = (u16s_at (w_mem w) s (unat len + 1))[unat len := 0]\<rparr>"
  define w1 where "w1 = w\<lparr>w_k := k, w_app :=
      (w_app w)\<lparr>svclist := si, svc_heap := (svc_heap (w_app w))(si := Some v)\<rparr>\<rparr>"
  have key: "svc_key v = nm" by (simp add: v_def svc_key_def nm u16s_at_def)
  have "1 \<le> unat len" "unat len \<le> 127"
    using valid by (auto simp: word_less_nat_alt not_less Suc_le_eq unat_gt_0)
  then have v: "svcinfo_ok si v" by (simp add: svcinfo_ok_def v_def)
  have nxt: "si_next v = svclist (w_app w)" by (simp add: v_def)
  have fresh: "si \<notin> set ps" and live: "\<forall>a\<in>set (si # ps). live k a"
    using svc_okD(2,4) [OF ok] malloc unfolding alloc_ok_def by auto
  have "svc_list (w_app w1) (si # ps)" "svc_regs (w_app w1) (si # ps) = R(nm \<mapsto> svc_reg v)"
    using push_svc_list [OF svc_okD(3) [OF ok] malloc(2) fresh v nxt] new svc_okD(5) [OF ok]
    by (simp_all add: key w1_def)
  then have 1: "svc_ok K bs live (si # ps) (R(nm \<mapsto> (h, ai \<noteq> 0))) w1"
    using svc_okD [OF ok] live by (simp add: svc_ok_def w1_def svc_reg_def v_def)
  have "add_result K bs live (R(nm \<mapsto> (h, ai \<noteq> 0))) w
      (Some (0, binder_link_to_death K bs h (si + offsetof_death) (binder_acquire K bs h w1))) 0"
    by (rule add_result_finish [OF 1]) (simp_all add: w1_def kept_def)
  moreover have "do_add_service K bs s len h uid ai spid w =
      Some (0, binder_link_to_death K bs h (si + offsetof_death) (binder_acquire K bs h w1))"
    using valid malloc find_svc_nm(1) [OF ok nm new]
    by (simp add: do_add_service_def svc_can_register_def check_mac_perms_from_lookup_def w1_def v_def Let_def)
  ultimately show ?thesis by simp
qed

text \<open>All four cases in one: when a registration is refused, and what it does when it is not.\<close>

definition add_refused :: "'k kernel \<Rightarrow> 'k \<Rightarrow> registry \<Rightarrow> u16 list \<Rightarrow> u32 \<Rightarrow> bool" where
  "add_refused K k R nm h \<longleftrightarrow> h = 0 \<or> nm = [] \<or> 127 < length nm \<or>
     R nm = None \<and> fst (k_malloc K (sizeof_svcinfo + (of_nat (length nm) + 1) * 2) k) = 0"

lemma do_add_service_spec:
  assumes ok: "svc_ok K bs live ps R w" and nm: "nm = u16s_at (w_mem w) s (unat len)"
  shows "if add_refused K (w_k w) R nm h
     then add_result K bs live R w (do_add_service K bs s len h uid ai spid w) (-1)
     else add_result K bs live (reg_add nm h (ai \<noteq> 0) R) w (do_add_service K bs s len h uid ai spid w) 0"
proof -
  obtain si k where m: "k_malloc K (sizeof_svcinfo + (len + 1) * 2) (w_k w) = (si, k)" by fastforce
  have len: "length nm = unat len" by (simp add: nm)
  then have bad: "h = 0 \<or> nm = [] \<or> 127 < length nm \<longleftrightarrow> h = 0 \<or> len = 0 \<or> len > 127"
    by (auto simp: word_less_nat_alt unat_eq_0)
  have ar: "add_refused K (w_k w) R nm h \<longleftrightarrow> (h = 0 \<or> len = 0 \<or> len > 127) \<or> R nm = None \<and> si = 0"
    using bad m by (auto simp: add_refused_def len)
  show ?thesis
  proof (cases "h = 0 \<or> len = 0 \<or> len > 127")
    case True
    then show ?thesis using do_add_service_refused [OF ok True] ar by simp
  next
    case False
    then have v: "h \<noteq> 0" "len \<noteq> 0" "\<not> len > 127" by auto
    show ?thesis
    proof (cases "R nm")
      case (Some old)
      then have "\<not> add_refused K (w_k w) R nm h" using ar False by simp
      then show ?thesis
        using do_add_service_update [OF ok v nm, of "fst old" "snd old"] Some by (simp add: reg_add_def split_beta)
    next
      case None
      show ?thesis
      proof (cases "si = 0")
        case True
        then have "add_refused K (w_k w) R nm h" using ar None by simp
        then show ?thesis using do_add_service_oom [OF ok v nm None] m True by simp
      next
        case si: False
        then have "\<not> add_refused K (w_k w) R nm h" using ar False by simp
        then show ?thesis using do_add_service_new [OF ok v nm None m si] None by (simp add: reg_add_def)
      qed
    qed
  qed
qed

lemma do_add_service_some:
  assumes "svc_ok K bs live ps R w"
  shows "\<exists>r R'. add_result K bs live R' w (do_add_service K bs s len h uid ai spid w) r"
  using do_add_service_spec [OF assms refl, of s len h uid ai spid]
  by (cases "add_refused K (w_k w) R (u16s_at (w_mem w) s (unat len)) h") (auto simp only: if_True if_False)

lemma svc_ok_intro:
  assumes "svcmgr_inv K bs live (w_app w) (w_k w)" and "svc_rep (w_app w) R" and "64 \<le> unat (w_sp w)"
  shows "\<exists>ps. svc_ok K bs live ps R w"
proof -
  obtain ps where ps: "svc_list (w_app w) ps" "\<forall>a\<in>set ps. live (w_k w) a" "driver_ok K bs" "alloc_ok K live"
    using assms(1) by (auto simp: svcmgr_inv_def)
  then have "svc_regs (w_app w) ps = R" using svc_rep_unique assms(2) unfolding svc_rep_def by metis
  then show ?thesis using ps assms(3) by (auto simp: svc_ok_def)
qed

end
