(* ===== verification/Svcmgr_Service.thy ===== *)
theory Svcmgr_Service
  imports Service_Registry
begin

text \<open>
  The service manager as a service: its handler and death callback keep the contract of the
  binder library (the interpretation of \<open>binder_service\<close>), and what each request does to
  the registry and to the reply.
\<close>

section \<open>Listing\<close>

lemma skip_svcs_chain:
  "svc_chain h p ps \<Longrightarrow> skip_svcs h n p = Some (case drop (unat n) ps of [] \<Rightarrow> 0 | a # _ \<Rightarrow> a)"
proof (induction ps arbitrary: p n)
  case Nil
  then show ?case by (subst skip_svcs.simps) simp
next
  case (Cons a ps)
  then obtain v where v: "h a = Some v" "svc_chain h (si_next v) ps" "p = a" "a \<noteq> 0" by auto
  show ?case
  proof (cases "n = 0")
    case True
    then show ?thesis using v by (subst skip_svcs.simps) simp
  next
    case False
    then have n: "unat n = Suc (unat (n - 1))" "n > 0"
      by (simp_all add: unat_minus_one word_gt_0 unat_gt_0)
    then show ?thesis using v Cons.IH [OF v(2), of "n - 1"] by (subst skip_svcs.simps) simp
  qed
qed

section \<open>Every request keeps the invariant\<close>

definition handler_result ::
    "'k kernel \<Rightarrow> binder_state \<Rightarrow> ('k \<Rightarrow> u32 \<Rightarrow> bool) \<Rightarrow> u32 \<Rightarrow> ('k, svc_state) world \<Rightarrow>
     (int \<times> binder_io \<times> ('k, svc_state) world) option \<Rightarrow> bool" where
  "handler_result K bs live rdata w res \<longleftrightarrow> (\<exists>r reply w'. res = Some (r, reply, w') \<and>
     kept bs (run_of rdata 256) w w' \<and> svcmgr_inv K bs live (w_app w') (w_k w'))"

lemma handler_result_keep:
  "svc_ok K bs live ps R w' \<Longrightarrow> kept bs nowhere w w' \<Longrightarrow> handler_result K bs live rdata w (Some (r, reply, w'))"
  unfolding handler_result_def using svc_okD(7) kept_weaken by blast

lemma put_reply_eq:
  "put_reply op reply w = (0, fst (op (reply, w_mem w)), w\<lparr>w_mem := snd (op (reply, w_mem w))\<rparr>)"
  by (simp add: put_reply_def split: prod.split)

lemma put_reply_keep:
  assumes "svc_ok K bs live ps R w'" and "kept bs nowhere w w'" and "bio_inv rdata 256 4 reply" and "op_valid op"
  shows "handler_result K bs live rdata w (Some (put_reply (run_put op) reply w'))"
proof -
  let ?p = "run_put op (reply, w_mem w')"
  have "confined rdata 256 (w_mem w') (snd ?p)"
    using run_put_kept(1) [OF assms(3,4), of "w_mem w'"] by (simp add: bio_kept_def)
  from kept_confined [OF this] have "kept bs (run_of rdata 256) w (w'\<lparr>w_mem := snd ?p\<rparr>)"
    using kept_trans kept_weaken [OF assms(2)] by blast
  moreover have "svcmgr_inv K bs live (w_app w') (w_k w')" by (rule svc_okD(7) [OF assms(1)])
  ultimately show ?thesis by (simp add: handler_result_def put_reply_eq)
qed

lemmas put_reply_uint32 = put_reply_keep [where op = "PutUint32 n" for n, simplified]
lemmas put_reply_ref = put_reply_keep [where op = "PutRef h" for h, simplified]
lemmas put_reply_string = put_reply_keep [where op = "PutString16 (Some s)" for s, simplified]

lemma svcmgr_handler_keeps:
  assumes ok: "svc_ok K bs live ps R w" and reply: "bio_inv rdata 256 4 reply"
  shows "handler_result K bs live rdata w (svcmgr_handler K bs txn msg reply w)"
proof -
  note l = svc_okD(3) [OF ok]
  have same: "handler_result K bs live rdata w (Some (r, reply, w))" for r
    by (rule handler_result_keep [OF ok]) simp
  have find: "handler_result K bs live rdata w (map_option (\<lambda>handle.
      if handle = 0 then put_reply (bio_put_uint32 0) reply w else put_reply (bio_put_ref handle) reply w)
      (do_find_service (w_mem w) (w_app w) s len uid pid))" for s len uid pid
    using put_reply_uint32 [OF ok _ reply] put_reply_ref [OF ok _ reply]
    by (simp add: do_find_service_reg [OF l])
  have add: "handler_result K bs live rdata w (map_option (\<lambda>(r, w).
      if r \<noteq> 0 then (-1, reply, w) else put_reply (bio_put_uint32 0) reply w)
      (do_add_service K bs s len h uid ai pid w))" for s len h uid ai pid
  proof -
    obtain r R' ps' w' where "do_add_service K bs s len h uid ai pid w = Some (r, w')"
        "svc_ok K bs live ps' R' w'" "kept bs nowhere w w'"
      using do_add_service_some [OF ok, of s len h uid ai pid] unfolding add_result_def by blast
    then show ?thesis
      using handler_result_keep put_reply_uint32 [OF _ _ reply] by fastforce
  qed
  have list: "handler_result K bs live rdata w (Option.bind (skip_svcs (svc_heap (w_app w)) n (svclist (w_app w)))
      (\<lambda>si. if si \<noteq> 0 then map_option (\<lambda>v. put_reply (bio_put_string16 (Some (si_name v))) reply w)
          (svc_heap (w_app w) si) else Some (-1, reply, w)))" for n
  proof -
    have chain: "svc_chain (svc_heap (w_app w)) (svclist (w_app w)) ps" using l by (simp add: svc_list_def)
    show ?thesis
    proof (cases "drop (unat n) ps")
      case Nil
      then show ?thesis using same by (simp add: skip_svcs_chain [OF chain])
    next
      case (Cons a qs)
      then have "a \<in> set ps" by (metis in_set_dropD list.set_intros(1))
      note h = svc_list_heap [OF l this]
      then have "length (si_name (svc_at (w_app w) a)) < 4294967296"
        by (auto simp: svcinfo_ok_def)
      then show ?thesis
        using h Cons put_reply_string [OF ok _ reply] by (simp add: skip_svcs_chain [OF chain])
    qed
  qed
  show ?thesis
    unfolding svcmgr_handler_def Let_def
    by (simp only: split_beta same find add list split: if_split) simp
qed

interpretation svcmgr: binder_service K bs "Some (svcmgr_handler K)" "svc_death K" "svcmgr_inv K bs live"
  for K bs live
proof (unfold_locales, goal_cases)
  case (1 app k)
  then show ?case by (simp add: svcmgr_inv_def)
next
  case (2 app k bwr m res bwr' m' k')
  then show ?case using alloc_okD(1) [OF _ 2(2)] unfolding svcmgr_inv_def by fastforce
next
  case (3 app k p m)
  then show ?case using alloc_okD(2) unfolding svcmgr_inv_def by fastforce
next
  case (4 f w rdata reply txn msg)
  then obtain ps where "svc_ok K bs live ps (svc_regs (w_app w) ps) w"
    by (auto simp: svcmgr_inv_def svc_ok_def)
  from svcmgr_handler_keeps [OF this 4(3)] 4(1) show ?case
    by (auto simp: handler_result_def)
next
  case (5 w cookie)
  then obtain ps where ok: "svc_ok K bs live ps (svc_regs (w_app w) ps) w"
    by (auto simp: svcmgr_inv_def svc_ok_def)
  show ?case
  proof (cases "cookie - offsetof_death \<in> set ps")
    case True
    note h = svc_list_heap [OF svc_okD(3) [OF ok] True]
    then have "svc_death K bs cookie w = svcinfo_death K bs (cookie - offsetof_death) w"
      by (simp add: svc_death_def svcinfo_ok_def)
    then show ?thesis using svcinfo_death_ok [OF ok True refl] svc_okD(7) by metis
  next
    case False
    then show ?thesis using svc_death_other [OF ok] 5 by simp
  qed
qed

section \<open>Requests\<close>

text \<open>
  A request as a client sends it: the policy word, the interface name, the name of the
  service, and \<open>tail\<close>.
\<close>

definition svc_request :: "mem \<Rightarrow> binder_io \<Rightarrow> u16 list \<Rightarrow> u8 list \<Rightarrow> bool" where
  "svc_request m msg nm tail \<longleftrightarrow> bio_cursor msg \<and> length nm < 2147483640 \<and>
     (\<exists>pol e1 e2. bio_rest m msg = le32 pol @ e1 @ e2 @ tail \<and> is_str16 svcmgr_id e1 \<and> is_str16 nm e2)"

definition args_at :: "u16 list \<Rightarrow> nat" where
  "args_at nm = 4 + str_len svcmgr_id + str_len nm"

lemma length_svcmgr_id [simp]: "length svcmgr_id = 26"
  by (simp add: svcmgr_id_def)

lemma svc_request_read:
  assumes "svc_request m msg nm tail"
  shows "\<exists>pol s1 b1 b2 s2. bio_get_uint32 m msg = (pol, b1) \<and>
     bio_get_string16 m b1 = (s1, 26, b2) \<and> s1 \<noteq> 0 \<and> u16s_at m s1 26 = svcmgr_id \<and>
     bio_get_string16 m b2 = (s2, of_nat (length nm), bio_adv msg (args_at nm)) \<and> s2 \<noteq> 0 \<and>
     u16s_at m s2 (length nm) = nm" (is "?A")
    and "bio_cursor (bio_adv msg (args_at nm))" and "bio_rest m (bio_adv msg (args_at nm)) = tail"
proof -
  obtain pol e1 e2 where r: "bio_rest m msg = le32 pol @ e1 @ e2 @ tail" "is_str16 svcmgr_id e1" "is_str16 nm e2"
    and c: "bio_cursor msg" and nm: "length nm < 2147483640"
    using assms by (auto simp: svc_request_def)
  note g1 = bio_get_uint32_ok [OF c r(1)]
  have l: "length e1 = str_len svcmgr_id" "length e2 = str_len nm" using r by (simp_all add: is_str16_def)
  then have room: "args_at nm \<le> bio_room msg"
    using arg_cong [OF r(1), of length] by (simp add: args_at_def)
  have c1: "bio_cursor (bio_adv msg 4)" using c room by (simp add: args_at_def)
  note g2 = bio_get_string16_ok [OF c1 g1(2) r(2)]
  have c2: "bio_cursor (bio_adv msg (4 + str_len svcmgr_id))" using c room by (simp add: args_at_def)
  note g3 = bio_get_string16_ok [OF c2 _ r(3) nm, of m tail]
  have p1: "b_data msg + 4 + 4 \<noteq> 0"
    using bio_cursor_adv [OF c, of 8] room by (simp add: args_at_def str_len_def bio_cursor_def add.commute)
  have p2: "b_data msg + of_nat (4 + str_len svcmgr_id) + 4 \<noteq> 0"
  proof -
    have "4 + str_len svcmgr_id + 4 \<le> bio_room msg" using room by (simp add: args_at_def str_len_def)
    from bio_cursor_adv [OF c this] show ?thesis by (simp add: bio_cursor_def algebra_simps)
  qed
  show ?A
    using g1 g2 g3 p1 p2 by (simp add: bio_adv_adv args_at_def)
  show "bio_cursor (bio_adv msg (args_at nm))" using c room by simp
  show "bio_rest m (bio_adv msg (args_at nm)) = tail"
    using g2 g3 by (simp add: bio_adv_adv args_at_def)
qed

lemma handler_find:
  assumes l: "svc_list (w_app w) ps" and req: "svc_request (w_mem w) msg nm tail"
    and t: "t = load_txn (w_mem w) txn" "t_target t = svcmgr_handle (w_app w)"
      "t_code t = SVC_MGR_GET_SERVICE \<or> t_code t = SVC_MGR_CHECK_SERVICE"
    and h: "h = reg_find (svc_regs (w_app w) ps nm) (t_sender_euid t)"
  shows "svcmgr_handler K bs txn msg reply w =
     Some (put_reply (if h = 0 then bio_put_uint32 0 else bio_put_ref h) reply w)"
proof -
  obtain pol s1 b1 b2 s2 where r: "bio_get_uint32 (w_mem w) msg = (pol, b1)"
      "bio_get_string16 (w_mem w) b1 = (s1, 26, b2)" "s1 \<noteq> 0" "u16s_at (w_mem w) s1 26 = svcmgr_id"
      "bio_get_string16 (w_mem w) b2 = (s2, of_nat (length nm), bio_adv msg (args_at nm))" "s2 \<noteq> 0"
      "u16s_at (w_mem w) s2 (length nm) = nm"
    using svc_request_read(1) [OF req] by blast
  have "unat (of_nat (length nm) :: u32) = length nm" using req by (simp add: svc_request_def)
  moreover have "t_code t \<noteq> PING_TRANSACTION" using t(3) by (auto simp: svc_consts)
  ultimately show ?thesis
    using r t h by (auto simp: svcmgr_handler_def do_find_service_reg [OF l] Let_def)
qed

text \<open>The handle and the flag of an \<open>ADD\<close> request; the flag may be missing.\<close>

definition add_args :: "mem \<Rightarrow> binder_io \<Rightarrow> u16 list \<Rightarrow> u32 \<Rightarrow> u32 option \<Rightarrow> bool" where
  "add_args m msg nm h flag \<longleftrightarrow>
     svc_request m msg nm (obj_bytes (handle_obj h) @ (case flag of None \<Rightarrow> [] | Some a \<Rightarrow> le32 a)) \<and>
     has_offset m msg (b_data msg + of_nat (args_at nm) - b_data0 msg)"

lemma handler_add:
  assumes req: "add_args (w_mem w) msg nm h flag"
    and t: "t = load_txn (w_mem w) txn" "t_target t = svcmgr_handle (w_app w)" "t_code t = SVC_MGR_ADD_SERVICE"
  shows "\<exists>s. u16s_at (w_mem w) s (length nm) = nm \<and> svcmgr_handler K bs txn msg reply w =
     map_option (\<lambda>(r, w). if r \<noteq> 0 then (-1, reply, w) else put_reply (bio_put_uint32 0) reply w)
       (do_add_service K bs s (of_nat (length nm)) h (t_sender_euid t)
          (if flag \<in> {None, Some 0} then 0 else 1) (t_sender_pid t) w)"
proof -
  let ?tail = "case flag of None \<Rightarrow> [] | Some a \<Rightarrow> le32 a"
  let ?b = "bio_adv msg (args_at nm)"
  have req': "svc_request (w_mem w) msg nm (obj_bytes (handle_obj h) @ ?tail)"
    using req by (simp add: add_args_def)
  obtain pol s1 b1 b2 s2 where r: "bio_get_uint32 (w_mem w) msg = (pol, b1)"
      "bio_get_string16 (w_mem w) b1 = (s1, 26, b2)" "s1 \<noteq> 0" "u16s_at (w_mem w) s1 26 = svcmgr_id"
      "bio_get_string16 (w_mem w) b2 = (s2, of_nat (length nm), ?b)" "s2 \<noteq> 0"
      "u16s_at (w_mem w) s2 (length nm) = nm"
    using svc_request_read(1) [OF req'] by blast
  note c = svc_request_read(2,3) [OF req']
  have "has_offset (w_mem w) ?b (b_data ?b - b_data0 ?b)"
    using req by (simp add: add_args_def has_offset_def algebra_simps)
  note ref = bio_get_ref_ok [OF c this]
  have flag: "fst (bio_get_uint32 (w_mem w) (bio_adv ?b 16)) = (case flag of None \<Rightarrow> 0 | Some a \<Rightarrow> a)"
  proof (cases flag)
    case None
    then have "bio_room (bio_adv ?b 16) = 0" using arg_cong [OF ref(2), of length] by simp
    then show ?thesis by (simp add: None bio_get_uint32_def bio_get_fail)
  next
    case (Some a)
    have "16 \<le> bio_room ?b" using arg_cong [OF c(2), of length] by simp
    then have "bio_cursor (bio_adv ?b 16)" using c(1) by simp
    from bio_get_uint32_ok(1) [OF this, of "w_mem w" a "[]"] ref(2) show ?thesis by (simp add: Some)
  qed
  have "t_code t \<noteq> PING_TRANSACTION" "t_code t \<noteq> SVC_MGR_GET_SERVICE" "t_code t \<noteq> SVC_MGR_CHECK_SERVICE"
    using t(3) by (auto simp: svc_consts)
  then have "svcmgr_handler K bs txn msg reply w =
     map_option (\<lambda>(r, w). if r \<noteq> 0 then (-1, reply, w) else put_reply (bio_put_uint32 0) reply w)
       (do_add_service K bs s2 (of_nat (length nm)) h (t_sender_euid t)
          (if fst (bio_get_uint32 (w_mem w) (bio_adv ?b 16)) \<noteq> 0 then 1 else 0) (t_sender_pid t) w)"
    using r t ref(1) by (simp add: svcmgr_handler_def Let_def split_beta handle_obj_def)
  moreover have "(if fst (bio_get_uint32 (w_mem w) (bio_adv ?b 16)) \<noteq> 0 then 1 else 0) =
      (if flag \<in> {None, Some 0} then 0 else (1 :: int))"
    by (simp add: flag split: option.split)
  ultimately show ?thesis using r(7) by (simp only:) blast
qed

end
