(* ===== verification/Test_Server.thy ===== *)
theory Test_Server
  imports Svcmgr_Service Binder_Commands
begin

text \<open>
  The example server, \<open>binder/test_server.c\<close>: it publishes two services with the service
  manager and serves them. Its state is the four static counters; what it prints is not
  modelled. The local array \<open>name\<close> of the handlers is 512 bytes of stack, written through
  memory, so that a copy that is too long is visible.
\<close>

section \<open>State\<close>

definition HELLO_SVR_CMD_SAYHELLO :: u32 where "HELLO_SVR_CMD_SAYHELLO = 1"
definition HELLO_SVR_CMD_SAYHELLO_TO :: u32 where "HELLO_SVR_CMD_SAYHELLO_TO = 2"
definition GOODBYE_SVR_CMD_SAYGOODBYE :: u32 where "GOODBYE_SVR_CMD_SAYGOODBYE = 1"
definition GOODBYE_SVR_CMD_SAYGOODBYE_TO :: u32 where "GOODBYE_SVR_CMD_SAYGOODBYE_TO = 2"

lemmas greet_codes = HELLO_SVR_CMD_SAYHELLO_def HELLO_SVR_CMD_SAYHELLO_TO_def
  GOODBYE_SVR_CMD_SAYGOODBYE_def GOODBYE_SVR_CMD_SAYGOODBYE_TO_def

record server_state =
  hello_cnt :: u32
  hello_to_cnt :: u32
  goodbye_cnt :: u32
  goodbye_to_cnt :: u32

section \<open>Publishing\<close>

definition publish_msg :: "string \<Rightarrow> u32 \<Rightarrow> u32 \<Rightarrow> mem \<Rightarrow> binder_io \<times> mem" where
  "publish_msg name ptr iodata m =
     fold run_put [PutUint32 0, PutString16X (Some SVC_MGR_NAME), PutString16X (Some name), PutObj ptr]
       (bio_init zero_bio iodata 512 4, m)"

definition svcmgr_publish ::
    "'k kernel \<Rightarrow> binder_state \<Rightarrow> u32 \<Rightarrow> string \<Rightarrow> u32 \<Rightarrow> ('k, 's) world \<Rightarrow> (u32 \<times> ('k, 's) world) option" where
  "svcmgr_publish K bs target name ptr w =
     (let iodata = w_sp w - 512;
          (msg, m) = publish_msg name ptr iodata (w_mem w);
          w1 = w\<lparr>w_sp := iodata, w_mem := m\<rparr>
      in map_option (\<lambda>(res, reply, w').
           if res \<noteq> 0 then (-1, w'\<lparr>w_sp := w_sp w\<rparr>)
           else let (status, reply) = bio_get_uint32 (w_mem w') reply;
                    (reply, w') = binder_done K bs reply w'
                in (status, w'\<lparr>w_sp := w_sp w\<rparr>))
         (binder_call K no_death bs msg zero_bio target SVC_MGR_ADD_SERVICE w1))"

section \<open>The services\<close>

definition sayhello :: "server_state \<Rightarrow> server_state" where
  "sayhello st = st\<lparr>hello_cnt := hello_cnt st + 1\<rparr>"

definition sayhello_to :: "string \<Rightarrow> server_state \<Rightarrow> u32 \<times> server_state" where
  "sayhello_to name st = (let cnt = hello_to_cnt st + 1 in (cnt, st\<lparr>hello_to_cnt := cnt\<rparr>))"

definition saygoodbye :: "server_state \<Rightarrow> server_state" where
  "saygoodbye st = st\<lparr>goodbye_cnt := goodbye_cnt st + 1\<rparr>"

definition saygoodbye_to :: "string \<Rightarrow> server_state \<Rightarrow> u32 \<times> server_state" where
  "saygoodbye_to name st = (let cnt = goodbye_to_cnt st + 1 in (cnt, st\<lparr>goodbye_to_cnt := cnt\<rparr>))"

text \<open>
  The copying loop: \<open>len\<close> units cut to bytes and a NUL, stored from \<open>name\<close> on, however long.
  The string that results is what lies at \<open>name\<close> up to its first NUL.
\<close>

definition copy_name :: "u32 \<Rightarrow> u32 \<Rightarrow> u32 \<Rightarrow> mem \<Rightarrow> mem" where
  "copy_name name s len m =
     store_bytes name (map (\<lambda>c. ucast c) (u16s_at m s (unat len)) @ [0]) m"

definition name_string :: "u32 \<Rightarrow> u32 \<Rightarrow> mem \<Rightarrow> string" where
  "name_string name len m = c_string (map (\<lambda>b. char_of (unat b)) (load_bytes m name (unat len + 1)))"

definition hello_service_handler :: "('k, server_state) binder_handler" where
  "hello_service_handler bs txn msg reply w =
     (let name = w_sp w - 512; m = w_mem w; code = t_code (load_txn m txn);
          (strict_policy, msg) = bio_get_uint32 m msg in
      if code = HELLO_SVR_CMD_SAYHELLO then
        Some (put_reply (bio_put_uint32 0) reply (w\<lparr>w_app := sayhello (w_app w)\<rparr>))
      else if code = HELLO_SVR_CMD_SAYHELLO_TO then
        let (s, len, msg) = bio_get_string16 m msg;
            (s, len, msg) = bio_get_string16 m msg in
        if s = 0 then Some (-1, reply, w)
        else
          let m = copy_name name s len m;
              (i, st) = sayhello_to (name_string name len m) (w_app w)
          in Some (put_reply (bio_put_uint32 i \<circ> bio_put_uint32 0) reply (w\<lparr>w_app := st, w_mem := m\<rparr>))
      else Some (-1, reply, w))"

definition goodbye_service_handler :: "('k, server_state) binder_handler" where
  "goodbye_service_handler bs txn msg reply w =
     (let name = w_sp w - 512; m = w_mem w; code = t_code (load_txn m txn);
          (strict_policy, msg) = bio_get_uint32 m msg in
      if code = GOODBYE_SVR_CMD_SAYGOODBYE then
        Some (put_reply (bio_put_uint32 0) reply (w\<lparr>w_app := saygoodbye (w_app w)\<rparr>))
      else if code = GOODBYE_SVR_CMD_SAYGOODBYE_TO then
        let (s, len, msg) = bio_get_string16 m msg;
            (s, len, msg) = bio_get_string16 m msg in
        if s = 0 then Some (-1, reply, w)
        else
          let m = copy_name name s len m;
              (i, st) = saygoodbye_to (name_string name len m) (w_app w)
          in Some (put_reply (bio_put_uint32 i \<circ> bio_put_uint32 0) reply (w\<lparr>w_app := st, w_mem := m\<rparr>))
      else Some (-1, reply, w))"

text \<open>
  The target of the transaction is the address that was published, here the addresses
  \<open>hello\<close> and \<open>goodbye\<close> of the two functions; a call of anything else does not return.
\<close>

definition test_server_handler :: "u32 \<Rightarrow> u32 \<Rightarrow> ('k, server_state) binder_handler" where
  "test_server_handler hello goodbye bs txn msg reply w =
     (let handler = t_target (load_txn (w_mem w) txn) in
      if handler = hello then hello_service_handler bs txn msg reply w
      else if handler = goodbye then goodbye_service_handler bs txn msg reply w
      else None)"

definition server_main :: "'k kernel \<Rightarrow> u32 \<Rightarrow> u32 \<Rightarrow> ('k, server_state) world \<Rightarrow>
    (int \<times> ('k, server_state) world) option" where
  "server_main K hello goodbye w =
     (let (obs, w) = binder_open K (128 * 1024) w in
      case obs of None \<Rightarrow> Some (-1, w)
      | Some bs \<Rightarrow>
        Option.bind (svcmgr_publish K bs BINDER_SERVICE_MANAGER ''hello'' hello w) (\<lambda>(ret, w).
          if ret \<noteq> 0 then Some (-1, w)
          else Option.bind (svcmgr_publish K bs BINDER_SERVICE_MANAGER ''goodbye'' goodbye w) (\<lambda>(ret, w).
            let w = binder_set_maxthreads K bs 10 w in
            map_option (\<lambda>w. (0, w))
              (binder_loop K (Some (test_server_handler hello goodbye)) no_death bs w))))"

end
