(* ===== verification/Test_Client.thy ===== *)
theory Test_Client
  imports Test_Server
begin

text \<open>
  The example client, \<open>binder/test_client.c\<close>: it looks its services up with the service
  manager and calls them. Its state is the two handles; the connection \<open>g_bs\<close> is the
  parameter \<open>bs\<close>.
\<close>

record client_state =
  g_hello_handle :: u32
  g_goodbye_handle :: u32

definition request_msg :: "put_op list \<Rightarrow> u32 \<Rightarrow> mem \<Rightarrow> binder_io \<times> mem" where
  "request_msg ops iodata m = fold run_put ops (bio_init zero_bio iodata 512 4, m)"

text \<open>Every call of the client: a parcel in a local array of 512 bytes, the call, and what is done with the reply.\<close>

definition client_call ::
    "'k kernel \<Rightarrow> binder_state \<Rightarrow> put_op list \<Rightarrow> u32 \<Rightarrow> u32 \<Rightarrow> 'a \<Rightarrow>
     (mem \<Rightarrow> binder_io \<Rightarrow> ('k, 's) world \<Rightarrow> 'a \<times> binder_io \<times> ('k, 's) world) \<Rightarrow>
     ('k, 's) world \<Rightarrow> ('a \<times> ('k, 's) world) option" where
  "client_call K bs ops target code failed receive w =
     (let iodata = w_sp w - 512;
          (msg, m) = request_msg ops iodata (w_mem w)
      in map_option (\<lambda>(res, reply, w').
           if res \<noteq> 0 then (failed, w'\<lparr>w_sp := w_sp w\<rparr>)
           else let (r, reply, w') = receive (w_mem w') reply w';
                    (reply, w') = binder_done K bs reply w'
                in (r, w'\<lparr>w_sp := w_sp w\<rparr>))
         (binder_call K no_death bs msg zero_bio target code (w\<lparr>w_sp := iodata, w_mem := m\<rparr>)))"

definition svcmgr_lookup ::
    "'k kernel \<Rightarrow> binder_state \<Rightarrow> u32 \<Rightarrow> string \<Rightarrow> ('k, 's) world \<Rightarrow> (u32 \<times> ('k, 's) world) option" where
  "svcmgr_lookup K bs target name =
     client_call K bs [PutUint32 0, PutString16X (Some SVC_MGR_NAME), PutString16X (Some name)]
       target SVC_MGR_CHECK_SERVICE 0
       (\<lambda>m reply w. let (handle, reply) = bio_get_ref m reply
                    in (handle, reply, if handle \<noteq> 0 then binder_acquire K bs handle w else w))"

definition client_sayhello ::
    "'k kernel \<Rightarrow> binder_state \<Rightarrow> ('k, client_state) world \<Rightarrow> (unit \<times> ('k, client_state) world) option" where
  "client_sayhello K bs w =
     client_call K bs [PutUint32 0, PutString16X (Some ''IHelloService'')]
       (g_hello_handle (w_app w)) HELLO_SVR_CMD_SAYHELLO () (\<lambda>m reply w. ((), reply, w)) w"

definition client_saygoodbye ::
    "'k kernel \<Rightarrow> binder_state \<Rightarrow> ('k, client_state) world \<Rightarrow> (unit \<times> ('k, client_state) world) option" where
  "client_saygoodbye K bs w =
     client_call K bs [PutUint32 0, PutString16X (Some ''IGoodbyeService'')]
       (g_goodbye_handle (w_app w)) GOODBYE_SVR_CMD_SAYGOODBYE () (\<lambda>m reply w. ((), reply, w)) w"

text \<open>The exception word of the reply, and the result when it is zero.\<close>

definition read_result :: "mem \<Rightarrow> binder_io \<Rightarrow> u32 \<times> binder_io" where
  "read_result m reply =
     (let (exception, reply) = bio_get_uint32 m reply in
      if exception \<noteq> 0 then (-1, reply) else bio_get_uint32 m reply)"

definition client_sayhello_to ::
    "'k kernel \<Rightarrow> binder_state \<Rightarrow> string \<Rightarrow> ('k, client_state) world \<Rightarrow> (u32 \<times> ('k, client_state) world) option" where
  "client_sayhello_to K bs name w =
     client_call K bs [PutUint32 0, PutString16X (Some ''IHelloService''), PutString16X (Some name)]
       (g_hello_handle (w_app w)) HELLO_SVR_CMD_SAYHELLO_TO 0
       (\<lambda>m reply w. let (ret, reply) = read_result m reply in (ret, reply, w)) w"

definition client_saygoodbye_to ::
    "'k kernel \<Rightarrow> binder_state \<Rightarrow> string \<Rightarrow> ('k, client_state) world \<Rightarrow> (u32 \<times> ('k, client_state) world) option" where
  "client_saygoodbye_to K bs name w =
     client_call K bs [PutUint32 0, PutString16X (Some ''IGoodbyeService''), PutString16X (Some name)]
       (g_goodbye_handle (w_app w)) GOODBYE_SVR_CMD_SAYGOODBYE_TO 0
       (\<lambda>m reply w. let (ret, reply) = read_result m reply in (ret, reply, w)) w"

text \<open>\<open>args\<close> are \<open>argv[1]\<close> and on. The value of the program is what \<open>main\<close> returns.\<close>

definition client_main :: "'k kernel \<Rightarrow> string list \<Rightarrow> ('k, client_state) world \<Rightarrow>
    (int \<times> ('k, client_state) world) option" where
  "client_main K args w =
     (case args of [] \<Rightarrow> Some (-1, w)
      | cmd # rest \<Rightarrow>
        let (obs, w) = binder_open K (128 * 1024) w in
        case obs of None \<Rightarrow> Some (-1, w)
        | Some bs \<Rightarrow>
          Option.bind (svcmgr_lookup K bs BINDER_SERVICE_MANAGER ''goodbye'' w) (\<lambda>(handle, w).
          if handle = 0 then Some (-1, w)
          else let w = w\<lparr>w_app := (w_app w)\<lparr>g_goodbye_handle := handle\<rparr>\<rparr> in
          Option.bind (svcmgr_lookup K bs BINDER_SERVICE_MANAGER ''hello'' w) (\<lambda>(handle, w).
          if handle = 0 then Some (-1, w)
          else let w = w\<lparr>w_app := (w_app w)\<lparr>g_hello_handle := handle\<rparr>\<rparr> in
          Option.bind
            (if cmd = ''hello'' then
               (case rest of [] \<Rightarrow> map_option snd (client_sayhello K bs w)
                | [name] \<Rightarrow> map_option snd (client_sayhello_to K bs name w)
                | _ \<Rightarrow> Some w)
             else if cmd = ''goodbye'' then
               (case rest of [] \<Rightarrow> map_option snd (client_saygoodbye K bs w)
                | [name] \<Rightarrow> map_option snd (client_saygoodbye_to K bs name w)
                | _ \<Rightarrow> Some w)
             else Some w)
            (\<lambda>w. Some (0, binder_release K bs handle w)))))"

end
