(* ===== verification/Svcmgr_Witness.thy ===== *)
theory Svcmgr_Witness
  imports Svcmgr_Service
begin

text \<open>
  A concrete system, an empty registry and a builder of incoming messages: the inputs on which
  the properties of the service manager are exhibited.
\<close>

definition null_live :: "nat \<Rightarrow> u32 \<Rightarrow> bool" where
  "null_live n a \<longleftrightarrow> (\<exists>i<n. i < 100 \<and> a = of_nat (0x10000 + 0x200 * i))"

lemma null_driver: "driver_ok null_kernel null_bs"
  by (auto simp: driver_ok_def null_kernel_def)

lemma null_addr: "i < 100 \<Longrightarrow> unat (of_nat (0x10000 + 0x200 * i) :: u32) = 0x10000 + 0x200 * i"
  by (intro unat_of_nat_u32) simp

lemma null_addr_inj:
  "i < 100 \<Longrightarrow> j < 100 \<Longrightarrow> (of_nat (0x10000 + 0x200 * i) :: u32) = of_nat (0x10000 + 0x200 * j) \<longleftrightarrow> i = j"
  using null_addr [of i] null_addr [of j] by (metis add_left_cancel mult_left_cancel zero_neq_numeral)

lemma null_malloc:
  "k_malloc null_kernel n k = (p, k') \<Longrightarrow>
   (p \<noteq> 0 \<longrightarrow> \<not> null_live k p \<and> null_live k' p) \<and> (\<forall>a. null_live k a \<longrightarrow> null_live k' a)"
proof (cases "k < 100")
  case True
  assume "k_malloc null_kernel n k = (p, k')"
  then have p: "p = of_nat (0x10000 + 0x200 * k)" "k' = Suc k" using True by (simp_all add: null_kernel_def)
  have "\<not> null_live k p"
    unfolding null_live_def p using True null_addr_inj by (metis less_irrefl)
  moreover have "null_live k' p" unfolding null_live_def p using True by blast
  moreover have "null_live k a \<longrightarrow> null_live k' a" for a
    unfolding null_live_def p using less_SucI by blast
  ultimately show ?thesis by blast
next
  case False
  assume "k_malloc null_kernel n k = (p, k')"
  then show ?thesis using False by (simp add: null_kernel_def)
qed

lemma null_alloc: "alloc_ok null_kernel null_live"
  unfolding alloc_ok_def using null_malloc by (auto simp: null_kernel_def)

definition svc_empty :: svc_state where
  "svc_empty = \<lparr>svclist = 0, svcmgr_handle = 0, svc_heap = (\<lambda>_. None)\<rparr>"

lemma svc_empty_list: "svc_list svc_empty []" "svc_regs svc_empty [] = Map.empty"
  by (simp_all add: svc_list_def svc_empty_def svc_regs_def)

lemma svc_empty_rep: "svc_rep svc_empty Map.empty"
  unfolding svc_rep_def using svc_empty_list by blast

lemma svc_empty_inv: "svcmgr_inv null_kernel null_bs null_live svc_empty k"
  unfolding svcmgr_inv_def using null_driver null_alloc svc_empty_list(1) by fastforce

section \<open>Messages\<close>

definition str16_enc :: "u16 list \<Rightarrow> u8 list" where
  "str16_enc s = le32 (of_nat (length s)) @ utf16_bytes (s @ [0]) @
     replicate (align4_nat (2 * (length s + 1)) - 2 * (length s + 1)) 0"

lemma is_str16_enc: "is_str16 s (str16_enc s)"
proof -
  define n where "n = 2 * (length s + 1)"
  define u where "u = le32 (of_nat (length s)) @ utf16_bytes (s @ [0])"
  have eq: "str16_enc s = u @ replicate (align4_nat n - n) 0" by (simp add: str16_enc_def u_def n_def)
  have len: "length u = 4 + n" by (simp add: u_def n_def)
  have "n \<le> align4_nat n" by (rule align4_nat_ge)
  then have "length (str16_enc s) = str_len s"
    unfolding eq by (simp add: len str_len_def n_def [symmetric] del: mult_Suc_right add_2_eq_Suc')
      (simp add: n_def)
  moreover have "take (4 + n) (str16_enc s) = u" unfolding eq len [symmetric] by simp
  ultimately show ?thesis by (simp only: is_str16_def n_def u_def)
qed

lemma length_str16_enc [simp]: "length (str16_enc s) = str_len s"
  using is_str16_enc [of s] by (simp add: is_str16_def)

definition msg_world :: "binder_transaction_data \<Rightarrow> u8 list \<Rightarrow> u8 list \<Rightarrow> (nat, svc_state) world" where
  "msg_world t offs bs = \<lparr>w_mem = store_bytes 0x7fff1000 (txn_bytes t)
       (store_bytes 0x40001000 offs (store_bytes 0x40000000 bs (\<lambda>_. 0))),
     w_sp = 0x7fff0000, w_k = 0, w_app = svc_empty\<rparr>"

definition msg_bio :: "u8 list \<Rightarrow> u8 list \<Rightarrow> binder_io" where
  "msg_bio offs bs = zero_bio\<lparr>b_data := 0x40000000, b_data0 := 0x40000000, b_data_avail := of_nat (length bs),
     b_offs := 0x40001000, b_offs0 := 0x40001000, b_offs_avail := of_nat (length offs div 4)\<rparr>"

lemma apart_numeral:
  assumes "unat a + n \<le> unat b \<or> unat b + k \<le> unat a" and "unat a + n \<le> 4294967296" and "unat b + k \<le> 4294967296"
  shows "apart a n b k"
  using apart_offsets [of "unat a" n "unat b" k 0] assms by simp

lemma msg_world_load:
  assumes "length bs \<le> 0x1000" and "length offs \<le> 0x1000"
  shows "load_txn (w_mem (msg_world t offs bs)) 0x7fff1000 = t"
    and "load_bytes (w_mem (msg_world t offs bs)) 0x40000000 (length bs) = bs"
    and "load_bytes (w_mem (msg_world t offs bs)) 0x40001000 (length offs) = offs"
proof -
  show "load_txn (w_mem (msg_world t offs bs)) 0x7fff1000 = t"
    by (rule load_txn_bytes [where n = 40 and rest = "[]"]) (simp add: msg_world_def load_store_same_len)
  have "load_bytes (w_mem (msg_world t offs bs)) 0x40000000 (length bs) =
      load_bytes (store_bytes 0x40001000 offs (store_bytes 0x40000000 bs (\<lambda>_. 0))) 0x40000000 (length bs)"
    unfolding msg_world_def using assms by (simp, intro load_store_apart apart_numeral) simp_all
  also have "\<dots> = load_bytes (store_bytes 0x40000000 bs (\<lambda>_. 0)) 0x40000000 (length bs)"
    using assms by (intro load_store_apart apart_numeral) simp_all
  also have "\<dots> = bs" using assms by (intro load_store_same) simp
  finally show "load_bytes (w_mem (msg_world t offs bs)) 0x40000000 (length bs) = bs" .
  have "load_bytes (w_mem (msg_world t offs bs)) 0x40001000 (length offs) =
      load_bytes (store_bytes 0x40001000 offs (store_bytes 0x40000000 bs (\<lambda>_. 0))) 0x40001000 (length offs)"
    unfolding msg_world_def using assms by (simp, intro load_store_apart apart_numeral) simp_all
  also have "\<dots> = offs" using assms by (intro load_store_same) simp
  finally show "load_bytes (w_mem (msg_world t offs bs)) 0x40001000 (length offs) = offs" .
qed

lemma msg_world_sel [simp]:
  "w_sp (msg_world t offs bs) = 0x7fff0000" "w_k (msg_world t offs bs) = 0" "w_app (msg_world t offs bs) = svc_empty"
  by (simp_all add: msg_world_def)

text \<open>The words of a request, and that the handler's reader finds them.\<close>

definition request_bytes :: "u16 list \<Rightarrow> u8 list \<Rightarrow> u8 list" where
  "request_bytes nm tail = le32 0 @ str16_enc svcmgr_id @ str16_enc nm @ tail"

lemma msg_bio_read:
  assumes "length bs \<le> 0x1000"
  shows "bio_cursor (msg_bio offs bs)"
    and "length offs \<le> 0x1000 \<Longrightarrow> bio_rest (w_mem (msg_world t offs bs)) (msg_bio offs bs) = bs"
proof -
  have room: "bio_room (msg_bio offs bs) = length bs"
    using assms by (simp add: bio_room_def msg_bio_def)
  then show "length offs \<le> 0x1000 \<Longrightarrow> bio_rest (w_mem (msg_world t offs bs)) (msg_bio offs bs) = bs"
    using msg_world_load(2) [OF assms] by (simp add: bio_rest_def) (simp add: msg_bio_def)
  show "bio_cursor (msg_bio offs bs)"
    using assms room by (simp add: bio_cursor_def bio_room_def) (simp add: msg_bio_def)
qed

lemma msg_request:
  assumes "length (request_bytes nm tail) \<le> 0x1000" and "length offs \<le> 0x1000"
  shows "svc_request (w_mem (msg_world t offs (request_bytes nm tail))) (msg_bio offs (request_bytes nm tail)) nm tail"
proof -
  have "length nm < 2147483640"
    using assms(1) by (simp add: request_bytes_def str_len_def align4_nat_def)
  moreover have "bio_rest (w_mem (msg_world t offs (request_bytes nm tail))) (msg_bio offs (request_bytes nm tail)) =
      le32 0 @ str16_enc svcmgr_id @ str16_enc nm @ tail"
    using msg_bio_read(2) [OF assms] by (simp add: request_bytes_def)
  ultimately show ?thesis unfolding svc_request_def using is_str16_enc msg_bio_read(1) [OF assms(1)] by blast
qed

definition call_txn :: "u32 \<Rightarrow> u32 \<Rightarrow> binder_transaction_data" where
  "call_txn code euid = \<lparr>t_target = 0, t_cookie = 0, t_code = code, t_flags = 0, t_sender_pid = 100,
     t_sender_euid = euid, t_data_size = 0, t_offsets_size = 0, t_buffer = 0x40000000, t_offsets = 0x40001000\<rparr>"

text \<open>A message with an object: the offsets array points at it.\<close>

lemma msg_add_args:
  assumes "bs = request_bytes nm (obj_bytes (handle_obj h) @ le32 a)" and "length bs \<le> 0x1000"
    and "offs = le32 (of_nat (args_at nm))"
  shows "add_args (w_mem (msg_world t offs bs)) (msg_bio offs bs) nm h (Some a)"
proof -
  have "load32 (w_mem (msg_world t offs bs)) 0x40001000 = of_nat (args_at nm)"
    by (rule load32_prefix [where bs = "[]" and n = 4]) (use msg_world_load(3) [OF assms(2), of offs t] assms(3) in simp)
  then have "has_offset (w_mem (msg_world t offs bs)) (msg_bio offs bs) (of_nat (args_at nm))"
    by (simp add: has_offset_def msg_bio_def assms(3))
  then show ?thesis
    using msg_request [of nm "obj_bytes (handle_obj h) @ le32 a" offs t] assms
    by (simp add: add_args_def) (simp add: msg_bio_def)
qed

lemma above_null_map: "0x40020000 \<le> unat a \<Longrightarrow> \<not> in_map null_bs a"
  by (simp add: in_map_def null_bs_def unat_sub_u32)

text \<open>A world whose memory holds a name at a fixed address.\<close>

abbreviation name_world :: "u16 list \<Rightarrow> (nat, svc_state) world" where
  "name_world nm \<equiv> msg_world (call_txn 0 0) [] (utf16_bytes nm)"

lemma name_world_name:
  assumes "length nm \<le> 0x800"
  shows "u16s_at (w_mem (name_world nm)) 0x40000000 (length nm) = nm"
  by (rule u16s_at_utf16 [where n = "2 * length nm" and rest = "[]"])
    (use msg_world_load(2) [of "utf16_bytes nm" "[]" "call_txn 0 0"] assms in simp)

lemma name_world_hi: "u16s_at (w_mem (name_world [104, 105])) 0x40000000 (unat (2 :: u32)) = [104, 105]"
  using name_world_name [of "[104, 105]"] by (simp add: numeral_2_eq_2 [symmetric])

lemma name_world_ok: "svc_ok null_kernel null_bs null_live [] Map.empty (name_world nm)"
  using null_driver null_alloc svc_empty_list by (simp add: svc_ok_def)

lemma null_malloc_0: "k_malloc null_kernel n 0 = (0x10000, 1)"
  by (simp add: null_kernel_def)

lemma null_not_refused: "length nm \<le> 127 \<Longrightarrow> nm \<noteq> [] \<Longrightarrow> h \<noteq> 0 \<Longrightarrow> \<not> add_refused null_kernel 0 R nm h"
  by (simp add: add_refused_def null_malloc_0)

lemma name_world_add:
  assumes "1 \<le> length nm" and "length nm \<le> 127" and "h \<noteq> 0"
  shows "\<exists>ps w'. do_add_service null_kernel null_bs 0x40000000 (of_nat (length nm)) h uid ai spid (name_world nm) =
     Some (0, w') \<and> svc_ok null_kernel null_bs null_live ps (reg_add nm h (ai \<noteq> 0) Map.empty) w'"
proof -
  have "nm = u16s_at (w_mem (name_world nm)) 0x40000000 (unat (of_nat (length nm) :: u32))"
    using name_world_name [of nm] assms by simp
  note spec = do_add_service_spec [OF name_world_ok this, of h uid ai spid]
  have "nm \<noteq> []" using assms(1) by auto
  then have "\<not> add_refused null_kernel (w_k (name_world nm)) Map.empty nm h"
    using null_not_refused [of nm h Map.empty] assms by simp
  then show ?thesis using spec unfolding add_result_def by (simp only: if_False) blast
qed

end
