(* ===== verification/Svcmgr_Properties.thy ===== *)
theory Svcmgr_Properties
  imports Svcmgr_Witness
begin

text \<open>
  The properties of the service manager: what a lookup answers, what a registration does, who
  may find a service, what a death notification does, and that the server keeps serving.
\<close>

section \<open>Lookup\<close>

text \<open>
  A lookup request is answered from the registry. For a well-formed \<open>GET\<close> or \<open>CHECK\<close>
  request for the name \<open>nm\<close>, the handler succeeds and leaves the registry alone; the reply
  is the handle registered under exactly that name, or the word 0 when there is none, when
  the service has died, or when the caller's user id is isolated and the service is not open to
  isolated processes.
\<close>

theorem svcmgr_find_reply:
  assumes "svc_rep (w_app w) R" and "svc_request (w_mem w) msg nm tail"
    and "t = load_txn (w_mem w) txn" and "t_target t = svcmgr_handle (w_app w)"
    and "t_code t = SVC_MGR_GET_SERVICE \<or> t_code t = SVC_MGR_CHECK_SERVICE"
    and "h = reg_find (R nm) (t_sender_euid t)"
  shows "svcmgr_handler K bs txn msg reply w =
     Some (put_reply (if h = 0 then bio_put_uint32 0 else bio_put_ref h) reply w)"
proof -
  obtain ps where "svc_list (w_app w) ps" "svc_regs (w_app w) ps = R"
    using assms(1) by (auto simp: svc_rep_def)
  then show ?thesis using handler_find [of w ps msg nm tail t txn h] assms by blast
qed

theorem svcmgr_find_reply_witness:
  "svcmgr_handler null_kernel null_bs 0x7fff1000 (msg_bio [] (request_bytes [104, 105] []))
     (bio_init zero_bio 0x7fff2000 256 4) (msg_world (call_txn 2 1000) [] (request_bytes [104, 105] [])) =
   Some (put_reply (bio_put_uint32 0) (bio_init zero_bio 0x7fff2000 256 4)
     (msg_world (call_txn 2 1000) [] (request_bytes [104, 105] [])))"
proof -
  let ?w = "msg_world (call_txn 2 1000) [] (request_bytes [104, 105] [])"
  have len: "length (request_bytes [104, 105] []) \<le> 0x1000"
    by (simp add: request_bytes_def str_len_def align4_nat_def)
  have t: "call_txn 2 1000 = load_txn (w_mem ?w) 0x7fff1000"
    using msg_world_load(1) [OF len, of "[]"] by simp
  show ?thesis
    using svcmgr_find_reply [OF _ msg_request [OF len, of "[]"] t, of Map.empty 0] svc_empty_rep
    by (simp add: call_txn_def svc_empty_def svc_consts reg_find_def)
qed

section \<open>Registration\<close>

text \<open>
  C20: A registration request does exactly one update of the registry or none. The handler
  always returns on a well-formed \<open>ADD\<close> request; it refuses, with status -1 and the
  registry as it was, a zero handle, an empty name, a name of more than 127 units, and a new
  name for which no memory is left; otherwise it succeeds and the registry maps the name to the
  new handle, with the flag of the request for a new name and the old flag for a known one.
\<close>

theorem svcmgr_add_request:
  assumes "svcmgr_inv K bs live (w_app w) (w_k w)" and "svc_rep (w_app w) R" and "64 \<le> unat (w_sp w)"
    and "add_args (w_mem w) msg nm h flag"
    and "t = load_txn (w_mem w) txn" and "t_target t = svcmgr_handle (w_app w)" and "t_code t = SVC_MGR_ADD_SERVICE"
  shows "\<exists>r reply' w'. svcmgr_handler K bs txn msg reply w = Some (r, reply', w') \<and>
     (if add_refused K (w_k w) R nm h then r = -1 \<and> svc_rep (w_app w') R
      else r = 0 \<and> svc_rep (w_app w') (reg_add nm h (flag \<notin> {None, Some 0}) R))"
proof -
  obtain ps where ok: "svc_ok K bs live ps R w" using svc_ok_intro assms(1-3) by blast
  have len: "unat (of_nat (length nm) :: u32) = length nm"
    using assms(4) by (simp add: add_args_def svc_request_def)
  define ai :: int where "ai = (if flag \<in> {None, Some 0} then 0 else 1)"
  obtain s where s0: "u16s_at (w_mem w) s (length nm) = nm"
    and eq: "svcmgr_handler K bs txn msg reply w =
     map_option (\<lambda>(r, w). if r \<noteq> 0 then (-1, reply, w) else put_reply (bio_put_uint32 0) reply w)
       (do_add_service K bs s (of_nat (length nm)) h (t_sender_euid t) ai (t_sender_pid t) w)"
    using handler_add [OF assms(4-7), of K bs reply] unfolding ai_def by blast
  have s: "nm = u16s_at (w_mem w) s (unat (of_nat (length nm) :: u32))"
    unfolding len by (rule s0 [symmetric])
  have flag: "ai \<noteq> 0 \<longleftrightarrow> flag \<notin> {None, Some 0}" by (simp add: ai_def)
  note spec = do_add_service_spec [OF ok s, of h "t_sender_euid t" ai "t_sender_pid t", unfolded flag]
  show ?thesis
  proof (cases "add_refused K (w_k w) R nm h")
    case True
    then obtain ps' w' where w': "do_add_service K bs s (of_nat (length nm)) h (t_sender_euid t) ai (t_sender_pid t) w =
        Some (-1, w')" "svc_ok K bs live ps' R w'"
      using spec by (auto simp: add_result_def)
    then show ?thesis using True svc_okD(8) [OF w'(2)] by (simp add: eq)
  next
    case False
    then obtain ps' w' where w': "do_add_service K bs s (of_nat (length nm)) h (t_sender_euid t) ai (t_sender_pid t) w =
        Some (0, w')" "svc_ok K bs live ps' (reg_add nm h (flag \<notin> {None, Some 0}) R) w'"
      using spec by (auto simp: add_result_def)
    then show ?thesis using False svc_okD(8) [OF w'(2)] by (simp add: eq put_reply_eq)
  qed
qed

theorem svcmgr_add_request_witness:
  "\<exists>r reply' w'. svcmgr_handler null_kernel null_bs 0x7fff1000
       (msg_bio (le32 (of_nat (args_at [104, 105]))) (request_bytes [104, 105] (obj_bytes (handle_obj 7) @ le32 1)))
       zero_bio
       (msg_world (call_txn 3 1000) (le32 (of_nat (args_at [104, 105])))
          (request_bytes [104, 105] (obj_bytes (handle_obj 7) @ le32 1))) = Some (r, reply', w') \<and>
     r = 0 \<and> svc_rep (w_app w') (reg_add [104, 105] 7 True Map.empty)"
proof -
  let ?bs = "request_bytes [104, 105] (obj_bytes (handle_obj 7) @ le32 1)"
  let ?offs = "le32 (of_nat (args_at [104, 105]))"
  let ?w = "msg_world (call_txn 3 1000) ?offs ?bs"
  have len: "length ?bs \<le> 0x1000"
    by (simp add: request_bytes_def str_len_def align4_nat_def)
  have t: "call_txn 3 1000 = load_txn (w_mem ?w) 0x7fff1000"
    using msg_world_load(1) [OF len] by simp
  have inv: "svcmgr_inv null_kernel null_bs null_live (w_app ?w) (w_k ?w)" by (simp add: svc_empty_inv)
  have rep: "svc_rep (w_app ?w) Map.empty" by (simp add: svc_empty_rep)
  have sp: "64 \<le> unat (w_sp ?w)" by simp
  have tgt: "t_target (call_txn 3 1000) = svcmgr_handle (w_app ?w)" by (simp add: call_txn_def svc_empty_def)
  have code: "t_code (call_txn 3 1000) = SVC_MGR_ADD_SERVICE" by (simp add: call_txn_def svc_consts)
  have "\<not> add_refused null_kernel (w_k ?w) Map.empty [104, 105] 7"
    using null_not_refused [of "[104, 105]" 7] by simp
  then show ?thesis
    using svcmgr_add_request [OF inv rep sp msg_add_args [OF refl len refl] t tgt code] by simp
qed

text \<open>
  C21: What was registered is found. After \<open>do_add_service\<close> has returned 0 for a name, a
  lookup of that name answers its handle to every caller entitled to it, and every other
  name is answered as before. The lookup may be made from any memory that holds the name.
\<close>

theorem find_after_add:
  assumes "svcmgr_inv K bs live (w_app w) (w_k w)" and "svc_rep (w_app w) R" and "64 \<le> unat (w_sp w)"
    and "nm = u16s_at (w_mem w) s (unat len)" and add: "do_add_service K bs s len h uid ai spid w = Some (0, w')"
    and nm2: "nm2 = u16s_at m2 s2 (unat len2)"
  shows "do_find_service m2 (w_app w') s2 len2 uid2 spid2 =
     Some (if nm2 = nm
           then if isolated uid2 \<and> \<not> (case R nm of None \<Rightarrow> ai \<noteq> 0 | Some (_, ai0) \<Rightarrow> ai0) then 0 else h
           else reg_find (R nm2) uid2)"
proof -
  obtain ps where ok: "svc_ok K bs live ps R w" using svc_ok_intro assms(1-3) by blast
  have "svc_rep (w_app w') (reg_add nm h (ai \<noteq> 0) R)"
    using do_add_service_spec [OF ok assms(4), of h uid ai spid] svc_okD(8)
    unfolding add add_result_def by (auto split: if_splits)
  then obtain ps' where "svc_list (w_app w') ps'" "svc_regs (w_app w') ps' = reg_add nm h (ai \<noteq> 0) R"
    by (auto simp: svc_rep_def)
  then show ?thesis
    using do_find_service_reg [of "w_app w'" ps' m2 s2 len2 uid2 spid2] nm2
    by (auto simp: reg_find_def reg_add_def split: option.splits)
qed

theorem find_after_add_witness:
  "\<exists>w'. do_add_service null_kernel null_bs 0x40000000 2 7 1000 0 50 (name_world [104, 105]) = Some (0, w') \<and>
     do_find_service (w_mem (name_world [104, 105])) (w_app w') 0x40000000 2 1000 60 = Some 7"
proof -
  let ?w = "name_world [104, 105]"
  obtain w' where w': "do_add_service null_kernel null_bs 0x40000000 2 7 1000 0 50 ?w = Some (0, w')"
    using name_world_add [of "[104, 105]" 7 1000 0 50] by auto
  have inv: "svcmgr_inv null_kernel null_bs null_live (w_app ?w) (w_k ?w)" by (simp add: svc_empty_inv)
  have rep: "svc_rep (w_app ?w) Map.empty" by (simp add: svc_empty_rep)
  have sp: "64 \<le> unat (w_sp ?w)" by simp
  have nm: "[104, 105] = u16s_at (w_mem ?w) 0x40000000 (unat (2 :: u32))"
    using name_world_hi by simp
  show ?thesis
    using find_after_add [OF inv rep sp nm w' nm, of 1000 60] w' by (simp add: isolated_def)
qed

text \<open>
  A name that has once been closed to isolated processes stays closed. When a known name
  is registered again with \<open>allow_isolated\<close> set, the registration succeeds and the new
  handle is found by ordinary callers, but the flag of the first registration is kept, so an
  isolated process still gets no handle.
\<close>

theorem override_keeps_isolation:
  assumes "svcmgr_inv K bs live (w_app w) (w_k w)" and "svc_rep (w_app w) R" and "64 \<le> unat (w_sp w)"
    and "nm = u16s_at (w_mem w) s (unat len)" and "R nm = Some (h0, False)"
    and "h \<noteq> 0" and "1 \<le> unat len" and "unat len \<le> 127"
  shows "\<exists>w'. do_add_service K bs s len h uid 1 spid w = Some (0, w') \<and>
     (\<forall>m2 s2 len2 uid2 spid2. u16s_at m2 s2 (unat len2) = nm \<longrightarrow>
        do_find_service m2 (w_app w') s2 len2 uid2 spid2 = Some (if isolated uid2 then 0 else h))"
proof -
  obtain ps where ok: "svc_ok K bs live ps R w" using svc_ok_intro assms(1-3) by blast
  have "len \<noteq> 0" "\<not> len > 127" using assms(7,8) by (auto simp: word_less_nat_alt)
  then have "add_result K bs live (R(nm \<mapsto> (h, False))) w (do_add_service K bs s len h uid 1 spid w) 0"
    using assms(4-6) by (intro do_add_service_update [OF ok]) auto
  then obtain w' ps' where w': "do_add_service K bs s len h uid 1 spid w = Some (0, w')"
      "svc_list (w_app w') ps'" "svc_regs (w_app w') ps' = R(nm \<mapsto> (h, False))"
    using svc_okD(3,5) unfolding add_result_def by blast
  then show ?thesis by (auto simp: do_find_service_reg reg_find_def)
qed

lemma name_world_registered:
  "\<exists>w :: (nat, svc_state) world. svcmgr_inv null_kernel null_bs null_live (w_app w) (w_k w) \<and> svc_rep (w_app w) (reg_add [104, 105] 7 False Map.empty) \<and>
     64 \<le> unat (w_sp w) \<and> [104, 105] = u16s_at (w_mem w) 0x40000000 (unat (2 :: u32)) \<and>
     (\<exists>a. a \<noteq> 0 \<and> find_svc (w_mem w) (w_app w) 0x40000000 2 = Some a)"
proof -
  let ?w0 = "name_world [104, 105]"
  obtain w' where w': "do_add_service null_kernel null_bs 0x40000000 2 7 1000 0 50 ?w0 = Some (0, w')"
      and ok: "\<exists>ps. svc_ok null_kernel null_bs null_live ps (reg_add [104, 105] 7 False Map.empty) w'"
    using name_world_add [of "[104, 105]" 7 1000 0 50] by auto
  let ?w = "w'\<lparr>w_mem := w_mem ?w0\<rparr>"
  obtain ps where ps: "svc_ok null_kernel null_bs null_live ps (reg_add [104, 105] 7 False Map.empty) ?w"
    using ok by (auto simp: svc_ok_def)
  have nm: "[104, 105] = u16s_at (w_mem ?w) 0x40000000 (unat (2 :: u32))"
    using name_world_hi by simp
  have "\<exists>a. a \<noteq> 0 \<and> find_svc (w_mem ?w) (w_app ?w) 0x40000000 2 = Some a"
    using find_svc_nm(2) [OF ps nm] by (auto simp: reg_add_def)
  then show ?thesis using svc_okD(6-8) [OF ps] nm by (intro exI [of _ ?w]) blast
qed

theorem override_keeps_isolation_witness:
  "\<exists>w w'. do_add_service null_kernel null_bs 0x40000000 2 9 1000 1 50 w = Some (0, w') \<and>
     do_find_service (w_mem w) (w_app w') 0x40000000 2 99000 60 = Some 0 \<and>
     do_find_service (w_mem w) (w_app w') 0x40000000 2 1000 60 = Some (9 :: u32)"
proof -
  obtain w :: "(nat, svc_state) world" where w: "svcmgr_inv null_kernel null_bs null_live (w_app w) (w_k w)"
      "svc_rep (w_app w) (reg_add [104, 105] 7 False Map.empty)" "64 \<le> unat (w_sp w)"
      "[104, 105] = u16s_at (w_mem w) 0x40000000 (unat (2 :: u32))"
    using name_world_registered by blast
  then show ?thesis
    using override_keeps_isolation [OF w, of 7 9 1000 50] by (fastforce simp: reg_add_def isolated_def)
qed

section \<open>Death\<close>

text \<open>
  C22: A death notification withdraws the registration whose record it names. After the
  callback for the record \<open>a\<close> that \<open>find_svc\<close> returns for a name, no caller finds
  that name any more, and every other name is answered as before.
\<close>

theorem death_withdraws:
  assumes "svcmgr_inv K bs live (w_app w) (w_k w)" and "svc_rep (w_app w) R" and "64 \<le> unat (w_sp w)"
    and nm: "nm = u16s_at (w_mem w) s (unat len)" and a: "find_svc (w_mem w) (w_app w) s len = Some a" "a \<noteq> 0"
    and nm2: "nm2 = u16s_at m2 s2 (unat len2)"
  shows "do_find_service m2 (w_app (svc_death K bs (a + offsetof_death) w)) s2 len2 uid spid =
     Some (if nm2 = nm then 0 else reg_find (R nm2) uid)"
proof -
  obtain ps where ok: "svc_ok K bs live ps R w" using svc_ok_intro assms(1-3) by blast
  have "R nm \<noteq> None" using find_svc_nm(1) [OF ok nm] a by (metis option.inject)
  then have key: "a \<in> set ps" "nm = svc_key (svc_at (w_app w) a)"
    using find_svc_nm(2) [OF ok nm] a(1) by auto
  note ok' = svc_death_ok [OF ok key]
  show ?thesis
    using do_find_service_reg [OF svc_okD(3) [OF ok'], of m2 s2 len2 uid spid] svc_okD(5) [OF ok'] nm2
    by (simp add: reg_find_def)
qed

theorem death_withdraws_witness:
  "\<exists>w a. find_svc (w_mem w) (w_app w) 0x40000000 2 = Some a \<and> a \<noteq> 0 \<and>
     do_find_service (w_mem w) (w_app w) 0x40000000 2 1000 60 = Some (7 :: u32) \<and>
     do_find_service (w_mem w) (w_app (svc_death null_kernel null_bs (a + offsetof_death) w)) 0x40000000 2 1000 60 = Some 0"
proof -
  obtain w :: "(nat, svc_state) world" and a where w: "svcmgr_inv null_kernel null_bs null_live (w_app w) (w_k w)"
      "svc_rep (w_app w) (reg_add [104, 105] 7 False Map.empty)" "64 \<le> unat (w_sp w)"
      "[104, 105] = u16s_at (w_mem w) 0x40000000 (unat (2 :: u32))"
      "find_svc (w_mem w) (w_app w) 0x40000000 2 = Some a" "a \<noteq> 0"
    using name_world_registered by blast
  obtain ps where "svc_list (w_app w) ps" "svc_regs (w_app w) ps = reg_add [104, 105] 7 False Map.empty"
    using w(2) by (auto simp: svc_rep_def)
  then have "do_find_service (w_mem w) (w_app w) 0x40000000 2 1000 60 = Some 7"
    using do_find_service_reg [of "w_app w" ps "w_mem w" "0x40000000" 2 1000 60] w(4)
    by (simp add: reg_find_def reg_add_def isolated_def)
  then show ?thesis
    using death_withdraws [OF w w(4), of 1000 60] w(5,6) by auto
qed



section \<open>Serving\<close>







text \<open>
  Foreign requests are rejected. A transaction whose target is not the service manager, or
  that is not a ping and does not announce the interface \<open>android.os.IServiceManager\<close>, is
  answered with status -1; memory, registry and driver are untouched.
\<close>

theorem svcmgr_rejects:
  assumes "t = load_txn (w_mem w) txn"
    and "bio_get_uint32 (w_mem w) msg = (pol, msg1)" and "bio_get_string16 (w_mem w) msg1 = (s, len, msg2)"
    and "t_target t \<noteq> svcmgr_handle (w_app w) \<or>
      t_code t \<noteq> PING_TRANSACTION \<and> (s = 0 \<or> len \<noteq> 26 \<or> u16s_at (w_mem w) s 26 \<noteq> widen SVC_MGR_NAME)"
  shows "svcmgr_handler K bs txn msg reply w = Some (-1, reply, w)"
proof -
  have "svcmgr_id = widen SVC_MGR_NAME"
    by (simp add: svcmgr_id_def widen_def SVC_MGR_NAME_def c_string_def)
  then show ?thesis using assms by (auto simp: svcmgr_handler_def Let_def)
qed

theorem svcmgr_rejects_witness:
  "svcmgr_handler null_kernel null_bs 0x7fff1000 zero_bio zero_bio (msg_world (call_txn 1 0) [] []) =
     Some (-1, zero_bio, msg_world (call_txn 1 0) [] [])"
proof -
  let ?w = "msg_world (call_txn 1 0) [] []"
  have t: "call_txn 1 0 = load_txn (w_mem ?w) 0x7fff1000" using msg_world_load(1) [of "[]" "[]"] by simp
  have 1: "bio_get_uint32 (w_mem ?w) zero_bio = (0, bio_overflow zero_bio)"
    by (simp add: bio_get_uint32_def bio_get_def zero_bio_def align4_def)
  have 2: "bio_get_string16 (w_mem ?w) (bio_overflow zero_bio) = (0, 0, bio_overflow (bio_overflow zero_bio))"
    by (simp add: bio_get_string16_def bio_get_uint32_def bio_get_def zero_bio_def align4_def bio_overflow_def)
  have "t_code (call_txn 1 0) \<noteq> PING_TRANSACTION"
    by (simp add: call_txn_def svc_consts)
  then show ?thesis using svcmgr_rejects [OF t 1 2] by simp
qed

text \<open>
  \<open>str16eq\<close> decides equality. On a terminated 16-bit string and a terminated C string it
  returns 1 exactly when they are the same string, unit for character, and 0 otherwise.
\<close>

theorem str16eq_correct:
  assumes "0 \<notin> set a" and "CHR 0x00 \<notin> set b"
  shows "str16eq (a @ [0]) (b @ [CHR 0x00]) = (if a = widen b then 1 else 0)"
proof -
  have "c_string b = b" using assms(2) by (auto simp: c_string_def takeWhile_eq_all_conv)
  then have "widen b = map of_char b" by (simp add: widen_def)
  moreover have "str16eq (a @ [0]) (b @ [CHR 0x00]) = (if a = map of_char b then 1 else 0)"
    using assms
  proof (induction a arbitrary: b)
    case Nil
    then show ?case by (cases b) auto
  next
    case (Cons x a)
    then show ?case by (cases b) auto
  qed
  ultimately show ?thesis by simp
qed

theorem str16eq_correct_witness: "str16eq [104, 105, 0] (''hi'' @ [CHR 0x00]) = 1"
proof -
  have "widen ''hi'' = [104, 105]" by (simp add: widen_def c_string_def)
  then show ?thesis using str16eq_correct [of "[104, 105]" "''hi''"] by simp
qed

end
