(* ===== verification/Binder_System.thy ===== *)
theory Binder_System
  imports Test_Client Svcmgr_Properties
begin

text \<open>
  The parts together: messages the client programs build, as the service manager and the
  example server read them, and the replies on their way back. What the driver does to a
  message on the way is the predicate \<open>delivered\<close>: the same bytes and object offsets, at
  addresses of the receiver's.
\<close>

section \<open>Delivery\<close>

definition delivered :: "mem \<Rightarrow> binder_io \<Rightarrow> mem \<Rightarrow> binder_io \<Rightarrow> bool" where
  "delivered m b m2 r \<longleftrightarrow> bio_cursor r \<and> b_data r = b_data0 r \<and> bio_rest m2 r = bio_written m b \<and>
     map (\<lambda>i. load32 m2 (b_offs r + 4 * of_nat i)) [0..<unat (b_offs_avail r)] = bio_objs m b"

text \<open>
  A message whose last item is an object of the sender: the driver replaces the object by a
  handle of the receiver's.
\<close>

definition delivered_handle :: "mem \<Rightarrow> binder_io \<Rightarrow> u32 \<Rightarrow> mem \<Rightarrow> binder_io \<Rightarrow> bool" where
  "delivered_handle m b h m2 r \<longleftrightarrow> bio_cursor r \<and> b_data r = b_data0 r \<and>
     bio_rest m2 r = take (bio_used b - 16) (bio_written m b) @ obj_bytes (handle_obj h) \<and>
     map (\<lambda>i. load32 m2 (b_offs r + 4 * of_nat i)) [0..<unat (b_offs_avail r)] = bio_objs m b"

lemma fresh_puts:
  assumes "buffer_ok buf md mo" and "list_all op_valid ops"
    and "sum_list (map op_len ops) \<le> unat md - 4 * unat mo" and "sum_list (map op_slots ops) \<le> unat mo"
    and "fold run_put ops (bio_init b buf md mo, m) = (b', m')"
  shows "\<exists>bss. list_all2 op_enc ops bss \<and> bio_written m' b' = concat bss \<and> bio_objs m' b' = offs_from 0 ops"
  using bio.puts_fit [of buf "unat md" "unat mo" "(bio_init b buf md mo, m)" ops] bio_init_ok [OF assms(1)] assms(2-)
  by auto

lemma widen_SVC_MGR_NAME: "widen SVC_MGR_NAME = svcmgr_id"
  by (simp add: svcmgr_id_def widen_def SVC_MGR_NAME_def c_string_def)

lemma length_widen: "length (widen s) \<le> length s"
  using length_takeWhile_le by (simp add: widen_def c_string_def)

lemma string_op:
  assumes "length s \<le> 200"
  shows "op_units (PutString16X (Some s)) = Some (widen s)" and "op_len (PutString16X (Some s)) = str_len (widen s)"
    and "str_len (widen s) \<le> 412"
proof -
  have l: "length (c_string s) \<le> 200" using assms length_widen [of s] by (simp add: widen_def)
  then show "op_units (PutString16X (Some s)) = Some (widen s)" "op_len (PutString16X (Some s)) = str_len (widen s)"
    by simp_all
  show "str_len (widen s) \<le> 412"
    using l by (simp add: str_len_def align4_nat_def widen_def)
qed

lemma name_op: "op_units (PutString16X (Some SVC_MGR_NAME)) = Some svcmgr_id"
    "op_len (PutString16X (Some SVC_MGR_NAME)) = 60" "str_len svcmgr_id = 60"
proof -
  have l: "length SVC_MGR_NAME \<le> 200" by (simp add: SVC_MGR_NAME_def)
  show "op_units (PutString16X (Some SVC_MGR_NAME)) = Some svcmgr_id"
    using string_op(1) [OF l] widen_SVC_MGR_NAME by simp
  show 1: "str_len svcmgr_id = 60" by (simp add: str_len_def align4_nat_def)
  show "op_len (PutString16X (Some SVC_MGR_NAME)) = 60"
    using string_op(2) [OF l] widen_SVC_MGR_NAME 1 by simp
qed

section \<open>The requests of the client programs\<close>

text \<open>The bytes of a request with a name: the policy word, the interface and the name.\<close>

definition call_bytes :: "string \<Rightarrow> string \<Rightarrow> u8 list \<Rightarrow> bool" where
  "call_bytes iface name bs \<longleftrightarrow> length name \<le> 200 \<and>
     (\<exists>pol e1 e2. bs = le32 pol @ e1 @ e2 \<and> is_str16 (widen iface) e1 \<and> is_str16 (widen name) e2)"

abbreviation call_ops :: "string \<Rightarrow> string \<Rightarrow> put_op list" where
  "call_ops iface name \<equiv> [PutUint32 0, PutString16X (Some iface), PutString16X (Some name)]"

lemma call_built:
  assumes "buffer_ok iodata 512 4" and iface: "length iface \<le> 30" and len: "length name \<le> 200"
    and msg: "request_msg (call_ops iface name) iodata m = (msg, m1)"
  shows "call_bytes iface name (bio_written m1 msg)" and "bio_objs m1 msg = []" and "\<not> bio_overflowed msg"
proof -
  let ?ops = "call_ops iface name" and ?p = "(bio_init zero_bio iodata 512 4, m)"
  have il: "length iface \<le> 200" using iface by simp
  have "length (widen iface) \<le> 30" using iface length_widen [of iface] by simp
  then have "str_len (widen iface) \<le> 70" by (simp add: str_len_def align4_nat_def)
  then have room: "sum_list (map op_len ?ops) \<le> 512 - 4 * 4"
    using string_op(2,3) [OF len] string_op(2) [OF il] by (simp del: op_len.simps(4,5))
  have "list_all op_valid ?ops" using len il by simp
  then obtain bss where bss: "list_all2 op_enc ?ops bss" "bio_written m1 msg = concat bss" "bio_objs m1 msg = []"
      and over: "bio_overflowed msg = bio_overflowed (fst ?p)"
    using bio.puts_fit [of iodata 512 4 ?p ?ops] bio_init_ok [OF assms(1)] room msg by (auto simp: request_msg_def)
  then obtain e1 e2 where "bss = [le32 0, e1, e2]" "is_str16 (widen iface) e1" "is_str16 (widen name) e2"
    using string_op(1) [OF il] string_op(1) [OF len] by (auto simp: list_all2_Cons1)
  then show "call_bytes iface name (bio_written m1 msg)" "bio_objs m1 msg = []"
    using bss(2,3) len unfolding call_bytes_def by fastforce+
  show "\<not> bio_overflowed msg" using over bio_init_not_overflowed [OF assms(1)] by simp
qed

lemma lookup_request:
  assumes "call_bytes SVC_MGR_NAME name (bio_written m1 msg)" and "delivered m1 msg m2 r"
  shows "svc_request m2 r (widen name) []"
  using assms length_widen [of name] unfolding call_bytes_def svc_request_def delivered_def widen_SVC_MGR_NAME by fastforce

lemma length_SVC_MGR_NAME: "length SVC_MGR_NAME \<le> 30"
  by (simp add: SVC_MGR_NAME_def)

lemmas lookup_built = call_built [OF _ length_SVC_MGR_NAME]
lemmas lookup_delivered = lookup_request [OF lookup_built(1)]

lemma publish_delivered:
  assumes "buffer_ok iodata 512 4" and len: "length name \<le> 200"
    and msg: "publish_msg name ptr iodata m = (msg, m1)"
    and del: "delivered_handle m1 msg h m2 r"
  shows "add_args m2 r (widen name) h None"
proof -
  let ?ops = "[PutUint32 0, PutString16X (Some SVC_MGR_NAME), PutString16X (Some name), PutObj ptr]"
  have l: "sum_list (map op_len ?ops) \<le> unat (512 :: u32) - 4 * unat (4 :: u32)"
    using string_op(2,3) [OF len] name_op(2) by (simp del: op_len.simps(4,5))
  moreover have "list_all op_valid ?ops" using len by (simp add: SVC_MGR_NAME_def)
  ultimately obtain bss where bss: "list_all2 op_enc ?ops bss" "bio_written m1 msg = concat bss"
      and objs: "bio_objs m1 msg = offs_from 0 ?ops"
    using fresh_puts [OF assms(1) _ _ _ msg [unfolded publish_msg_def]] by fastforce
  then obtain e1 e2 where e: "bss = [le32 0, e1, e2, obj_bytes (binder_obj ptr)]"
      "is_str16 svcmgr_id e1" "is_str16 (widen name) e2"
    using name_op(1) string_op(1) [OF len] by (auto simp: list_all2_Cons1)
  have used: "bio_written m1 msg = (le32 0 @ e1 @ e2) @ obj_bytes (binder_obj ptr)" using bss(2) e(1) by simp
  have "bio_used msg = length (le32 0 @ e1 @ e2) + 16"
    using arg_cong [OF used, of length] by simp
  then have "take (bio_used msg - 16) (bio_written m1 msg) = le32 0 @ e1 @ e2"
    unfolding used by simp
  then have "bio_rest m2 r = le32 0 @ e1 @ e2 @ obj_bytes (handle_obj h)"
    using del by (simp add: delivered_handle_def)
  moreover have "length (widen name) < 2147483640" using len length_widen [of name] by simp
  ultimately have req: "svc_request m2 r (widen name) (obj_bytes (handle_obj h))"
    using del e unfolding svc_request_def delivered_handle_def by blast
  have "offs_from 0 ?ops = [of_nat (args_at (widen name))]"
    using name_op string_op(2) [OF len] by (simp add: args_at_def del: op_len.simps(4,5))
  then have "list_ex (\<lambda>x. x = of_nat (args_at (widen name)))
      (map (\<lambda>i. load32 m2 (b_offs r + 4 * of_nat i)) [0..<unat (b_offs_avail r)])"
    using objs del by (simp add: delivered_handle_def)
  then have "has_offset m2 r (of_nat (args_at (widen name)))"
    by (auto simp: has_offset_def list_ex_iff)
  then show ?thesis using req del by (simp add: add_args_def delivered_handle_def)
qed

section \<open>Replies\<close>

lemma reply_word_written:
  assumes "buffer_ok rdata 256 4" and "bio_put_uint32 n (bio_init zero_bio rdata 256 4, m) = (reply, m1)"
  shows "bio_written m1 reply = le32 n" "bio_objs m1 reply = []"
  using fresh_puts [OF assms(1), of "[PutUint32 n]" zero_bio m] assms(2) by (auto simp: list_all2_Cons1)

lemma reply_word_read:
  assumes "buffer_ok rdata 256 4" and "bio_put_uint32 n (bio_init zero_bio rdata 256 4, m) = (reply, m1)"
    and "delivered m1 reply m2 r"
  shows "fst (bio_get_uint32 m2 r) = n" and "fst (bio_get_ref m2 r) = 0"
proof -
  note b = reply_word_written [OF assms(1,2)]
  then show "fst (bio_get_uint32 m2 r) = n"
    using bio_get_uint32_ok(1) [of r m2 n "[]"] assms(3) by (simp add: delivered_def)
  have "unat (b_offs_avail r) = 0" using assms(3) b(2) by (simp add: delivered_def)
  then show "fst (bio_get_ref m2 r) = 0"
    by (simp add: bio_get_ref_def bio_get_obj_def has_offset_def)
qed

text \<open>A delivered parcel that is one reference.\<close>

lemma single_ref_read:
  assumes "bio_cursor r" "b_data r = b_data0 r" "bio_rest m2 r = obj_bytes (handle_obj h)"
    and "map (\<lambda>i. load32 m2 (b_offs r + 4 * of_nat i)) [0..<unat (b_offs_avail r)] = [0]"
  shows "fst (bio_get_ref m2 r) = h"
proof -
  have "list_ex (\<lambda>x. x = 0) (map (\<lambda>i. load32 m2 (b_offs r + 4 * of_nat i)) [0..<unat (b_offs_avail r)])"
    using assms(4) by simp
  then have "has_offset m2 r (b_data r - b_data0 r)"
    using assms(2) by (auto simp: has_offset_def list_ex_iff)
  then show ?thesis
    using bio_get_ref_ok(1) [of r m2 "handle_obj h" "[]"] assms by (simp add: handle_obj_def)
qed

lemma reply_ref_written:
  assumes "buffer_ok rdata 256 4" and "bio_put_ref h (bio_init zero_bio rdata 256 4, m) = (reply, m1)" and "h \<noteq> 0"
  shows "bio_written m1 reply = obj_bytes (handle_obj h)" and "bio_objs m1 reply = [0]"
  using fresh_puts [OF assms(1), of "[PutRef h]" zero_bio m] assms(2,3) by (auto simp: list_all2_Cons1)

lemma reply_ref_read:
  assumes "buffer_ok rdata 256 4" and "h \<noteq> 0"
    and "bio_put_ref h (bio_init zero_bio rdata 256 4, m) = (reply, m1)" and "delivered m1 reply m2 r"
  shows "fst (bio_get_ref m2 r) = h"
  using assms(4) reply_ref_written [OF assms(1,3,2)] by (intro single_ref_read) (simp_all add: delivered_def)

section \<open>The example server\<close>

definition greet_request :: "mem \<Rightarrow> binder_io \<Rightarrow> u16 list \<Rightarrow> bool" where
  "greet_request m msg nm \<longleftrightarrow> bio_cursor msg \<and>
     (\<exists>pol iface e1 e2 tail. bio_rest m msg = le32 pol @ e1 @ e2 @ tail \<and> is_str16 iface e1 \<and> is_str16 nm e2 \<and>
        length iface < 2147483640 \<and> length nm < 2147483640)"

lemma greet_request_read:
  assumes "greet_request m msg nm"
  shows "\<exists>pol s1 l1 b1 b2 s2 b3. bio_get_uint32 m msg = (pol, b1) \<and> bio_get_string16 m b1 = (s1, l1, b2) \<and>
     bio_get_string16 m b2 = (s2, of_nat (length nm), b3) \<and> s2 \<noteq> 0 \<and> u16s_at m s2 (length nm) = nm"
proof -
  obtain pol iface e1 e2 tail where r: "bio_rest m msg = le32 pol @ e1 @ e2 @ tail" "is_str16 iface e1" "is_str16 nm e2"
      and l: "length iface < 2147483640" "length nm < 2147483640" and c: "bio_cursor msg"
    using assms by (auto simp: greet_request_def)
  obtain b1 where 1: "bio_get_uint32 m msg = (pol, b1)" "bio_cursor b1" "bio_rest m b1 = e1 @ e2 @ tail"
    using bio_rd.get32_ok [OF c r(1)] by blast
  obtain s1 b2 where 2: "bio_get_string16 m b1 = (s1, of_nat (length iface), b2)" "bio_cursor b2" "bio_rest m b2 = e2 @ tail"
    using bio_rd.getstr_ok [OF 1(2,3) r(2) l(1)] by blast
  show ?thesis using bio_rd.getstr_ok [OF 2(2,3) r(3) l(2)] 1(1) 2(1) by blast
qed

lemma hello_to_result:
  assumes "greet_request (w_mem w) msg nm" and "t_code (load_txn (w_mem w) txn) = HELLO_SVR_CMD_SAYHELLO_TO"
  shows "hello_service_handler bs txn msg reply w =
     Some (put_reply (bio_put_uint32 (hello_to_cnt (w_app w) + 1) \<circ> bio_put_uint32 0) reply
       (w\<lparr>w_app := (w_app w)\<lparr>hello_to_cnt := hello_to_cnt (w_app w) + 1\<rparr>,
          w_mem := store_bytes (w_sp w - 512) (map ucast nm @ [0]) (w_mem w)\<rparr>))"
proof -
  obtain pol s1 l1 b1 b2 s2 b3 where r: "bio_get_uint32 (w_mem w) msg = (pol, b1)"
      "bio_get_string16 (w_mem w) b1 = (s1, l1, b2)" "bio_get_string16 (w_mem w) b2 = (s2, of_nat (length nm), b3)"
      "s2 \<noteq> 0" "u16s_at (w_mem w) s2 (length nm) = nm"
    using greet_request_read [OF assms(1)] by blast
  have "length nm < 2147483640" using assms(1) by (auto simp: greet_request_def)
  then have "unat (of_nat (length nm) :: u32) = length nm" by simp
  then show ?thesis
    using r assms(2) by (simp add: hello_service_handler_def Let_def copy_name_def sayhello_to_def greet_codes)
qed

text \<open>A request with a name of \<open>n\<close> units, for the two properties below.\<close>

definition greet_bytes :: "nat \<Rightarrow> u8 list" where
  "greet_bytes n = le32 0 @ str16_enc [73] @ str16_enc (replicate n 65)"

definition greet_world :: "nat \<Rightarrow> (nat, server_state) world" where
  "greet_world n = \<lparr>w_mem = w_mem (msg_world (call_txn 2 0) [] (greet_bytes n)), w_sp = 0x7fff0000, w_k = 0,
     w_app = \<lparr>hello_cnt = 0, hello_to_cnt = 6, goodbye_cnt = 0, goodbye_to_cnt = 0\<rparr>\<rparr>"

lemma greet_world_ok:
  assumes "n \<le> 1000"
  shows "greet_request (w_mem (greet_world n)) (msg_bio [] (greet_bytes n)) (replicate n 65)"
    and "t_code (load_txn (w_mem (greet_world n)) 0x7fff1000) = HELLO_SVR_CMD_SAYHELLO_TO"
proof -
  have len: "length (greet_bytes n) \<le> 0x1000"
    using assms by (simp add: greet_bytes_def str_len_def align4_nat_def)
  have "bio_rest (w_mem (greet_world n)) (msg_bio [] (greet_bytes n)) =
      le32 0 @ str16_enc [73] @ str16_enc (replicate n 65) @ []"
    using msg_bio_read(2) [OF len, of "[]" "call_txn 2 0"] by (simp add: greet_world_def greet_bytes_def)
  moreover have "length (replicate n (65 :: u16)) < 2147483640" "length [73 :: u16] < 2147483640" using assms by simp_all
  ultimately show "greet_request (w_mem (greet_world n)) (msg_bio [] (greet_bytes n)) (replicate n 65)"
    unfolding greet_request_def using msg_bio_read(1) [OF len, of "[]"] is_str16_enc by blast
  show "t_code (load_txn (w_mem (greet_world n)) 0x7fff1000) = HELLO_SVR_CMD_SAYHELLO_TO"
    using msg_world_load(1) [OF len, of "[]" "call_txn 2 0"] by (simp add: greet_world_def greet_codes call_txn_def)
qed

text \<open>
  A greeting is counted and answered. On a request of the form the client sends, with a name of
  at most 511 units, \<open>hello_service_handler\<close> replies the word 0 and the new value of its counter,
  which has gone up by one, and no byte of its caller's memory is touched before the reply is written.
\<close>

theorem hello_to_counts:
  assumes "greet_request (w_mem w) msg nm" and "t_code (load_txn (w_mem w) txn) = HELLO_SVR_CMD_SAYHELLO_TO"
    and "length nm \<le> 511" and sp: "512 \<le> unat (w_sp w)"
  shows "\<exists>m'. hello_service_handler bs txn msg reply w =
       Some (put_reply (bio_put_uint32 (hello_to_cnt (w_app w) + 1) \<circ> bio_put_uint32 0) reply
         (w\<lparr>w_app := (w_app w)\<lparr>hello_to_cnt := hello_to_cnt (w_app w) + 1\<rparr>, w_mem := m'\<rparr>)) \<and>
     (\<forall>x. w_sp w \<le> x \<longrightarrow> m' x = w_mem w x)"
proof -
  have "store_bytes (w_sp w - 512) (map ucast nm @ [0]) (w_mem w) x = w_mem w x" if "w_sp w \<le> x" for x
    using above_frame(2) [of 512, OF _ that] sp assms(3) by (simp add: store_bytes_def Let_def)
  then show ?thesis using hello_to_result [OF assms(1,2)] by blast
qed

theorem hello_to_counts_witness:
  "\<exists>m'. hello_service_handler null_bs 0x7fff1000 (msg_bio [] (greet_bytes 2)) zero_bio (greet_world 2) =
     Some (put_reply (bio_put_uint32 7 \<circ> bio_put_uint32 0) zero_bio
       ((greet_world 2)\<lparr>w_app := (w_app (greet_world 2))\<lparr>hello_to_cnt := 7\<rparr>, w_mem := m'\<rparr>))"
proof -
  have "hello_to_cnt (w_app (greet_world 2)) = 6" "512 \<le> unat (w_sp (greet_world 2))"
    by (simp_all add: greet_world_def)
  then show ?thesis
    using hello_to_counts [OF greet_world_ok [of 2], of null_bs zero_bio] by auto
qed



lemma greeting_request:
  assumes "call_bytes iface name (bio_written m1 msg)" and "delivered m1 msg m2 r" and "length iface \<le> 30"
  shows "greet_request m2 r (widen name)"
proof -
  obtain pol e1 e2 where e: "bio_written m1 msg = le32 pol @ e1 @ e2" "is_str16 (widen iface) e1" "is_str16 (widen name) e2"
      and len: "length name \<le> 200"
    using assms(1) by (auto simp: call_bytes_def)
  have "bio_rest m2 r = le32 pol @ e1 @ e2 @ []" using assms(2) e(1) by (simp add: delivered_def)
  moreover have "length (widen iface) < 2147483640" "length (widen name) < 2147483640"
    using len assms(3) length_widen [of name] length_widen [of iface] by simp_all
  ultimately show ?thesis
    using assms(2) e(2,3) unfolding greet_request_def delivered_def by blast
qed

lemma greeting_delivered:
  assumes "buffer_ok iodata 512 4" and "length name \<le> 200"
    and "request_msg (call_ops ''IHelloService'' name) iodata m = (msg, m1)" and "delivered m1 msg m2 r"
  shows "greet_request m2 r (widen name)"
  using greeting_request [OF call_built(1) [OF assms(1) _ assms(2,3)] assms(4)] by simp

lemma reply_result_written:
  assumes "buffer_ok rdata 256 4" and "(bio_put_uint32 n \<circ> bio_put_uint32 0) (bio_init zero_bio rdata 256 4, m) = (reply, m1)"
  shows "bio_written m1 reply = le32 0 @ le32 n" "bio_objs m1 reply = []"
  using fresh_puts [OF assms(1), of "[PutUint32 0, PutUint32 n]" zero_bio m] assms(2) by (auto simp: list_all2_Cons1)

lemma reply_result_read:
  assumes "buffer_ok rdata 256 4" and "(bio_put_uint32 n \<circ> bio_put_uint32 0) (bio_init zero_bio rdata 256 4, m) = (reply, m1)"
    and "delivered m1 reply m2 r"
  shows "fst (read_result m2 r) = n"
proof -
  have "bio_written m1 reply = le32 0 @ le32 n" by (rule reply_result_written [OF assms(1,2)])
  then have "bio_rest m2 r = le32 0 @ le32 n @ []" "bio_cursor r" using assms(3) by (simp_all add: delivered_def)
  then obtain r1 where "bio_get_uint32 m2 r = (0, r1)" "bio_cursor r1" "bio_rest m2 r1 = le32 n @ []"
    using bio_rd.get32_ok by blast
  then show ?thesis
    using bio_rd.get32_ok [of r1 m2 n "[]"] by (auto simp: read_result_def)
qed

end
