(* ===== verification/Resources.thy ===== *)
theory Resources
  imports Prelude
begin

text \<open>
  What a program obtains from the kernel and gives back to it: a log of operations on resources, what
  is held after it, and what was given back without being held.
\<close>

section \<open>What is held\<close>

datatype 'r kop = Got 'r | Gave 'r

fun held_from :: "'r list \<Rightarrow> 'r kop list \<Rightarrow> 'r list" where
  "held_from h [] = h"
| "held_from h (Got r # ops) = held_from (r # h) ops"
| "held_from h (Gave r # ops) = held_from (remove1 r h) ops"

text \<open>Things given back that are not held at that time.\<close>

fun misused_from :: "'r list \<Rightarrow> 'r kop list \<Rightarrow> 'r list" where
  "misused_from h [] = []"
| "misused_from h (Got r # ops) = misused_from (r # h) ops"
| "misused_from h (Gave r # ops) = (if r \<in> set h then [] else [r]) @ misused_from (remove1 r h) ops"

text \<open>A module is unloaded only when its initialisation returned 0.\<close>

definition life :: "int \<times> 'r kop list \<Rightarrow> 'r kop list \<Rightarrow> 'r kop list" where
  "life init_result exit_ops = (case init_result of (rv, ops) \<Rightarrow> if rv = 0 then ops @ exit_ops else ops)"

definition leaked :: "'r kop list \<Rightarrow> 'r list" where
  "leaked ops = held_from [] ops"

definition misused :: "'r kop list \<Rightarrow> 'r list" where
  "misused ops = misused_from [] ops"

lemmas life_defs = life_def leaked_def misused_def

lemma held_from_append: "held_from h (xs @ ys) = held_from (held_from h xs) ys"
  by (induction h xs rule: held_from.induct) simp_all

lemma misused_from_append: "misused_from h (xs @ ys) = misused_from h xs @ misused_from (held_from h xs) ys"
  by (induction h xs rule: held_from.induct) simp_all

text \<open>Taking things in, then giving back a list of distinct things.\<close>

lemma gots:
  "held_from h (map Got rs) = rev rs @ h"
  "misused_from h (map Got rs) = []"
  by (induction rs arbitrary: h) simp_all

lemma gaves:
  "distinct h \<Longrightarrow> held_from h (map Gave rs) = filter (\<lambda>r. r \<notin> set rs) h"
  "distinct rs \<Longrightarrow> misused_from h (map Gave rs) = filter (\<lambda>r. r \<notin> set h) rs"
proof (induction rs arbitrary: h)
  case (Cons r rs)
  { case 1 then show ?case using Cons.IH(1) [of "remove1 r h"]
      by (simp add: distinct_remove1_removeAll removeAll_filter_not_eq eq_commute [of r]) }
  { case 2
    then have "filter (\<lambda>x. x \<notin> set (remove1 r h)) rs = filter (\<lambda>x. x \<notin> set h) rs"
      by (intro filter_cong refl) (metis distinct.simps(2) in_set_remove1)
    then show ?case using 2 Cons.IH(2) [of "remove1 r h"] by simp }
qed simp_all

lemma got_gave:
  "distinct xs \<Longrightarrow> leaked (life (0, map Got xs) (map Gave ys)) = filter (\<lambda>r. r \<notin> set ys) (rev xs)"
  "distinct ys \<Longrightarrow> misused (life (0, map Got xs) (map Gave ys)) = filter (\<lambda>r. r \<notin> set xs) ys"
  by (simp_all add: life_defs held_from_append misused_from_append gots gaves)

text \<open>A balanced log: the things taken are the things given back, in some order.\<close>

lemma balanced:
  assumes "distinct xs" "distinct ys" "set xs = set ys"
  shows "leaked (map Got xs @ map Gave ys) = [] \<and> misused (map Got xs @ map Gave ys) = []"
  using got_gave [of xs ys] got_gave [of ys xs] assms by (simp add: life_def filter_empty_conv)

section \<open>Cleaning up\<close>

text \<open>
  A module is tidy when, whatever the kernel answers, loading it and (if that succeeds) unloading it
  leaves nothing behind and gives back only what it holds. Such a module can be loaded and unloaded any
  number of times.
\<close>

locale tidy_module =
  fixes init :: "'o \<Rightarrow> int \<times> 'r kop list" and unload :: "'o \<Rightarrow> 'r kop list"
  assumes nothing_left: "leaked (life (init r) (unload r)) = []"
    and nothing_misused: "misused (life (init r) (unload r)) = []"
begin

lemma any_number_of_times:
  "leaked (concat (map (\<lambda>r. life (init r) (unload r)) rs)) = [] \<and> misused (concat (map (\<lambda>r. life (init r) (unload r)) rs)) = []"
  using nothing_left nothing_misused
  by (induction rs) (simp_all add: leaked_def misused_def held_from_append misused_from_append)

end

end
