(* ===== verification/Binder_Resources.thy ===== *)
theory Binder_Resources
  imports Binder_Codes Binder_System Resources
begin

text \<open>
  What the binder programs hold: memory, descriptors, mappings and references to remote objects. Any
  kernel can be watched: \<open>watch K\<close> does what \<open>K\<close> does and keeps a log of what is obtained and given
  back. The references are seen the way the driver sees them, as commands in the write buffers.
\<close>

section \<open>A kernel that keeps a log\<close>

datatype resource = Memory u32 | Fd int | Mapping u32 u32 | Ref u32

type_synonym 'k watched = "'k \<times> resource kop list"

definition note_ops :: "resource kop list \<Rightarrow> 'k watched \<Rightarrow> 'k \<Rightarrow> 'k watched" where
  "note_ops ops k k' = (k', snd k @ ops)"

text \<open>The references a list of commands takes and drops.\<close>

fun ref_op :: "u32 \<times> u8 list \<Rightarrow> resource kop list" where
  "ref_op (c, p) = (if c = BC_ACQUIRE then [Got (Ref (from_le32 p))]
                    else if c = BC_RELEASE then [Gave (Ref (from_le32 p))] else [])"

definition ref_ops :: "u8 list \<Rightarrow> resource kop list" where
  "ref_ops bytes = (case command_stream bytes of None \<Rightarrow> [] | Some cs \<Rightarrow> concat (map ref_op cs))"

text \<open>The driver reads the write buffer from the point it has consumed.\<close>

definition unread :: "binder_write_read \<Rightarrow> mem \<Rightarrow> u8 list" where
  "unread bwr m = drop (unat (write_consumed bwr)) (load_bytes m (write_buffer bwr) (unat (write_size bwr)))"

definition watch :: "'k kernel \<Rightarrow> 'k watched kernel" where
  "watch K = \<lparr>
     k_malloc = (\<lambda>n k. let (p, k') = k_malloc K n (fst k) in (p, note_ops (if p = 0 then [] else [Got (Memory p)]) k k')),
     k_free = (\<lambda>p k. note_ops [Gave (Memory p)] k (k_free K p (fst k))),
     k_open = (\<lambda>name k. let (fd, k') = k_open K name (fst k) in (fd, note_ops (if fd < 0 then [] else [Got (Fd fd)]) k k')),
     k_close = (\<lambda>fd k. note_ops [Gave (Fd fd)] k (k_close K fd (fst k))),
     k_mmap = (\<lambda>n fd k. let (a, k') = k_mmap K n fd (fst k) in
                 (a, note_ops (if a = MAP_FAILED then [] else [Got (Mapping a n)]) k k')),
     k_munmap = (\<lambda>a n k. note_ops [Gave (Mapping a n)] k (k_munmap K a n (fst k))),
     k_version = (\<lambda>fd k. let (res, vers, k') = k_version K fd (fst k) in (res, vers, note_ops [] k k')),
     k_set_context_mgr = (\<lambda>fd k. let (res, k') = k_set_context_mgr K fd (fst k) in (res, note_ops [] k k')),
     k_set_max_threads = (\<lambda>fd n k. let (res, k') = k_set_max_threads K fd n (fst k) in (res, note_ops [] k k')),
     k_write_read = (\<lambda>fd bwr m k. let (res, bwr', m', k') = k_write_read K fd bwr m (fst k) in
                       (res, bwr', m', note_ops (ref_ops (unread bwr m)) k k')),
     k_pthread_create = (\<lambda>p m k. note_ops [] k (k_pthread_create K p m (fst k)))\<rparr>"

definition klog :: "('k watched, 's) world \<Rightarrow> resource kop list" where
  "klog w = snd (w_k w)"

lemma klog_upd [simp]:
  "klog (w\<lparr>w_app := a\<rparr>) = klog w" "klog (w\<lparr>w_sp := p\<rparr>) = klog w" "klog (w\<lparr>w_mem := m\<rparr>) = klog w"
  by (simp_all add: klog_def)

section \<open>Opening and closing\<close>

text \<open>
  C17: what \<open>binder_open\<close> holds, on any kernel. A connection that is opened holds exactly its memory,
  its descriptor and its mapping, and \<open>binder_close\<close> gives the three back and nothing else. When it
  fails, nothing is held, with one exception: when the driver does not answer with the library's
  protocol version, the descriptor stays open for good.
\<close>

theorem binder_open_resources:
  assumes "binder_open (watch K) mapsize w = (obs, w')" and "klog w = []"
    and "k_malloc K 12 (fst (w_k w)) = (p, k1)" and "k_open K ''/dev/binder'' k1 = (fd, k2)"
    and "k_version K fd k2 = (res, vers, k3)"
  shows "misused (klog w') = []
    \<and> leaked (klog w') =
        (case obs of Some bs \<Rightarrow> [Mapping (bs_mapped bs) mapsize, Fd (bs_fd bs), Memory (bs_ptr bs)]
         | None \<Rightarrow> if p \<noteq> 0 \<and> 0 \<le> fd \<and> (res = -1 \<or> vers \<noteq> BINDER_CURRENT_PROTOCOL_VERSION) then [Fd fd] else [])
    \<and> (\<forall>bs. obs = Some bs \<longrightarrow>
         leaked (klog (binder_close (watch K) bs w')) = [] \<and> misused (klog (binder_close (watch K) bs w')) = [])"
proof -
  obtain a k4 where m: "k_mmap K mapsize fd k3 = (a, k4)" by fastforce
  show ?thesis
    using assms m
    by (auto simp: binder_open_def watch_def note_ops_def klog_def binder_close_def life_defs split: if_splits)
qed

section \<open>References\<close>

text \<open>
  What is relied on of the driver: an ioctl that succeeds has consumed the whole write buffer, whose
  size it leaves alone.
\<close>

definition consumes :: "'k kernel \<Rightarrow> bool" where
  "consumes K \<longleftrightarrow> (\<forall>fd bwr m k res bwr' m' k'. k_write_read K fd bwr m k = (res, bwr', m', k') \<longrightarrow> 0 \<le> res \<longrightarrow>
     write_size bwr' = write_size bwr \<and> write_consumed bwr' = write_size bwr)"

lemma ref_ops_Nil [simp]: "ref_ops [] = []"
  by (simp add: ref_ops_def)

lemma sends_log:
  assumes "sends_cmds (watch K) bs cs w w'"
  shows "klog w' = klog w @ concat (map ref_op cs)" "w_app w' = w_app w"
proof -
  obtain bytes P where "sent (watch K) bs bytes P w w'" and cs: "command_stream bytes = Some cs"
    using assms by (auto simp: sends_cmds_def)
  then obtain bwr m res bwr' m' k' where bwr: "write_consumed bwr = 0"
      "load_bytes m (write_buffer bwr) (unat (write_size bwr)) = bytes"
    and io: "k_write_read (watch K) (bs_fd bs) bwr m (w_k w) = (res, bwr', m', k')" and w': "w' = w\<lparr>w_mem := m', w_k := k'\<rparr>"
    by (auto simp: sent_def)
  have "snd k' = snd (w_k w) @ ref_ops bytes"
    using io bwr by (auto simp: watch_def note_ops_def unread_def split: prod.splits)
  then show "klog w' = klog w @ concat (map ref_op cs)" "w_app w' = w_app w"
    using cs w' by (simp_all add: klog_def ref_ops_def)
qed

lemma reference_log:
  "klog (binder_acquire (watch K) bs h w) = klog w @ [Got (Ref h)]" "w_app (binder_acquire (watch K) bs h w) = w_app w"
  "klog (binder_release (watch K) bs h w) = klog w @ [Gave (Ref h)]" "w_app (binder_release (watch K) bs h w) = w_app w"
  using sends_log [OF reference_sends(1)] sends_log [OF reference_sends(2)] by (simp_all add: proto_defs)

lemma done_log:
  "klog (snd (binder_done (watch K) bs reply w)) = klog w" "w_app (snd (binder_done (watch K) bs reply w)) = w_app w"
proof -
  have "klog (snd (binder_done (watch K) bs reply w)) = klog w \<and> w_app (snd (binder_done (watch K) bs reply w)) = w_app w"
  proof (cases "b_flags reply AND BIO_F_SHARED \<noteq> 0")
    case True
    then show ?thesis using sends_log [OF done_sends [OF True, where K = "watch K" and bs = bs and w = w]] by (simp add: proto_defs)
  qed (simp add: binder_done_def)
  then show "klog (snd (binder_done (watch K) bs reply w)) = klog w" "w_app (snd (binder_done (watch K) bs reply w)) = w_app w" by simp_all
qed

text \<open>A program without a handler: parsing takes and drops no references.\<close>

lemma spawn_log: "klog (spawn_looper (watch K) bs w) = klog w" "w_app (spawn_looper (watch K) bs w) = w_app w"
  by (simp_all add: spawn_looper_def snd_with_frame Let_def klog_def watch_def note_ops_def store_words_def)

lemma parse_log:
  assumes "binder_parse (watch K) None no_death bs bio ptr sz w = Some (r, bio', w')"
  shows "klog w' = klog w \<and> w_app w' = w_app w"
proof -
  have "(\<lambda>(r, bio, w'). klog w' = klog w \<and> w_app w' = w_app w) (r, bio', w')"
    using assms unfolding binder_parse_def
    by (rule parse_loop_invariant [where I = "\<lambda>s. klog (ps_w s) = klog w \<and> w_app (ps_w s) = w_app w"])
       (auto simp: parse_cmd_def Let_def handle_transaction_def no_death_def spawn_log split: if_splits)
  then show ?thesis by simp
qed

lemma call_loop_log:
  assumes "consumes K" and "call_loop (watch K) no_death bs readbuf bwr reply w = Some (r, reply', w')"
    and "ref_ops (unread bwr (w_mem w)) = []"
  shows "klog w' = klog w \<and> w_app w' = w_app w"
proof -
  have "klog (snd (snd res)) = klog w \<and> w_app (snd (snd res)) = w_app w"
    if "call_loop K' death bs readbuf bwr reply w = Some res" "K' = watch K" "death = no_death"
      "ref_ops (unread bwr (w_mem w)) = []" for K' death res
    using that
  proof (induction K' death bs readbuf bwr reply w res
      rule: call_loop.raw_induct [rotated, consumes 1, case_names 1])
    case (1 rec K' death bs readbuf bwr reply w res)
    let ?bwr = "bwr\<lparr>read_size := 128, read_consumed := 0, read_buffer := readbuf\<rparr>"
    obtain io bwr1 m1 k1 where io: "k_write_read K (bs_fd bs) ?bwr (w_mem w) (fst (w_k w)) = (io, bwr1, m1, k1)"
      using prod_cases4 by blast
    define w1 where "w1 = w\<lparr>w_mem := m1, w_k := (k1, klog w)\<rparr>"
    have ioctl: "ioctl_bwr (watch K) bs ?bwr w = (io, bwr1, w1)"
      using io "1.prems" by (simp add: ioctl_bwr_def watch_def note_ops_def w1_def unread_def klog_def)
    have w1: "klog w1 = klog w" "w_app w1 = w_app w" by (simp_all add: w1_def klog_def)
    show ?case
    proof (cases "io < 0")
      case True
      then show ?thesis using "1.hyps" "1.prems" ioctl w1 by auto
    next
      case False
      then obtain q reply2 w2 where p: "binder_parse (watch K) None no_death bs (Some reply) readbuf (read_consumed bwr1) w1 =
          Some (q, reply2, w2)"
        and q: "(if q = 0 then Some (0, reply2, w2) else if q < 0 then Some (-1, call_failed, w2)
              else rec (watch K) no_death bs readbuf bwr1 reply2 w2) = Some res"
        using "1.hyps" "1.prems" ioctl by (auto simp: bind_eq_Some_conv)
      have "unread bwr1 (w_mem w2) = []"
        using assms(1) io False by (fastforce simp: consumes_def unread_def)
      then show ?thesis using "1.IH" q parse_log [OF p] w1 by (auto split: if_splits)
    qed
  qed
  from this [OF assms(2) refl refl assms(3)] show ?thesis by simp
qed

lemma call_log:
  assumes "consumes K" and "binder_call (watch K) no_death bs msg reply target code w = Some (r, reply', w')"
  shows "klog w' = klog w \<and> w_app w' = w_app w"
proof (cases "bio_overflowed msg")
  case True
  then show ?thesis using assms(2) by (auto simp: binder_call_def bio_overflowed_def)
next
  case False
  then obtain readbuf bwr w1 t where call: "binder_call (watch K) no_death bs msg reply target code w =
      map_option (\<lambda>(res, reply, w'). (res, reply, w'\<lparr>w_sp := w_sp w\<rparr>)) (call_loop (watch K) no_death bs readbuf bwr reply w1)"
    and "write_consumed bwr = 0"
    "command_stream (load_bytes (w_mem w1) (write_buffer bwr) (unat (write_size bwr))) = Some [(BC_TRANSACTION, txn_bytes t)]"
    and w1: "w_k w1 = w_k w" "w_app w1 = w_app w"
    using binder_call_sends [OF False, of "watch K" no_death bs reply target code w] by auto
  then have none: "ref_ops (unread bwr (w_mem w1)) = []" by (simp add: unread_def ref_ops_def proto_defs)
  obtain w2 where loop: "call_loop (watch K) no_death bs readbuf bwr reply w1 = Some (r, reply', w2)" and "w' = w2\<lparr>w_sp := w_sp w\<rparr>"
    using assms(2) unfolding call by auto
  then show ?thesis using call_loop_log [OF assms(1) loop none] w1 by (auto simp: klog_def)
qed

section \<open>The client\<close>

lemma client_call_log:
  assumes "consumes K" and "client_call (watch K) bs ops target code failed receive w = Some (r, w')"
    and "\<And>m reply w. klog (snd (snd (receive m reply w))) = klog w @ refs (fst (receive m reply w))"
    and "\<And>m reply w. w_app (snd (snd (receive m reply w))) = w_app w" and "refs failed = []"
  shows "klog w' = klog w @ refs r \<and> w_app w' = w_app w"
proof -
  let ?iodata = "w_sp w - 512"
  obtain msg m where msg: "request_msg ops ?iodata (w_mem w) = (msg, m)" by fastforce
  obtain res reply w1 where call: "binder_call (watch K) no_death bs msg zero_bio target code (w\<lparr>w_sp := ?iodata, w_mem := m\<rparr>) =
      Some (res, reply, w1)"
    using assms(2) by (auto simp: client_call_def msg Let_def)
  have w1: "klog w1 = klog w" "w_app w1 = w_app w" using call_log [OF assms(1) call] by (simp_all add: klog_def)
  show ?thesis
  proof (cases "res = 0")
    case False
    then show ?thesis using assms(2,5) w1 by (auto simp: client_call_def msg Let_def call klog_def)
  next
    case True
    obtain r' reply' w2 where rc: "receive (w_mem w1) reply w1 = (r', reply', w2)" using prod_cases3 by blast
    then have "r = r'" "w' = (snd (binder_done (watch K) bs reply' w2))\<lparr>w_sp := w_sp w\<rparr>"
      using assms(2) True by (auto simp: client_call_def msg Let_def call case_prod_beta)
    then show ?thesis
      using assms(3,4) [of "w_mem w1" reply w1] rc w1 done_log [of K bs reply' w2] by (simp add: klog_def)
  qed
qed

lemma lookup_log:
  assumes "consumes K" and "svcmgr_lookup (watch K) bs target name w = Some (h, w')"
  shows "klog w' = klog w @ (if h = 0 then [] else [Got (Ref h)]) \<and> w_app w' = w_app w"
  by (rule client_call_log [OF assms(1) assms(2) [unfolded svcmgr_lookup_def]])
     (simp_all add: case_prod_beta reference_log)

lemma request_log:
  assumes "consumes K"
  shows "client_sayhello (watch K) bs w = Some (u, w') \<Longrightarrow> klog w' = klog w \<and> w_app w' = w_app w"
    and "client_saygoodbye (watch K) bs w = Some (u, w') \<Longrightarrow> klog w' = klog w \<and> w_app w' = w_app w"
    and "client_sayhello_to (watch K) bs name w = Some (r, w') \<Longrightarrow> klog w' = klog w \<and> w_app w' = w_app w"
    and "client_saygoodbye_to (watch K) bs name w = Some (r, w') \<Longrightarrow> klog w' = klog w \<and> w_app w' = w_app w"
  using client_call_log [OF assms, where refs = "\<lambda>_. []"]
  by (fastforce simp: client_sayhello_def client_saygoodbye_def client_sayhello_to_def client_saygoodbye_to_def case_prod_beta)+

text \<open>What the process holds for its connection.\<close>

definition connection :: "binder_state \<Rightarrow> u32 \<Rightarrow> resource list" where
  "connection bs n = [Mapping (bs_mapped bs) n, Fd (bs_fd bs), Memory (bs_ptr bs)]"

lemma open_log:
  assumes "binder_open (watch K) n w = (Some bs, w')" and "klog w = []"
  shows "klog w' = map Got (rev (connection bs n)) \<and> w_app w' = w_app w"
  using assms by (auto simp: binder_open_def watch_def note_ops_def klog_def connection_def Let_def split: if_splits prod.splits)

text \<open>The middle of \<open>main\<close>, between the lookups and the release.\<close>

lemma client_main_log:
  assumes "consumes K" and "klog w = []" and "client_main (watch K) args w = Some (0, w')"
  shows "\<exists>bs. klog w' = map Got (rev (connection bs 131072)) @ [Got (Ref (g_goodbye_handle (w_app w'))),
      Got (Ref (g_hello_handle (w_app w'))), Gave (Ref (g_hello_handle (w_app w')))]"
proof -
  from assms(3) obtain cmd rest where args: "args = cmd # rest" by (cases args) (simp_all add: client_main_def)
  obtain obs w0 where open_: "binder_open (watch K) (128 * 1024) w = (obs, w0)" by fastforce
  then obtain bs where obs: "obs = Some bs" using assms(3) by (cases obs) (simp_all add: client_main_def args)
  obtain g w1 where g: "svcmgr_lookup (watch K) bs BINDER_SERVICE_MANAGER ''goodbye'' w0 = Some (g, w1)" "g \<noteq> 0"
    using assms(3) by (auto simp: client_main_def args open_ [simplified] obs bind_eq_Some_conv split: if_splits)
  define w2 where "w2 = w1\<lparr>w_app := (w_app w1)\<lparr>g_goodbye_handle := g\<rparr>\<rparr>"
  obtain h w3 where h: "svcmgr_lookup (watch K) bs BINDER_SERVICE_MANAGER ''hello'' w2 = Some (h, w3)" "h \<noteq> 0"
    using assms(3) g by (auto simp: client_main_def args open_ [simplified] obs bind_eq_Some_conv w2_def Let_def split: if_splits)
  define w4 where "w4 = w3\<lparr>w_app := (w_app w3)\<lparr>g_hello_handle := h\<rparr>\<rparr>"
  obtain w5 where w': "w' = binder_release (watch K) bs h w5"
    and mid: "w5 = w4 \<or> (\<exists>r. client_sayhello (watch K) bs w4 = Some (r, w5)) \<or> (\<exists>r. client_saygoodbye (watch K) bs w4 = Some (r, w5))
      \<or> (\<exists>r name. client_sayhello_to (watch K) bs name w4 = Some (r, w5)) \<or> (\<exists>r name. client_saygoodbye_to (watch K) bs name w4 = Some (r, w5))"
    using assms(3) g h
    by (auto simp: client_main_def args open_ [simplified] obs bind_eq_Some_conv w2_def [symmetric] w4_def [symmetric] Let_def
        split: if_splits list.splits) blast
  have w5: "klog w5 = klog w4" "w_app w5 = w_app w4"
    using mid request_log [OF assms(1), where bs = bs and w = w4 and w' = w5] by blast+
  have "klog w0 = map Got (rev (connection bs 131072))" "w_app w0 = w_app w"
    using open_log [OF open_ [unfolded obs] assms(2)] by simp_all
  then show ?thesis
    using lookup_log [OF assms(1) g(1)] lookup_log [OF assms(1) h(1)] g(2) h(2) w5 w'
    by (intro exI [of _ bs]) (simp add: reference_log w2_def w4_def)
qed


section \<open>A driver that grants every request\<close>

text \<open>It answers each call with a reference to object 5, from a memory it sets up afresh.\<close>

definition grant_txn :: binder_transaction_data where
  "grant_txn = \<lparr>t_target = 0, t_cookie = 0, t_code = 0, t_flags = 0, t_sender_pid = 0, t_sender_euid = 0,
     t_data_size = 16, t_offsets_size = 4, t_buffer = 0x1000, t_offsets = 0x2000\<rparr>"

definition grant_mem :: "u32 \<Rightarrow> mem" where
  "grant_mem readbuf = store_bytes readbuf (br_bytes (Br_reply grant_txn)) (store_obj 0x1000 (handle_obj 5) (\<lambda>_. 0))"

definition grant_kernel :: "nat kernel" where
  "grant_kernel = null_kernel\<lparr>k_write_read := (\<lambda>_ bwr m n.
     (0, bwr\<lparr>write_consumed := write_size bwr, read_consumed := 44\<rparr>, grant_mem (read_buffer bwr), n))\<rparr>"

definition client_world :: "(nat watched, client_state) world" where
  "client_world = \<lparr>w_mem = (\<lambda>_. 0), w_sp = 0x7fff0000, w_k = (0, []), w_app = \<lparr>g_hello_handle = 0, g_goodbye_handle = 0\<rparr>\<rparr>"

lemma grant_consumes: "consumes grant_kernel"
  by (simp add: consumes_def grant_kernel_def)

lemma parse_one_reply:
  assumes "load_bytes (w_mem w) r 44 = br_bytes (Br_reply t)" and "unat r + 44 < 4294967296"
  shows "binder_parse K None death bs (Some reply) r 44 w = Some (0, bio_of_txn t reply, w)"
proof -
  have cmd: "load32 (w_mem w) r = BR_REPLY"
    using assms(1) by (auto intro: load32_prefix)
  have "load_bytes (w_mem w) (r + 4) 40 = txn_bytes t"
    using assms(1) load_bytes_add [of "w_mem w" r 4 40] by simp
  then have t: "load_txn (w_mem w) (r + 4) = t"
    by (intro load_txn_bytes [where n = 40 and rest = "[]"]) simp
  have "r < r + 44" using assms(2) by (simp add: word_less_nat_alt unat_add_u32)
  moreover have "r + 44 - (r + 4) = 40" "r + 4 + 40 = r + 44" by simp_all
  ultimately show ?thesis
    unfolding binder_parse_def
    by (simp add: parse_loop.simps [of K None death bs "r + 44" "\<lparr>ps_ptr = r, ps_r = 1, ps_bio_set = True, ps_bio = reply, ps_w = w\<rparr>"]
        parse_cmd_def cmd proto_defs sizeof_txn_def bio_init_from_txn_eq t)
       (simp add: parse_loop.simps add.commute)
qed

lemma grant_ioctl:
  "k_write_read (watch grant_kernel) fd bwr m k =
     (0, bwr\<lparr>write_consumed := write_size bwr, read_consumed := 44\<rparr>, grant_mem (read_buffer bwr),
      note_ops (ref_ops (unread bwr m)) k (fst k))"
  by (simp add: watch_def grant_kernel_def)

lemma grant_call:
  assumes "\<not> bio_overflowed msg" and "200 \<le> unat (w_sp w)"
  shows "\<exists>w'. binder_call (watch grant_kernel) death bs msg zero_bio target code w = Some (0, bio_of_txn grant_txn zero_bio, w') \<and>
     w_mem w' = grant_mem (w_sp w - 172) \<and> w_sp w' = w_sp w"
proof -
  have "unat (w_sp w - 172) = unat (w_sp w) - 172" using assms(2) by (simp add: unat_sub_u32)
  then have "unat (w_sp w - 172) + 44 < 4294967296"
    using assms(2) unat_less_u32 [of "w_sp w"] by linarith
  moreover have "load_bytes (grant_mem r) r 44 = br_bytes (Br_reply grant_txn)" for r
    using load_store_same [of "br_bytes (Br_reply grant_txn)" r] by (simp add: grant_mem_def)
  ultimately show ?thesis
    using assms(1)
    by (simp add: binder_call_def bio_overflowed_def Let_def call_loop.simps ioctl_bwr_def grant_ioctl
        parse_one_reply [where t = grant_txn])
qed

lemma grant_get_ref:
  assumes "0x10000 \<le> unat r" and "unat r + 44 < 4294967296"
  shows "fst (bio_get_ref (grant_mem r) (bio_of_txn grant_txn zero_bio)) = 5"
proof -
  have r: "r = 0 + of_nat (unat r)" by simp
  have far: "apart (of_nat i) n r 44" if "i + n \<le> 0x10000" for i n
    using apart_offsets [of i n "unat r" 44 0] assms that r by simp
  have "load_obj (store_bytes r (br_bytes (Br_reply grant_txn)) m) 0x1000 = load_obj m 0x1000" for m
    using far [of "0x1000" 4] far [of "0x1004" 4] far [of "0x1008" 4] far [of "0x100C" 4]
    by (simp add: load_obj_def load32_store_apart)
  moreover have "load32 (store_bytes r (br_bytes (Br_reply grant_txn)) m) 0x2000 = load32 m 0x2000" for m
    using far [of "0x2000" 4] by (simp add: load32_store_apart)
  moreover have "load32 (store_obj 0x1000 (handle_obj 5) (\<lambda>_. 0)) 0x2000 = 0"
    using apart_offsets [of "0x2000" 4 "0x1000" 16 0]
    by (simp add: store_obj_def load32_store_apart) (simp add: load32_def load_bytes_def upt_rec)
  ultimately show ?thesis
    by (simp add: bio_get_ref_def bio_get_obj_def has_offset_def bio_of_txn_def grant_txn_def grant_mem_def bio_get_def
        align4_def layout_defs handle_obj_def)
qed

lemma grant_lookup:
  assumes "w_sp w = 0x7fff0000" and "length name \<le> 200"
  shows "\<exists>w'. svcmgr_lookup (watch grant_kernel) bs target name w = Some (5, w') \<and> w_sp w' = 0x7fff0000"
proof -
  let ?w = "\<lambda>m. w\<lparr>w_sp := 0x7ffefe00, w_mem := m\<rparr>"
  obtain msg m where msg: "request_msg [PutUint32 0, PutString16X (Some SVC_MGR_NAME), PutString16X (Some name)] 0x7ffefe00 (w_mem w) = (msg, m)"
    by fastforce
  have "buffer_ok 0x7ffefe00 512 4" by (simp add: buffer_ok_def)
  from grant_call [OF lookup_built(3) [OF this assms(2) msg], of "?w m" no_death bs target SVC_MGR_CHECK_SERVICE]
  obtain w' where "binder_call (watch grant_kernel) no_death bs msg zero_bio target SVC_MGR_CHECK_SERVICE (?w m) =
      Some (0, bio_of_txn grant_txn zero_bio, w')" and "w_mem w' = grant_mem 0x7ffefd54"
    by auto
  moreover have "fst (bio_get_ref (grant_mem 0x7ffefd54) (bio_of_txn grant_txn zero_bio)) = 5"
    by (rule grant_get_ref) simp_all
  ultimately show ?thesis
    using assms(1) msg by (simp add: svcmgr_lookup_def client_call_def Let_def case_prod_beta)
qed


theorem binder_open_resources_witness:
  "\<exists>w'. binder_open (watch (null_kernel\<lparr>k_version := (\<lambda>_ n. (0, 8, n))\<rparr>)) 131072 client_world = (None, w')
     \<and> leaked (klog w') = [Fd 3]"
proof -
  let ?K = "null_kernel\<lparr>k_version := (\<lambda>_ n. (0, 8, n))\<rparr>"
  obtain w' where "binder_open (watch ?K) 131072 client_world = (None, w')"
    by (simp add: binder_open_def watch_def null_kernel_def client_world_def BINDER_CURRENT_PROTOCOL_VERSION_def)
  then show ?thesis
    using binder_open_resources [of ?K 131072 client_world None w' "0x10000" 1 3 1 0 8 1]
    by (simp add: klog_def client_world_def null_kernel_def BINDER_CURRENT_PROTOCOL_VERSION_def)
qed

end
