(* ===== verification/Binder_Remote.thy ===== *)
theory Binder_Remote
  imports Binder_Resources
begin

text \<open>
  Calls between processes. \<open>relays\<close> is what is relied on of the driver for a call to be answered: it takes
  the transaction out of the caller's ioctl, lets the serving process handle it, and puts the reply into
  the caller's mapping. With it, the functions of the client, and its \<open>main\<close>, are run to the end.
\<close>

section \<open>What the driver does\<close>

text \<open>
  A parcel on its way: the same bytes and offsets at the receiver's addresses; an object at its end is
  replaced by the handle the receiver has for it.
\<close>

definition passed :: "(flat_binder_object \<Rightarrow> u32) \<Rightarrow> mem \<Rightarrow> binder_io \<Rightarrow> mem \<Rightarrow> binder_io \<Rightarrow> bool" where
  "passed tr m b m2 r \<longleftrightarrow>
     (if bio_objs m b = [] then delivered m b m2 r
      else \<forall>obj. drop (bio_used b - 16) (bio_written m b) = obj_bytes obj \<longrightarrow> delivered_handle m b (tr obj) m2 r)"

text \<open>
  A request is served by a process in state \<open>s\<close>: somewhere in its memory the process finds the
  transaction, with the caller's identity, and the parcel; and what its handler replies with status 0 is
  passed to the caller as \<open>r\<close>.
\<close>

definition served ::
    "(u32 \<Rightarrow> binder_io \<Rightarrow> binder_io \<Rightarrow> ('k, 's) world \<Rightarrow> (int \<times> binder_io \<times> ('k, 's) world) option) \<Rightarrow> 's \<Rightarrow>
     u32 \<Rightarrow> u32 \<Rightarrow> u32 \<Rightarrow> (flat_binder_object \<Rightarrow> u32) \<Rightarrow> mem \<Rightarrow> binder_io \<Rightarrow> mem \<Rightarrow> binder_io \<Rightarrow> bool" where
  "served handler s target code euid tr m msg m' r \<longleftrightarrow>
     (\<exists>w smsg txn rdata. w_app w = s \<and> delivered m msg (w_mem w) smsg \<and> buffer_ok rdata 256 4 \<and>
        t_target (load_txn (w_mem w) txn) = target \<and> t_code (load_txn (w_mem w) txn) = code \<and>
        t_sender_euid (load_txn (w_mem w) txn) = euid \<and>
        (\<forall>reply w'. handler txn smsg (bio_init zero_bio rdata 256 4) w = Some (0, reply, w') \<longrightarrow>
           passed tr (w_mem w') reply m' r))"

text \<open>
  The driver relays the requests with this target and code whose bytes are \<open>valid\<close> and that carry no
  objects: the ioctl of the call, in whatever state the kernel is and with a buffer to read into that is
  not in the mapping, comes back with bookkeeping commands
  and one reply, of which \<open>serve\<close> holds.
\<close>

definition relays ::
    "'k kernel \<Rightarrow> binder_state \<Rightarrow> u32 \<Rightarrow> u32 \<Rightarrow> (u8 list \<Rightarrow> bool) \<Rightarrow> (mem \<Rightarrow> binder_io \<Rightarrow> mem \<Rightarrow> binder_io \<Rightarrow> bool) \<Rightarrow> bool" where
  "relays K bs target code valid serve \<longleftrightarrow> (\<forall>k bwr m msg cookie pid euid.
     load_bytes m (write_buffer bwr) (unat (write_size bwr)) =
       le32 BC_TRANSACTION @ txn_bytes (request_txn msg target code cookie pid euid) \<longrightarrow>
     read_size bwr = 128 \<longrightarrow> (\<forall>i < 128. \<not> in_map bs (read_buffer bwr + of_nat i)) \<longrightarrow>
     valid (bio_written m msg) \<longrightarrow> bio_nobj msg = 0 \<longrightarrow>
     (\<exists>res bwr' m' k' pre t. k_write_read K (bs_fd bs) bwr m k = (res, bwr', m', k') \<and> 0 \<le> res \<and> list_all quiet pre \<and>
        length (concat (map br_bytes (pre @ [Br_reply t]))) \<le> 128 \<and>
        read_consumed bwr' = of_nat (length (concat (map br_bytes (pre @ [Br_reply t])))) \<and>
        load_bytes m' (read_buffer bwr) (length (concat (map br_bytes (pre @ [Br_reply t])))) =
          concat (map br_bytes (pre @ [Br_reply t])) \<and>
        serve m msg m' (bio_of_txn t zero_bio)))"

section \<open>A call of the client\<close>

lemma sent_app: "sent K bs bytes P w w' \<Longrightarrow> w_app w' = w_app w"
  by (auto simp: sent_def)

lemma commands_keep_app:
  "w_app (binder_acquire K bs h w) = w_app w" "w_app (binder_release K bs h w) = w_app w"
  "w_app (snd (binder_done K bs reply w)) = w_app w"
proof -
  show "w_app (binder_acquire K bs h w) = w_app w" "w_app (binder_release K bs h w) = w_app w"
    using reference_commands_sent sent_app by blast+
  show "w_app (snd (binder_done K bs reply w)) = w_app w"
    using done_sent [THEN sent_app] by (cases "b_flags reply AND BIO_F_SHARED = 0") (simp_all add: binder_done_def)
qed

lemma request_world_above:
  assumes "172 \<le> unat (w_sp w)" and "w_sp w \<le> x"
  shows "w_mem (request_world msg target code w) x = w_mem w x"
proof -
  let ?bs = "\<lparr>bs_ptr = 0, bs_fd = 0, bs_mapped = 0, bs_mapsize = 0\<rparr>"
  define r where "r = w_sp w - 172"
  have "kept ?bs (run_of r 172) (w\<lparr>w_sp := r\<rparr>) (request_world msg target code w)"
    unfolding request_world_def Let_def r_def [symmetric] by (rule store_words_kept) simp
  then show ?thesis
    using above_frame [of 172 "w_sp w" x] assms by (simp add: kept_def in_map_def r_def)
qed

text \<open>The stack of a caller: room for the frames of a call, outside the mapping.\<close>

definition stack_ok :: "binder_state \<Rightarrow> u32 \<Rightarrow> bool" where
  "stack_ok bs sp \<longleftrightarrow> 4096 \<le> unat sp \<and> (\<forall>x. sp - 4096 \<le> x \<longrightarrow> x < sp \<longrightarrow> \<not> in_map bs x)"

lemma stack_run:
  assumes "stack_ok bs sp" and "w_sp w = sp - 512"
  shows "caller_run bs (w\<lparr>w_sp := w_sp w - 172\<rparr>) (w_sp w - 172) 128"
proof -
  have sp: "4096 \<le> unat sp" using assms(1) by (simp add: stack_ok_def)
  have r: "unat (w_sp w - 172) = unat sp - 684" using sp assms(2) by (simp add: unat_sub_u32)
  have lo: "unat (sp - 4096) = unat sp - 4096" using sp by (simp add: unat_sub_u32)
  have i: "unat (w_sp w - 172 + of_nat i) = unat sp - 684 + i" if "i < 128" for i
    using that sp r unat_less_u32 [of sp] by (subst unat_offset) linarith+
  have "sp - 4096 \<le> w_sp w - 172 + of_nat i" "w_sp w - 172 + of_nat i < sp" if "i < 128" for i
    unfolding word_le_nat_alt word_less_nat_alt i [OF that] lo using that sp by linarith+
  moreover have "unat (w_sp w - 172) + 128 < 4294967296" using r sp unat_less_u32 [of sp] by linarith
  ultimately show ?thesis
    unfolding caller_run_def using assms(1) i r by (auto simp: stack_ok_def word_le_nat_alt)
qed

lemma stack_buffer:
  assumes "stack_ok bs sp"
  shows "buffer_ok (sp - 512) 512 4"
proof -
  have "unat (sp - 512) = unat sp - 512" "4096 \<le> unat sp" using assms by (simp_all add: stack_ok_def unat_sub_u32)
  then show ?thesis using unat_less_u32 [of sp] by (auto simp: buffer_ok_def simp flip: unat_eq_0)
qed

text \<open>
  What a call of the client comes to, when its message fits and the driver relays it: the message as it
  was when the driver read it, the memory and the parcel the reply arrives in, and then what the caller
  does with it.
\<close>

lemma client_call_remote:
  assumes "driver_ok K bs" and stack: "stack_ok bs (w_sp w)" and rel: "relays K bs target code valid serve"
    and msg: "request_msg ops (w_sp w - 512) (w_mem w) = (msg, m)" and ops: "list_all op_valid ops"
    and fits: "\<not> bio_overflowed msg" and v: "valid (bio_written m msg)" and objs: "bio_objs m msg = []"
  shows "\<exists>m1 m' r k' x reply w'. bio_written m1 msg = bio_written m msg \<and> serve m1 msg m' r \<and>
     receive m' r (w\<lparr>w_sp := w_sp w - 512, w_mem := m', w_k := k'\<rparr>) = (x, reply, w') \<and>
     client_call K bs ops target code failed receive w = Some (x, (snd (binder_done K bs reply w'))\<lparr>w_sp := w_sp w\<rparr>)"
proof -
  let ?sp = "w_sp w - 512" and ?w = "w\<lparr>w_sp := w_sp w - 512, w_mem := m\<rparr>"
  let ?m1 = "w_mem (request_world msg target code ?w)"
  have sp: "4096 \<le> unat (w_sp w)" using stack by (simp add: stack_ok_def)
  then have d: "unat ?sp = unat (w_sp w) - 512" by (simp add: unat_sub_u32)
  have inv: "bio_inv ?sp 512 4 msg"
    using stack_buffer [OF stack] bio.puts_inv [of ?sp 512 4 "(bio_init zero_bio ?sp 512 4, w_mem w)" ops] bio_init_ok(1) [of ?sp 512 4] msg ops
    by (simp add: request_msg_def)
  note i = bio_invD [OF inv]
  have above: "?sp \<le> b_data0 msg + of_nat j" if "j < bio_used msg" for j
  proof -
    have "unat ?sp + (16 + j) < 4294967296" using that i(2,6) by linarith
    then have "unat (?sp + of_nat (16 + j)) = unat ?sp + (16 + j)" by (rule unat_offset)
    moreover have "?sp + of_nat (16 + j) = b_data0 msg + of_nat j" using i(5) by simp
    ultimately show ?thesis by (simp only: word_le_nat_alt)
  qed
  have same: "bio_written ?m1 msg = bio_written m msg"
    unfolding bio_written_def using above d sp by (intro load_bytes_cong) (simp add: request_world_above)
  have "bio_nobj msg = 0" using objs by (metis length_bio_objs list.size(3))
  moreover have "\<forall>i < 128. \<not> in_map bs (read_buffer (request_bwr ?w) + of_nat i)"
    using stack_run [OF stack, of ?w] by (simp add: caller_run_def request_bwr_def)
  moreover obtain cookie pid euid where "load_bytes ?m1 (write_buffer (request_bwr ?w)) (unat (write_size (request_bwr ?w))) =
      le32 BC_TRANSACTION @ txn_bytes (request_txn msg target code cookie pid euid)"
    using request_sent [of msg target code ?w] by (auto simp: request_bwr_def)
  moreover have "read_size (request_bwr ?w) = 128" by (simp add: request_bwr_def)
  ultimately obtain res bwr' m' k' pre t where io:
      "k_write_read K (bs_fd bs) (request_bwr ?w) ?m1 (w_k ?w) = (res, bwr', m', k')" "0 \<le> res"
      "read_consumed bwr' = of_nat (length (concat (map br_bytes (pre @ [Br_reply t]))))"
      "load_bytes m' (read_buffer (request_bwr ?w)) (length (concat (map br_bytes (pre @ [Br_reply t])))) =
         concat (map br_bytes (pre @ [Br_reply t]))"
    and pre: "list_all quiet pre" "length (concat (map br_bytes (pre @ [Br_reply t]))) \<le> 128"
    and srv: "serve ?m1 msg m' (bio_of_txn t zero_bio)"
    using rel [unfolded relays_def, rule_format, of ?m1 "request_bwr ?w" msg cookie pid euid "w_k ?w"] v same by metis
  have "binder_call K no_death bs msg zero_bio target code ?w = Some (0, bio_of_txn t zero_bio, ?w\<lparr>w_mem := m', w_k := k'\<rparr>)"
    by (rule call_answered [OF assms(1) fits _ stack_run [OF stack] refl pre io(1-3)])
      (use io(4) sp d in \<open>simp_all add: request_bwr_def\<close>)
  moreover obtain x reply w' where
      "receive m' (bio_of_txn t zero_bio) (w\<lparr>w_sp := w_sp w - 512, w_mem := m', w_k := k'\<rparr>) = (x, reply, w')"
    using prod_cases3 by blast
  ultimately have "client_call K bs ops target code failed receive w =
      Some (x, (snd (binder_done K bs reply w'))\<lparr>w_sp := w_sp w\<rparr>)"
    using msg by (simp add: client_call_def Let_def case_prod_beta)
  then show ?thesis using same srv \<open>receive m' _ _ = _\<close> by blast
qed

section \<open>Looking a service up\<close>

text \<open>The handle a client has for a service the manager knows as \<open>h\<close>.\<close>

definition translated :: "(flat_binder_object \<Rightarrow> u32) \<Rightarrow> u32 \<Rightarrow> u32" where
  "translated tr h = (if h = 0 then 0 else tr (handle_obj h))"

lemma passed_ref_read:
  assumes "buffer_ok rdata 256 4" and "h \<noteq> 0"
    and "bio_put_ref h (bio_init zero_bio rdata 256 4, m) = (reply, m1)" and "passed tr m1 reply m2 r"
  shows "fst (bio_get_ref m2 r) = tr (handle_obj h)"
proof -
  note b = reply_ref_written [OF assms(1,3,2)]
  have "bio_used reply = 16" using arg_cong [OF b(1), of length] by simp
  then have "delivered_handle m1 reply (tr (handle_obj h)) m2 r" using assms(4) b by (auto simp: passed_def)
  then show ?thesis
    using b(2) \<open>bio_used reply = 16\<close> by (intro single_ref_read) (simp_all add: delivered_handle_def)
qed

lemma lookup_reply:
  assumes "svc_rep (w_app w) R" and "call_bytes SVC_MGR_NAME name (bio_written m msg)" and "delivered m msg (w_mem w) smsg"
    and t: "t = load_txn (w_mem w) txn" "t_target t = svcmgr_handle (w_app w)" "t_code t = SVC_MGR_CHECK_SERVICE"
    and rdata: "buffer_ok rdata 256 4"
  shows "\<exists>reply w'. svcmgr_handler K bs txn smsg (bio_init zero_bio rdata 256 4) w = Some (0, reply, w') \<and>
     (\<forall>tr m3 r. passed tr (w_mem w') reply m3 r \<longrightarrow>
        fst (bio_get_ref m3 r) = translated tr (reg_find (R (widen name)) (t_sender_euid t)))"
proof -
  let ?h = "reg_find (R (widen name)) (t_sender_euid t)" and ?b = "bio_init zero_bio rdata 256 4"
  obtain ps where ps: "svc_list (w_app w) ps" "svc_regs (w_app w) ps = R" using assms(1) by (auto simp: svc_rep_def)
  let ?op = "if ?h = 0 then bio_put_uint32 0 else bio_put_ref ?h"
  have eq: "svcmgr_handler K bs txn smsg ?b w = Some (put_reply ?op ?b w)"
    using handler_find [OF ps(1) lookup_request [OF assms(2,3)] t(1,2)] t(3) ps(2) by simp
  obtain reply m' where r: "?op (?b, w_mem w) = (reply, m')" by (metis surj_pair)
  have "fst (bio_get_ref m3 c) = translated tr ?h" if "passed tr m' reply m3 c" for tr m3 c
  proof (cases "?h = 0")
    case True
    then have put: "bio_put_uint32 0 (?b, w_mem w) = (reply, m')" using r by simp
    then have "bio_objs m' reply = []" by (rule reply_word_written [OF rdata])
    then have "delivered m' reply m3 c" using that by (simp add: passed_def)
    then show ?thesis using True reply_word_read(2) [OF rdata put] by (simp add: translated_def)
  next
    case False
    then show ?thesis using r passed_ref_read [OF rdata False _ that] by (simp add: translated_def)
  qed
  then show ?thesis using eq r by (simp add: put_reply_eq)
qed

lemma lookup_ops_valid: "length name \<le> 200 \<Longrightarrow> list_all op_valid [PutUint32 0, PutString16X (Some SVC_MGR_NAME), PutString16X (Some name)]"
  by (simp add: SVC_MGR_NAME_def)

lemma lookup_remote_call:
  assumes drv: "driver_ok K bs" and stack: "stack_ok bs (w_sp w)" and name: "length name \<le> 200" and rep: "svc_rep s R"
    and rel: "relays K bs target SVC_MGR_CHECK_SERVICE (call_bytes SVC_MGR_NAME name)
      (served (svcmgr_handler Km bsm) s (svcmgr_handle s) SVC_MGR_CHECK_SERVICE euid tr)"
  shows "\<exists>w'. svcmgr_lookup K bs target name w = Some (translated tr (reg_find (R (widen name)) euid), w') \<and>
     w_sp w' = w_sp w \<and> w_app w' = w_app w"
proof -
  let ?ops = "[PutUint32 0, PutString16X (Some SVC_MGR_NAME), PutString16X (Some name)]"
  obtain msg m where msg: "request_msg ?ops (w_sp w - 512) (w_mem w) = (msg, m)" by (metis surj_pair)
  note built = lookup_built [OF stack_buffer [OF stack] name msg]
  let ?recv = "\<lambda>m reply w. let (handle, reply) = bio_get_ref m reply
      in (handle, reply, if handle \<noteq> 0 then binder_acquire K bs handle w else w)"
  obtain m1 m' r k' x reply w' where m1: "bio_written m1 msg = bio_written m msg"
    and srv: "served (svcmgr_handler Km bsm) s (svcmgr_handle s) SVC_MGR_CHECK_SERVICE euid tr m1 msg m' r"
    and recv: "?recv m' r (w\<lparr>w_sp := w_sp w - 512, w_mem := m', w_k := k'\<rparr>) = (x, reply, w')"
    and call: "svcmgr_lookup K bs target name w = Some (x, (snd (binder_done K bs reply w'))\<lparr>w_sp := w_sp w\<rparr>)"
    using client_call_remote [OF drv stack rel msg lookup_ops_valid [OF name] built(3,1,2), of ?recv 0]
    unfolding svcmgr_lookup_def by blast
  have "fst (bio_get_ref m' r) = translated tr (reg_find (R (widen name)) euid)"
    using srv lookup_reply [where name = name and m = m1 and msg = msg and R = R] built(1) rep unfolding served_def m1 [symmetric]
    by metis
  then show ?thesis
    using call recv by (auto simp: Let_def commands_keep_app split: prod.splits if_splits)
qed

section \<open>Being greeted\<close>

lemma greeting_reply:
  assumes "call_bytes ''IHelloService'' name (bio_written m msg)" and "delivered m msg (w_mem w) smsg"
    and "t_code (load_txn (w_mem w) txn) = HELLO_SVR_CMD_SAYHELLO_TO" and "t_target (load_txn (w_mem w) txn) = hello"
    and rdata: "buffer_ok rdata 256 4"
  shows "\<exists>reply w'. test_server_handler hello goodbye bs txn smsg (bio_init zero_bio rdata 256 4) w = Some (0, reply, w') \<and>
     (\<forall>tr m3 r. passed tr (w_mem w') reply m3 r \<longrightarrow> fst (read_result m3 r) = hello_to_cnt (w_app w) + 1)"
proof -
  let ?b = "bio_init zero_bio rdata 256 4" and ?n = "hello_to_cnt (w_app w) + 1"
  let ?m = "store_bytes (w_sp w - 512) (map ucast (widen name) @ [0]) (w_mem w)"
  obtain reply m' where r: "(bio_put_uint32 ?n \<circ> bio_put_uint32 0) (?b, ?m) = (reply, m')" by (metis surj_pair)
  have "bio_objs m' reply = []" by (rule reply_result_written [OF rdata r])
  then have "fst (read_result m3 c) = ?n" if "passed tr m' reply m3 c" for tr m3 c
    using that reply_result_read [OF rdata r] by (simp add: passed_def)
  then show ?thesis
    using hello_to_result [OF greeting_request [OF assms(1,2)] assms(3), of bs ?b] r assms(4)
    by (simp add: test_server_handler_def put_reply_eq)
qed

lemma greeting_remote_call:
  fixes K :: "'k kernel" and w :: "('k, client_state) world"
  assumes drv: "driver_ok K bs" and stack: "stack_ok bs (w_sp w)" and name: "length name \<le> 200"
    and rel: "relays K bs (g_hello_handle (w_app w)) HELLO_SVR_CMD_SAYHELLO_TO (call_bytes ''IHelloService'' name) serve"
    and serve: "serve = served (test_server_handler hello goodbye bsm) s hello HELLO_SVR_CMD_SAYHELLO_TO euid tr"
  shows "\<exists>w'. client_sayhello_to K bs name w = Some (hello_to_cnt s + 1, w') \<and> w_sp w' = w_sp w \<and> w_app w' = w_app w"
proof -
  let ?recv = "\<lambda>m reply (w :: ('k, client_state) world). let (ret, reply) = read_result m reply in (ret, reply, w)"
  obtain msg m where msg: "request_msg (call_ops ''IHelloService'' name) (w_sp w - 512) (w_mem w) = (msg, m)" by (metis surj_pair)
  have ops: "list_all op_valid (call_ops ''IHelloService'' name)" using name by simp
  have "length ''IHelloService'' \<le> 30" by simp
  note built = call_built [OF stack_buffer [OF stack] this name msg]
  obtain m1 m' r k' x reply w' where m1: "bio_written m1 msg = bio_written m msg"
    and srv: "serve m1 msg m' r"
    and recv: "?recv m' r (w\<lparr>w_sp := w_sp w - 512, w_mem := m', w_k := k'\<rparr>) = (x, reply, w')"
    and call: "client_sayhello_to K bs name w = Some (x, (snd (binder_done K bs reply w'))\<lparr>w_sp := w_sp w\<rparr>)"
    using client_call_remote [OF drv stack rel msg ops built(3,1,2), of ?recv 0]
    unfolding client_sayhello_to_def by blast
  have "fst (read_result m' r) = hello_to_cnt s + 1"
    using srv greeting_reply [where name = name and m = m1 and msg = msg] built(1) unfolding serve served_def m1 [symmetric]
    by metis
  then show ?thesis
    using call recv by (auto simp: Let_def commands_keep_app split: prod.splits)
qed

end
