(* ===== verification/Remote_Properties.thy ===== *)
theory Remote_Properties
  imports Binder_Remote
begin

text \<open>
  The client program, run to the end. First what a driver can be that does what \<open>relays\<close> asks of it: one
  that answers every call with the same parcel, which is what the service manager, or the example server,
  replies to the requests it is given. Then the properties of the client, exhibited on it.
\<close>

section \<open>A driver with one answer\<close>

text \<open>The parcel \<open>r\<close> in memory \<open>m\<close>: its bytes, and the offsets of its objects.\<close>

definition arrives :: "u8 list \<Rightarrow> u32 list \<Rightarrow> mem \<Rightarrow> binder_io \<Rightarrow> bool" where
  "arrives bs objs m r \<longleftrightarrow> bio_cursor r \<and> b_data r = b_data0 r \<and> bio_rest m r = bs \<and>
     map (\<lambda>i. load32 m (b_offs r + 4 * of_nat i)) [0..<unat (b_offs_avail r)] = objs"

definition relay_bs :: binder_state where
  "relay_bs = null_bs\<lparr>bs_ptr := 0x10000\<rparr>"

definition relay_txn :: "u8 list \<Rightarrow> u32 list \<Rightarrow> binder_transaction_data" where
  "relay_txn bs objs = (call_txn 0 0)\<lparr>t_data_size := of_nat (length bs), t_offsets_size := of_nat (4 * length objs)\<rparr>"

definition relay_mem :: "u8 list \<Rightarrow> u32 list \<Rightarrow> u32 \<Rightarrow> mem \<Rightarrow> mem" where
  "relay_mem bs objs readbuf m = store_bytes readbuf (br_bytes (Br_reply (relay_txn bs objs)))
     (store_bytes 0x40001000 (concat (map le32 objs)) (store_bytes 0x40000000 bs m))"

definition relay_kernel :: "u8 list \<Rightarrow> u32 list \<Rightarrow> nat kernel" where
  "relay_kernel bs objs = null_kernel\<lparr>k_write_read := (\<lambda>_ bwr m n.
     if read_size bwr = 128 then (0, bwr\<lparr>read_consumed := 44\<rparr>, relay_mem bs objs (read_buffer bwr) m, n)
     else (0, bwr\<lparr>read_consumed := 0\<rparr>, m, n))\<rparr>"

lemma relay_map: "in_map relay_bs x \<longleftrightarrow> unat (x - 0x40000000) < 0x20000"
  by (simp add: in_map_def relay_bs_def null_bs_def)

lemma map_outside:
  assumes "\<not> in_map relay_bs x" and "i + n \<le> 0x20000"
  shows "n \<le> unat (x - (0x40000000 + of_nat i))"
proof (rule ccontr)
  define d where "d = unat (x - (0x40000000 + of_nat i))"
  assume "\<not> n \<le> unat (x - (0x40000000 + of_nat i))"
  then have d: "i + d < 0x20000" using assms(2) by (simp add: d_def)
  have "x - 0x40000000 = of_nat (i + d)" by (simp add: d_def)
  then have "unat (x - 0x40000000) = i + d" using d by (simp only: unat_of_nat_u32)
  then show False using assms(1) d by (simp add: relay_map)
qed

lemma map_apart:
  assumes "\<forall>i < 128. \<not> in_map relay_bs (a + of_nat i)" and "i + n \<le> 0x20000" and "k \<le> 128"
  shows "apart (0x40000000 + of_nat i) n a k"
  unfolding apart_def
proof (intro allI impI, rule ccontr)
  fix j assume j: "j < n" and less: "\<not> k \<le> unat (0x40000000 + of_nat i + of_nat j - a)"
  let ?x = "0x40000000 + of_nat i + of_nat j :: u32"
  have "unat (?x - a) < 128" using less assms(3) by simp
  then have "\<not> in_map relay_bs (a + of_nat (unat (?x - a)))" using assms(1) by blast
  then have "\<not> in_map relay_bs ?x" by (simp add: add.assoc)
  moreover have "?x - 0x40000000 = of_nat (i + j)" by simp
  then have "unat (?x - 0x40000000) = i + j" using assms(2) j by (simp only: unat_of_nat_u32)
  ultimately show False using assms(2) j by (simp add: relay_map)
qed

lemma relay_mem_load:
  assumes "\<forall>i < 128. \<not> in_map relay_bs (a + of_nat i)" and "length bs \<le> 0x1000" and "length objs \<le> 1"
  shows "load_bytes (relay_mem bs objs a m) a 44 = br_bytes (Br_reply (relay_txn bs objs))"
    and "arrives bs objs (relay_mem bs objs a m) (bio_of_txn (relay_txn bs objs) zero_bio)"
proof -
  let ?m = "relay_mem bs objs a m" and ?t = "relay_txn bs objs"
  have l: "length (br_bytes (Br_reply ?t)) = 44" by simp
  then show "load_bytes ?m a 44 = br_bytes (Br_reply ?t)" unfolding relay_mem_def by (simp add: load_store_same_len)
  have up: "load_bytes ?m (0x40000000 + of_nat i) n =
      load_bytes (store_bytes 0x40001000 (concat (map le32 objs)) (store_bytes 0x40000000 bs m)) (0x40000000 + of_nat i) n"
    if "i + n \<le> 0x20000" for i n
    unfolding relay_mem_def by (rule load_store_apart) (use map_apart [OF assms(1) that, of 44] l in simp)
  have o: "length (concat (map le32 objs)) \<le> 4" using assms(3) by (cases objs) auto
  have "load_bytes ?m 0x40000000 (length bs) = load_bytes (store_bytes 0x40000000 bs m) 0x40000000 (length bs)"
    using up [of 0 "length bs"] assms(2) o load_store_apart [of "0x40000000" "length bs" "0x40001000" "concat (map le32 objs)"]
      apart_numeral [of "0x40000000" "length bs" "0x40001000" "length (concat (map le32 objs))"] by simp
  then have data: "load_bytes ?m 0x40000000 (length bs) = bs" using assms(2) by (simp add: load_store_same)
  have "load_bytes ?m 0x40001000 (length (concat (map le32 objs))) = concat (map le32 objs)"
    using up [of "0x1000" "length (concat (map le32 objs))"] o by (simp add: load_store_same)
  then have offs: "map (\<lambda>i. load32 ?m (0x40001000 + 4 * of_nat i)) [0..<length objs] = objs"
    using assms(3) by (cases objs) (auto intro: load32_prefix [where bs = "[]"])
  then show "arrives bs objs ?m (bio_of_txn ?t zero_bio)"
    using data assms(2,3) by (cases objs) (simp_all add: arrives_def bio_cursor_def bio_rest_def bio_room_def bio_of_txn_def relay_txn_def call_txn_def)
qed

lemma relay_driver:
  assumes "length bs \<le> 0x1000" and "length objs \<le> 1"
  shows "driver_ok (relay_kernel bs objs) relay_bs"
proof -
  have "relay_mem bs objs a m x = m x" if "\<not> in_map relay_bs x" "128 \<le> unat (x - a)" for a m x
  proof -
    have "length (concat (map le32 objs)) \<le> 4" using assms(2) by (cases objs) auto
    then show ?thesis
      using that map_outside [OF that(1), of "0x1000" 4] map_outside [OF that(1), of 0 "0x1000"] assms(1)
      by (simp add: relay_mem_def store_bytes_def Let_def)
  qed
  then show ?thesis by (auto simp: driver_ok_def relay_kernel_def split: if_splits)
qed

lemma relay_relays:
  assumes "length bs \<le> 0x1000" and "length objs \<le> 1"
    and "\<And>m msg m' r. valid (bio_written m msg) \<Longrightarrow> bio_nobj msg = 0 \<Longrightarrow> arrives bs objs m' r \<Longrightarrow> serve m msg m' r"
  shows "relays (relay_kernel bs objs) relay_bs target code valid serve"
  unfolding relays_def
proof (intro allI impI)
  fix k :: nat and bwr :: binder_write_read and m :: mem and msg :: binder_io
  assume r: "read_size bwr = 128" "\<forall>i < 128. \<not> in_map relay_bs (read_buffer bwr + of_nat i)"
    and v: "valid (bio_written m msg)" "bio_nobj msg = 0"
  note load = relay_mem_load [OF r(2) assms(1,2), of m]
  have "k_write_read (relay_kernel bs objs) (bs_fd relay_bs) bwr m k =
      (0, bwr\<lparr>read_consumed := 44\<rparr>, relay_mem bs objs (read_buffer bwr) m, k)"
    using r(1) by (simp add: relay_kernel_def)
  then show "\<exists>res bwr' m' k' pre t. k_write_read (relay_kernel bs objs) (bs_fd relay_bs) bwr m k = (res, bwr', m', k') \<and>
      0 \<le> res \<and> list_all quiet pre \<and> length (concat (map br_bytes (pre @ [Br_reply t]))) \<le> 128 \<and>
      read_consumed bwr' = of_nat (length (concat (map br_bytes (pre @ [Br_reply t])))) \<and>
      load_bytes m' (read_buffer bwr) (length (concat (map br_bytes (pre @ [Br_reply t])))) =
        concat (map br_bytes (pre @ [Br_reply t])) \<and> serve m msg m' (bio_of_txn t zero_bio)"
    using load(1) assms(3) [OF v load(2)]
    by (intro exI [of _ 0] exI [of _ "bwr\<lparr>read_consumed := 44\<rparr>"] exI [of _ "relay_mem bs objs (read_buffer bwr) m"]
        exI [of _ k] exI [of _ "[]"] exI [of _ "relay_txn bs objs"]) simp
qed

lemma relay_stack: "stack_ok relay_bs 0x7fff0000"
proof -
  have "\<not> in_map relay_bs x" if "0x7ffef000 \<le> x" for x
  proof -
    have x: "0x7ffef000 \<le> unat x" using that by (simp add: word_le_nat_alt)
    then have "unat (x - 0x40000000) = unat x - 0x40000000" by (subst unat_sub_u32) simp_all
    then show ?thesis using x by (simp add: relay_map)
  qed
  then show ?thesis by (simp add: stack_ok_def)
qed

section \<open>What it answers\<close>

lemma call_bytes_length:
  assumes "call_bytes iface name bs" and "length iface \<le> 30"
  shows "length bs \<le> 0x1000"
proof -
  have "length (widen iface) \<le> 30" "length name \<le> 200" "length (widen name) \<le> length name"
    using assms length_widen [of iface] length_widen [of name] by (simp_all add: call_bytes_def)
  then show ?thesis using assms(1) by (auto simp: call_bytes_def is_str16_def str_len_def align4_nat_def)
qed

lemma request_arrives:
  assumes "length (bio_written m msg) \<le> 0x1000" and "bio_nobj msg = 0"
  shows "delivered m msg (w_mem (msg_world t [] (bio_written m msg))) (msg_bio [] (bio_written m msg))"
    and "load_txn (w_mem (msg_world t [] (bio_written m msg))) 0x7fff1000 = t"
proof -
  have "bio_objs m msg = []" using assms(2) by (simp flip: length_0_conv)
  then show "delivered m msg (w_mem (msg_world t [] (bio_written m msg))) (msg_bio [] (bio_written m msg))"
    using msg_bio_read [OF assms(1), of "[]"] by (simp add: delivered_def) (simp add: msg_bio_def)
  show "load_txn (w_mem (msg_world t [] (bio_written m msg))) 0x7fff1000 = t"
    using msg_world_load(1) [OF assms(1), of "[]"] by simp
qed

lemma servedI:
  assumes "delivered m msg (w_mem w) smsg" and "t = load_txn (w_mem w) txn" and "buffer_ok rdata 256 4"
    and "\<And>reply w'. handler txn smsg (bio_init zero_bio rdata 256 4) w = Some (0, reply, w') \<Longrightarrow> passed tr (w_mem w') reply m' r"
  shows "served handler (w_app w) (t_target t) (t_code t) (t_sender_euid t) tr m msg m' r"
  unfolding served_def using assms by blast

text \<open>A service manager that knows the two services, both as its handle 7; the client knows the object as 5.\<close>

definition two_services :: svc_state where
  "two_services = \<lparr>svclist = 0x10000, svcmgr_handle = 0, svc_heap =
     [0x10000 \<mapsto> \<lparr>si_next = 0x10200, si_handle = 7, si_death_ptr = 0x10000, si_allow_isolated = 0, si_len = 5,
        si_name = widen ''hello'' @ [0]\<rparr>,
      0x10200 \<mapsto> \<lparr>si_next = 0, si_handle = 7, si_death_ptr = 0x10200, si_allow_isolated = 0, si_len = 7,
        si_name = widen ''goodbye'' @ [0]\<rparr>]\<rparr>"

definition two_regs :: registry where
  "two_regs = [widen ''hello'' \<mapsto> (7, False), widen ''goodbye'' \<mapsto> (7, False)]"

lemma two_services_rep: "svc_rep two_services two_regs"
proof -
  have w: "widen ''hello'' = [104, 101, 108, 108, 111]" "widen ''goodbye'' = [103, 111, 111, 100, 98, 121, 101]"
    by (simp_all add: widen_def c_string_def)
  have "svc_list two_services [0x10000, 0x10200]"
    by (simp add: svc_list_def two_services_def svc_at_def svcinfo_ok_def svc_key_def w)
  moreover have "svc_regs two_services [0x10000, 0x10200] = two_regs"
    by (simp add: svc_regs_def two_services_def two_regs_def svc_at_def svc_key_def svc_reg_def w fun_upd_twist)
  ultimately show ?thesis unfolding svc_rep_def by blast
qed

lemma two_regs_find:
  "name = ''goodbye'' \<or> name = ''hello'' \<Longrightarrow> reg_find (two_regs (widen name)) 1000 = 7"
  by (auto simp: two_regs_def reg_find_def isolated_def widen_def c_string_def)

lemma lookup_served:
  assumes "name = ''goodbye'' \<or> name = ''hello''" and bytes: "call_bytes SVC_MGR_NAME name (bio_written m msg)"
    and "bio_nobj msg = 0" and r: "arrives (obj_bytes (handle_obj 5)) [0] m' r"
  shows "served (svcmgr_handler null_kernel null_bs) two_services (svcmgr_handle two_services) SVC_MGR_CHECK_SERVICE 1000 (\<lambda>_. 5) m msg m' r"
proof -
  let ?t = "call_txn SVC_MGR_CHECK_SERVICE 1000" and ?b = "bio_init zero_bio 0x7fff4000 256 4"
  let ?w = "(msg_world ?t [] (bio_written m msg))\<lparr>w_app := two_services\<rparr>" and ?smsg = "msg_bio [] (bio_written m msg)"
  note arr = request_arrives [OF call_bytes_length [OF bytes length_SVC_MGR_NAME] assms(3), of ?t]
  obtain ps where ps: "svc_list two_services ps" "svc_regs two_services ps = two_regs"
    using two_services_rep by (auto simp: svc_rep_def)
  have del: "delivered m msg (w_mem ?w) ?smsg" and t: "?t = load_txn (w_mem ?w) 0x7fff1000" using arr by simp_all
  have tt: "t_target ?t = svcmgr_handle (w_app ?w)" by (simp add: call_txn_def two_services_def)
  have buf: "buffer_ok 0x7fff4000 256 4" by (simp add: buffer_ok_def)
  obtain reply m1 where put: "bio_put_ref 7 (?b, w_mem ?w) = (reply, m1)" by (metis surj_pair)
  note b = reply_ref_written [OF buf put]
  have "bio_used reply = 16" using arg_cong [OF b(1), of length] by simp
  then have "passed (\<lambda>_. 5) m1 reply m' r" using r b by (simp add: passed_def delivered_handle_def arrives_def)
  moreover have "svcmgr_handler null_kernel null_bs 0x7fff1000 ?smsg ?b ?w = Some (put_reply (bio_put_ref 7) ?b ?w)"
    using handler_find [of ?w ps, OF _ lookup_request [OF bytes del] t tt] ps two_regs_find [OF assms(1)]
    by (simp add: call_txn_def)
  ultimately have "served (svcmgr_handler null_kernel null_bs) (w_app ?w) (t_target ?t) (t_code ?t) (t_sender_euid ?t) (\<lambda>_. 5) m msg m' r"
    using put by (intro servedI [OF del t buf]) (auto simp: put_reply_eq)
  then show ?thesis using tt by (simp add: call_txn_def)
qed

lemma greeting_served:
  assumes bytes: "call_bytes ''IHelloService'' name (bio_written m msg)" and "bio_nobj msg = 0"
    and r: "arrives (le32 0 @ le32 7) [] m' r"
  shows "served ((test_server_handler 0 0x8000 :: (nat, server_state) binder_handler) null_bs) (w_app (greet_world 0)) 0 HELLO_SVR_CMD_SAYHELLO_TO 1000 tr m msg m' r"
proof -
  let ?t = "call_txn HELLO_SVR_CMD_SAYHELLO_TO 1000" and ?b = "bio_init zero_bio 0x7fff4000 256 4"
  let ?w = "(greet_world 0)\<lparr>w_mem := w_mem (msg_world ?t [] (bio_written m msg))\<rparr>" and ?smsg = "msg_bio [] (bio_written m msg)"
  have "length ''IHelloService'' \<le> 30" by simp
  note arr = request_arrives [OF call_bytes_length [OF bytes this] assms(2), of ?t]
  have del: "delivered m msg (w_mem ?w) ?smsg" and t: "?t = load_txn (w_mem ?w) 0x7fff1000" using arr by simp_all
  have buf: "buffer_ok 0x7fff4000 256 4" by (simp add: buffer_ok_def)
  let ?m = "store_bytes (w_sp ?w - 512) (map ucast (widen name) @ [0]) (w_mem ?w)"
  obtain reply m1 where put: "(bio_put_uint32 7 \<circ> bio_put_uint32 0) (?b, ?m) = (reply, m1)" by (metis surj_pair)
  have "passed tr m1 reply m' r"
    using r reply_result_written [OF buf put] by (simp add: passed_def delivered_def arrives_def)
  moreover have "t_code (load_txn (w_mem ?w) 0x7fff1000) = HELLO_SVR_CMD_SAYHELLO_TO" "hello_to_cnt (w_app ?w) = 6"
      "t_target (load_txn (w_mem ?w) 0x7fff1000) = 0"
    using t by (simp_all add: call_txn_def greet_world_def flip: t)
  moreover from this have "\<exists>w'. test_server_handler 0 0x8000 null_bs 0x7fff1000 ?smsg ?b ?w = Some (0, reply, w') \<and> w_mem w' = m1"
    using hello_to_result [OF greeting_request [OF bytes del], of "0x7fff1000" null_bs ?b] put
    by (simp add: test_server_handler_def put_reply_eq)
  ultimately have "served ((test_server_handler 0 0x8000 :: (nat, server_state) binder_handler) null_bs) (w_app ?w) (t_target ?t) (t_code ?t) (t_sender_euid ?t) tr m msg m' r"
    by (intro servedI [OF del t buf]) auto
  then show ?thesis by (simp add: call_txn_def)
qed

section \<open>The client program\<close>

text \<open>A request without objects to a service that answers, whatever it answers.\<close>

lemma client_call_returns:
  assumes drv: "driver_ok K bs" and stack: "stack_ok bs (w_sp w)"
    and rel: "relays K bs target code (\<lambda>_. True) (\<lambda>_ _ _ _. True)"
    and ops: "list_all op_valid ops" "offs_from 0 ops = []"
    and app: "\<And>m r w. w_app (snd (snd (receive m r w))) = w_app w"
  shows "\<exists>x w'. client_call K bs ops target code failed receive w = Some (x, w') \<and> w_sp w' = w_sp w \<and> w_app w' = w_app w"
proof -
  obtain msg m where msg: "request_msg ops (w_sp w - 512) (w_mem w) = (msg, m)" by (metis surj_pair)
  show ?thesis
  proof (cases "bio_overflowed msg")
    case True
    then show ?thesis using msg by (simp add: client_call_def binder_call_def bio_overflowed_def Let_def call_failed_def)
  next
    case False
    then have "bio_objs m msg = []"
      using bio.puts_exact [of "w_sp w - 512" 512 4 "(bio_init zero_bio (w_sp w - 512) 512 4, w_mem w)" ops]
        bio_init_ok [OF stack_buffer [OF stack]] msg ops by (auto simp: request_msg_def)
    from client_call_remote [OF drv stack rel msg ops(1) False TrueI this, of receive failed]
    obtain m' r k' x reply w' where recv: "receive m' r (w\<lparr>w_sp := w_sp w - 512, w_mem := m', w_k := k'\<rparr>) = (x, reply, w')"
        and "client_call K bs ops target code failed receive w = Some (x, (snd (binder_done K bs reply w'))\<lparr>w_sp := w_sp w\<rparr>)"
      by blast
    moreover have "w_app w' = w_app w" using app [of m' r "w\<lparr>w_sp := w_sp w - 512, w_mem := m', w_k := k'\<rparr>"] recv by simp
    ultimately show ?thesis by (simp add: commands_keep_app)
  qed
qed

lemma binder_open_sel:
  assumes "binder_open K n w = (b, w')"
  shows "w_sp w' = w_sp w" "w_app w' = w_app w" "w_mem w' = w_mem w"
  using assms by (auto simp: binder_open_def Let_def split: prod.splits if_splits)

abbreviation (input) runs :: "('k, 's) world \<Rightarrow> ('a \<times> ('k, 's) world) option \<Rightarrow> bool" where
  "runs w r \<equiv> \<exists>x w'. r = Some (x, w') \<and> w_sp w' = w_sp w \<and> w_app w' = w_app w"

lemma greet_call_returns:
  assumes "driver_ok K bs" and "stack_ok bs (w_sp w)"
    and rel: "\<And>h code. h \<noteq> BINDER_SERVICE_MANAGER \<Longrightarrow> relays K bs h code (\<lambda>_. True) (\<lambda>_ _ _ _. True)"
    and "g_hello_handle (w_app w) \<noteq> BINDER_SERVICE_MANAGER" "g_goodbye_handle (w_app w) \<noteq> BINDER_SERVICE_MANAGER"
  shows "runs w (client_sayhello K bs w)" and "runs w (client_saygoodbye K bs w)"
    and "length name < 4294967296 \<Longrightarrow> runs w (client_sayhello_to K bs name w)"
    and "length name < 4294967296 \<Longrightarrow> runs w (client_saygoodbye_to K bs name w)"
  unfolding client_sayhello_def client_saygoodbye_def client_sayhello_to_def client_saygoodbye_to_def
  by (rule client_call_returns [OF assms(1,2) rel]; use assms(4,5) in \<open>simp add: case_prod_beta\<close>)+

section \<open>Properties\<close>

text \<open>
  C1: A lookup, from the client's call to its return. \<open>svcmgr_lookup\<close> with a name of at most 200 characters
  builds the request, calls the driver and reads the reply; when the driver relays it to a service manager
  whose list stands for the registry \<open>R\<close>, the call returns the client's handle for the service that is
  registered there under that name and open to this caller, or 0 when there is none.
\<close>

theorem lookup_remote:
  assumes "driver_ok K bs" and "stack_ok bs (w_sp w)" and "length name \<le> 200" and "svc_rep s R"
    and "relays K bs target SVC_MGR_CHECK_SERVICE (call_bytes SVC_MGR_NAME name)
      (served (svcmgr_handler Km bsm) s (svcmgr_handle s) SVC_MGR_CHECK_SERVICE euid tr)"
  shows "\<exists>w'. svcmgr_lookup K bs target name w = Some (translated tr (reg_find (R (widen name)) euid), w') \<and>
     w_sp w' = w_sp w \<and> w_app w' = w_app w"
  by (rule lookup_remote_call [OF assms])

definition relay_world :: "(nat, client_state) world" where
  "relay_world = \<lparr>w_mem = (\<lambda>_. 0), w_sp = 0x7fff0000, w_k = 0, w_app = \<lparr>g_hello_handle = 3, g_goodbye_handle = 4\<rparr>\<rparr>"

abbreviation lookup_kernel :: "nat kernel" where
  "lookup_kernel \<equiv> relay_kernel (obj_bytes (handle_obj 5)) [0]"

lemma lookup_kernel_relays:
  "name = ''goodbye'' \<or> name = ''hello'' \<Longrightarrow> relays lookup_kernel relay_bs target SVC_MGR_CHECK_SERVICE (call_bytes SVC_MGR_NAME name)
     (served (svcmgr_handler null_kernel null_bs) two_services (svcmgr_handle two_services) SVC_MGR_CHECK_SERVICE 1000 (\<lambda>_. 5))"
  by (rule relay_relays) (simp_all add: lookup_served)

theorem lookup_remote_witness:
  "\<exists>w'. svcmgr_lookup lookup_kernel relay_bs BINDER_SERVICE_MANAGER ''hello'' relay_world = Some (5, w')"
  using lookup_remote [OF relay_driver _ _ two_services_rep lookup_kernel_relays, of relay_world "''hello''"] relay_stack
    two_regs_find [of "''hello''"] by (auto simp: relay_world_def translated_def)





end
