(* ===== verification/Formatting.thy ===== *)
theory Formatting
  imports Prelude
begin

text \<open>
  The conversions of \<open>printf\<close> that the sources use: decimal and hexadecimal numbers, with and without
  padding, and what is needed to read them back.
\<close>

section \<open>Decimal\<close>

text \<open>\<open>sprintf\<close> of an unsigned number in decimal.\<close>

fun decimal :: "nat \<Rightarrow> string" where
  "decimal n = (if n < 10 then [char_of (48 + n)] else decimal (n div 10) @ [char_of (48 + n mod 10)])"

declare decimal.simps [simp del]

text \<open>The number a string of digits denotes.\<close>

definition digits_value :: "string \<Rightarrow> nat" where
  "digits_value cs = foldl (\<lambda>n c. 10 * n + (of_char c - 48)) 0 cs"

lemma digits_value_decimal: "digits_value (decimal n) = n"
proof (induction n rule: decimal.induct)
  case (1 n)
  show ?case
  proof (cases "n < 10")
    case True
    then show ?thesis by (simp add: decimal.simps [of n] digits_value_def)
  next
    case False
    then have "digits_value (decimal n) = 10 * digits_value (decimal (n div 10)) + n mod 10"
      by (subst decimal.simps) (simp add: digits_value_def)
    then show ?thesis using 1 [OF False] by simp
  qed
qed

lemma decimal_digits: "c \<in> set (decimal n) \<Longrightarrow> \<exists>d < 10. c = char_of (48 + d :: nat)"
proof (induction n rule: decimal.induct)
  case (1 n)
  then show ?case
    by (cases "n < 10") (auto simp: decimal.simps [of n] intro: exI [of _ "n mod 10"])
qed

text \<open>A minimum width, filled with zeros (\<open>%04zu\<close>) or blanks (\<open>%8d\<close>) on the left.\<close>

definition padded :: "char \<Rightarrow> nat \<Rightarrow> string \<Rightarrow> string" where
  "padded c n s = replicate (n - length s) c @ s"

definition signed_decimal :: "int \<Rightarrow> string" where
  "signed_decimal i = (if i < 0 then CHR ''-'' # decimal (nat (- i)) else decimal (nat i))"

section \<open>Hexadecimal\<close>

definition hex_digit :: "nat \<Rightarrow> char" where
  "hex_digit d = (if d < 10 then char_of (48 + d) else char_of (87 + d))"

definition hex_value :: "char \<Rightarrow> nat" where
  "hex_value c = (if of_char c < (58 :: nat) then of_char c - 48 else of_char c - 87)"

lemma hex_value_digit: "d < 16 \<Longrightarrow> hex_value (hex_digit d) = d"
  by (simp add: hex_value_def hex_digit_def)

text \<open>Exactly \<open>k\<close> digits of a number that has no more: \<open>%02x\<close> of a byte, \<open>%08x\<close> of a word.\<close>

primrec hex :: "nat \<Rightarrow> nat \<Rightarrow> string" where
  "hex 0 n = []"
| "hex (Suc k) n = hex k (n div 16) @ [hex_digit (n mod 16)]"

lemma length_hex [simp]: "length (hex k n) = k"
  by (induction k arbitrary: n) simp_all

text \<open>\<open>%lx\<close> without a width: as many digits as the number has.\<close>

fun hexadecimal :: "nat \<Rightarrow> string" where
  "hexadecimal n = (if n < 16 then [hex_digit n] else hexadecimal (n div 16) @ [hex_digit (n mod 16)])"

declare hexadecimal.simps [simp del]

section \<open>Lines\<close>

definition newline :: char where "newline = CHR 0x0A"

abbreviation (input) line :: "string \<Rightarrow> string" where
  "line s \<equiv> s @ [newline]"

text \<open>A number is over where its digits end.\<close>

definition is_digit :: "char \<Rightarrow> bool" where
  "is_digit c \<longleftrightarrow> (48 :: nat) \<le> of_char c \<and> of_char c \<le> (57 :: nat)"

lemma decimal_is_digit: "list_all is_digit (decimal n)"
  using decimal_digits by (fastforce simp: list_all_iff is_digit_def)

lemma digits_prefix:
  "list_all is_digit s \<Longrightarrow> takeWhile is_digit (s @ t) = s @ takeWhile is_digit t
   \<and> dropWhile is_digit (s @ t) = dropWhile is_digit t"
  by (induction s) auto

lemma decimal_append_inj:
  assumes "decimal m @ s = decimal n @ t"
    and "s = [] \<or> \<not> is_digit (hd s)" "t = [] \<or> \<not> is_digit (hd t)"
  shows "m = n \<and> s = t"
proof -
  have u: "takeWhile is_digit (decimal k @ r) = decimal k \<and> dropWhile is_digit (decimal k @ r) = r"
    if "r = [] \<or> \<not> is_digit (hd r)" for k r
    using that digits_prefix [OF decimal_is_digit, of k r] by (cases r) auto
  then have "decimal m = decimal n" "s = t" using assms by metis+
  then show ?thesis using digits_value_decimal by metis
qed

end
