(* ===== verification/Trace_Dump.thy ===== *)
theory Trace_Dump
  imports Binder_Codes Formatting
begin

text \<open>
  The tracing functions of \<open>binder/binder.c\<close>, which are compiled in when \<open>TRACE\<close> is 1: \<open>hexdump\<close>,
  \<open>binder_dump_txn\<close> and \<open>cmd_name\<close>. What is printed is a string.
\<close>

section \<open>hexdump\<close>

definition dump_char :: "u8 \<Rightarrow> char" where
  "dump_char b = (if b < 32 \<or> 126 < b then CHR ''.'' else char_of (unat b))"

primrec hexdump_loop :: "nat \<Rightarrow> u8 list \<Rightarrow> string" where
  "hexdump_loop count [] = []"
| "hexdump_loop count (b # bs) =
     (if count mod 16 = 0 then padded CHR ''0'' 4 (decimal count) @ '':'' else [])
   @ '' '' @ hex 2 (unat b) @ '' '' @ [dump_char b]
   @ (if count mod 16 = 15 then [newline] else [])
   @ hexdump_loop (Suc count) bs"

definition hexdump :: "u8 list \<Rightarrow> string" where
  "hexdump bs = hexdump_loop 0 bs @ (if length bs mod 16 \<noteq> 0 then [newline] else [])"

section \<open>cmd\_name\<close>

definition cmd_name :: "u32 \<Rightarrow> string" where
  "cmd_name cmd =
     (if cmd = BR_NOOP then ''BR_NOOP''
      else if cmd = BR_TRANSACTION_COMPLETE then ''BR_TRANSACTION_COMPLETE''
      else if cmd = BR_INCREFS then ''BR_INCREFS''
      else if cmd = BR_ACQUIRE then ''BR_ACQUIRE''
      else if cmd = BR_RELEASE then ''BR_RELEASE''
      else if cmd = BR_DECREFS then ''BR_DECREFS''
      else if cmd = BR_TRANSACTION then ''BR_TRANSACTION''
      else if cmd = BR_REPLY then ''BR_REPLY''
      else if cmd = BR_FAILED_REPLY then ''BR_FAILED_REPLY''
      else if cmd = BR_DEAD_REPLY then ''BR_DEAD_REPLY''
      else if cmd = BR_DEAD_BINDER then ''BR_DEAD_BINDER''
      else ''???'')"

text \<open>
  The parser of \<open>binder_parse\<close> has one case more than \<open>cmd_name\<close> has names: a command it handles is named
  unless it is \<open>BR_SPAWN_LOOPER\<close>, a word it does not handle is not, and no two commands share a name.
\<close>

lemma cmd_name_known: "cmd_name c \<noteq> ''???'' \<longleftrightarrow> c \<in> set parsed_codes - {BR_SPAWN_LOOPER}"
  by (auto simp: cmd_name_def parsed_codes_def proto_defs)

lemma cmd_name_inj: "inj_on cmd_name (set parsed_codes)"
  by (auto simp: inj_on_def parsed_codes_def cmd_name_def proto_defs)

section \<open>binder\_dump\_txn\<close>

text \<open>The loop over the offsets: \<open>count\<close> objects from \<open>offs\<close> on.\<close>

primrec dump_objs :: "mem \<Rightarrow> u32 \<Rightarrow> nat \<Rightarrow> u32 \<Rightarrow> string" where
  "dump_objs m buffer 0 offs = []"
| "dump_objs m buffer (Suc count) offs =
     (let obj = load_obj m (buffer + load32 m offs) in
      ''  - type '' @ hex 8 (unat (o_type obj)) @ ''  flags '' @ hex 8 (unat (o_flags obj))
    @ ''  ptr '' @ hex 16 (unat (o_binder obj)) @ ''  cookie '' @ hex 16 (unat (o_cookie obj)) @ [newline]
    @ dump_objs m buffer count (offs + 4))"

definition binder_dump_txn :: "mem \<Rightarrow> binder_transaction_data \<Rightarrow> string" where
  "binder_dump_txn m txn =
     ''  target '' @ hex 16 (unat (t_target txn)) @ ''  cookie '' @ hex 16 (unat (t_cookie txn))
   @ ''  code '' @ hex 8 (unat (t_code txn)) @ ''  flags '' @ hex 8 (unat (t_flags txn)) @ [newline]
   @ ''  pid '' @ padded CHR '' '' 8 (signed_decimal (sint (t_sender_pid txn)))
   @ ''  uid '' @ padded CHR '' '' 8 (signed_decimal (sint (t_sender_euid txn)))
   @ ''  data '' @ decimal (unat (t_data_size txn)) @ ''  offs '' @ decimal (unat (t_offsets_size txn)) @ [newline]
   @ hexdump (load_bytes m (t_buffer txn) (unat (t_data_size txn)))
   @ dump_objs m (t_buffer txn) (unat (t_offsets_size txn) div 4) (t_offsets txn)"

section \<open>Reading a dump\<close>

text \<open>A blank starts a byte: two digits, a blank and the character. Everything else is skipped.\<close>

fun undump :: "string \<Rightarrow> u8 list" where
  "undump (a # b # c # d # e # rest) =
     (if a = CHR '' '' then of_nat (16 * hex_value b + hex_value c) # undump rest
      else undump (b # c # d # e # rest))"
| "undump _ = []"

lemma undump_skip: "a \<noteq> CHR '' '' \<Longrightarrow> undump (a # s) = undump s"
  by (cases s rule: undump.cases) auto

lemma undump_skips: "CHR '' '' \<notin> set t \<Longrightarrow> undump (t @ s) = undump s"
  by (induction t) (auto simp: undump_skip)

lemma undump_byte: "undump ('' '' @ hex 2 (unat b) @ '' '' @ [c] @ s) = b # undump s"
proof -
  have "unat b < 256" using unsigned_less [of b, where 'a = nat] by simp
  then have "hex_value (hex_digit (unat b div 16)) = unat b div 16" by (intro hex_value_digit) simp
  moreover have "hex_value (hex_digit (unat b mod 16)) = unat b mod 16" by (simp add: hex_value_digit)
  moreover have "hex 2 (unat b) = [hex_digit (unat b div 16), hex_digit (unat b mod 16)]"
    using \<open>unat b < 256\<close> by (simp add: numeral_2_eq_2)
  ultimately show ?thesis by (simp del: of_nat_add of_nat_mult)
qed

text \<open>The digits are above every separator of the dump.\<close>

lemma decimal_above: "c \<in> set (decimal n) \<Longrightarrow> 48 \<le> (of_char c :: nat)"
  using decimal_digits [of c n] by auto

lemma label_above: "c \<in> set (padded CHR ''0'' 4 (decimal n) @ '':'') \<Longrightarrow> 48 \<le> (of_char c :: nat)"
  by (auto simp: padded_def dest: decimal_above)

lemma hex_above: "c \<in> set (hex k n) \<Longrightarrow> 48 \<le> (of_char c :: nat)"
  by (induction k arbitrary: n) (auto simp: hex_digit_def)

lemma dump_char_above: "32 \<le> (of_char (dump_char b) :: nat)"
  by (auto simp: dump_char_def word_less_nat_alt)

lemma label_blank_free: "CHR '' '' \<notin> set (padded CHR ''0'' 4 (decimal n) @ '':'')"
  using label_above [of "CHR '' ''" n] by auto

lemma undump_loop: "undump (hexdump_loop n bs @ s) = bs @ undump s"
proof (induction bs arbitrary: n)
  case (Cons b bs)
  let ?label = "if n mod 16 = 0 then padded CHR ''0'' 4 (decimal n) @ '':'' else []"
  let ?nl = "if n mod 16 = 15 then [newline] else []"
  have "undump (hexdump_loop n (b # bs) @ s) =
      undump (?label @ '' '' @ hex 2 (unat b) @ '' '' @ [dump_char b] @ ?nl @ hexdump_loop (Suc n) bs @ s)"
    by simp
  also have "\<dots> = undump ('' '' @ hex 2 (unat b) @ '' '' @ [dump_char b] @ ?nl @ hexdump_loop (Suc n) bs @ s)"
    using label_blank_free by (intro undump_skips) simp
  also have "\<dots> = b # undump (?nl @ hexdump_loop (Suc n) bs @ s)" by (rule undump_byte)
  also have "undump (?nl @ hexdump_loop (Suc n) bs @ s) = undump (hexdump_loop (Suc n) bs @ s)"
    by (intro undump_skips) (simp add: newline_def)
  finally show ?case using Cons by simp
qed simp

section \<open>The lines of a dump\<close>

lemma above_newline: "32 \<le> (of_char c :: nat) \<Longrightarrow> c \<noteq> newline"
  by (auto simp: newline_def)

lemma no_newline: "(\<And>c. c \<in> set s \<Longrightarrow> 48 \<le> (of_char c :: nat)) \<Longrightarrow> count_list s newline = 0"
  by (induction s) (fastforce dest: above_newline [OF order_trans, rotated])+

lemma line_end: "n mod 16 = 15 \<Longrightarrow> Suc n div 16 = Suc (n div 16)"
  by (simp add: div_Suc mod_Suc)

lemma line_inside: "n mod 16 \<noteq> 15 \<Longrightarrow> Suc n div 16 = n div 16"
  by (simp add: div_Suc mod_Suc)

lemma loop_lines: "count_list (hexdump_loop n bs) newline = (n + length bs) div 16 - n div 16"
proof (induction bs arbitrary: n)
  case (Cons b bs)
  have "count_list (hexdump_loop n (b # bs)) newline =
      (if n mod 16 = 15 then 1 else 0) + count_list (hexdump_loop (Suc n) bs) newline"
    using no_newline [OF label_above, of "padded CHR ''0'' 4 (decimal n) @ '':''"]
      no_newline [OF hex_above, of "hex 2 (unat b)"]
      above_newline [OF dump_char_above, of b] above_newline [of "CHR '' ''"] by auto
  also have "\<dots> = (n + length (b # bs)) div 16 - n div 16"
  proof (cases "n mod 16 = 15")
    case True
    then have d: "Suc n div 16 = Suc (n div 16)" by (rule line_end)
    moreover have "Suc n div 16 \<le> (n + length (b # bs)) div 16" by (intro div_le_mono) simp
    ultimately show ?thesis using True unfolding Cons d by simp
  next
    case False
    then show ?thesis unfolding Cons using line_inside [OF False] by simp
  qed
  finally show ?case .
qed simp

lemma loop_last: "bs \<noteq> [] \<Longrightarrow> (n + length bs) mod 16 = 0 \<Longrightarrow> last (hexdump_loop n bs) = newline"
proof (induction bs arbitrary: n)
  case (Cons b bs)
  show ?case
  proof (cases "bs = []")
    case True
    then have "n mod 16 = 15" using Cons.prems(2) by (auto simp: mod_Suc split: if_splits)
    then show ?thesis using True by simp
  next
    case False
    then show ?thesis using Cons by (cases bs) simp_all
  qed
qed simp

lemma lines_rounded: "(n :: nat) div 16 + (if 0 < n mod 16 then 1 else 0) = (n + 15) div 16"
proof -
  have "(n + 15) div 16 = n div 16 + (n mod 16 + 15) div 16"
    by (metis div_mult_self4 mult_div_mod_eq add.assoc zero_neq_numeral)
  moreover have "(n mod 16 + 15) div 16 = (if 0 < n mod 16 then 1 else 0)"
    using mod_less_divisor [of 16 n] by (auto intro!: div_nat_eqI)
  ultimately show ?thesis by simp
qed

text \<open>
  A dump loses nothing: the bytes can be read back from what \<open>hexdump\<close> prints, whatever characters
  it shows beside them. It has a line for every sixteen bytes, the last one possibly shorter, and ends
  with a line break unless it is empty.
\<close>

theorem hexdump_roundtrip:
  "undump (hexdump bs) = bs
   \<and> count_list (hexdump bs) newline = (length bs + 15) div 16
   \<and> (hexdump bs = [] \<longleftrightarrow> bs = []) \<and> (hexdump bs = [] \<or> last (hexdump bs) = newline)"
proof (intro conjI)
  show r: "undump (hexdump bs) = bs" by (simp add: hexdump_def undump_loop)
  show "count_list (hexdump bs) newline = (length bs + 15) div 16"
    using lines_rounded [of "length bs"] by (auto simp: hexdump_def loop_lines split: if_splits)
  show e: "hexdump bs = [] \<longleftrightarrow> bs = []" using r by (auto simp: hexdump_def)
  show "hexdump bs = [] \<or> last (hexdump bs) = newline"
    using loop_last [of bs 0] by (cases "bs = []") (auto simp: hexdump_def)
qed

end
