(* ===== verification/Capability.thy ===== *)
theory Capability
  imports Prelude
begin

text \<open>
  The capability numbers of \<open>binder/include/private/android_filesystem_capability.h\<close>, the structures
  that hold sets of them, and the macros that find a capability in an array of 32-bit words.
\<close>

named_theorems cap_defs \<open>the numbers of the capability header\<close>

section \<open>Versions and structures\<close>

definition LINUX_CAPABILITY_VERSION_1 :: u32 where [cap_defs]: "LINUX_CAPABILITY_VERSION_1 = 0x19980330"
definition LINUX_CAPABILITY_U32S_1 :: nat where [cap_defs]: "LINUX_CAPABILITY_U32S_1 = 1"
definition LINUX_CAPABILITY_VERSION_2 :: u32 where [cap_defs]: "LINUX_CAPABILITY_VERSION_2 = 0x20071026"
definition LINUX_CAPABILITY_U32S_2 :: nat where [cap_defs]: "LINUX_CAPABILITY_U32S_2 = 2"
definition LINUX_CAPABILITY_VERSION_3 :: u32 where [cap_defs]: "LINUX_CAPABILITY_VERSION_3 = 0x20080522"
definition LINUX_CAPABILITY_U32S_3 :: nat where [cap_defs]: "LINUX_CAPABILITY_U32S_3 = 2"

record user_cap_header_struct =
  ch_version :: u32
  ch_pid :: u32

record user_cap_data_struct =
  cd_effective :: u32
  cd_permitted :: u32
  cd_inheritable :: u32

definition VFS_CAP_REVISION_MASK :: u32 where [cap_defs]: "VFS_CAP_REVISION_MASK = 0xFF000000"
definition VFS_CAP_REVISION_SHIFT :: nat where [cap_defs]: "VFS_CAP_REVISION_SHIFT = 24"
definition VFS_CAP_FLAGS_MASK :: u32 where [cap_defs]: "VFS_CAP_FLAGS_MASK = NOT VFS_CAP_REVISION_MASK"
definition VFS_CAP_FLAGS_EFFECTIVE :: u32 where [cap_defs]: "VFS_CAP_FLAGS_EFFECTIVE = 0x000001"
definition VFS_CAP_REVISION_1 :: u32 where [cap_defs]: "VFS_CAP_REVISION_1 = 0x01000000"
definition VFS_CAP_U32_1 :: nat where [cap_defs]: "VFS_CAP_U32_1 = 1"
definition XATTR_CAPS_SZ_1 :: nat where [cap_defs]: "XATTR_CAPS_SZ_1 = 4 * (1 + 2 * VFS_CAP_U32_1)"
definition VFS_CAP_REVISION_2 :: u32 where [cap_defs]: "VFS_CAP_REVISION_2 = 0x02000000"
definition VFS_CAP_U32_2 :: nat where [cap_defs]: "VFS_CAP_U32_2 = 2"
definition XATTR_CAPS_SZ_2 :: nat where [cap_defs]: "XATTR_CAPS_SZ_2 = 4 * (1 + 2 * VFS_CAP_U32_2)"
definition XATTR_CAPS_SZ :: nat where [cap_defs]: "XATTR_CAPS_SZ = XATTR_CAPS_SZ_2"
definition VFS_CAP_U32 :: nat where [cap_defs]: "VFS_CAP_U32 = VFS_CAP_U32_2"
definition VFS_CAP_REVISION :: u32 where [cap_defs]: "VFS_CAP_REVISION = VFS_CAP_REVISION_2"

text \<open>The words of the array are pairs of the permitted and the inheritable capabilities.\<close>

record vfs_cap_data =
  magic_etc :: u32
  cap_data :: "(u32 \<times> u32) list"

definition LINUX_CAPABILITY_VERSION :: u32 where [cap_defs]: "LINUX_CAPABILITY_VERSION = LINUX_CAPABILITY_VERSION_1"
definition LINUX_CAPABILITY_U32S :: nat where [cap_defs]: "LINUX_CAPABILITY_U32S = LINUX_CAPABILITY_U32S_1"

section \<open>Capabilities\<close>

definition CAP_CHOWN :: nat where [cap_defs]: "CAP_CHOWN = 0"
definition CAP_DAC_OVERRIDE :: nat where [cap_defs]: "CAP_DAC_OVERRIDE = 1"
definition CAP_DAC_READ_SEARCH :: nat where [cap_defs]: "CAP_DAC_READ_SEARCH = 2"
definition CAP_FOWNER :: nat where [cap_defs]: "CAP_FOWNER = 3"
definition CAP_FSETID :: nat where [cap_defs]: "CAP_FSETID = 4"
definition CAP_KILL :: nat where [cap_defs]: "CAP_KILL = 5"
definition CAP_SETGID :: nat where [cap_defs]: "CAP_SETGID = 6"
definition CAP_SETUID :: nat where [cap_defs]: "CAP_SETUID = 7"
definition CAP_SETPCAP :: nat where [cap_defs]: "CAP_SETPCAP = 8"
definition CAP_LINUX_IMMUTABLE :: nat where [cap_defs]: "CAP_LINUX_IMMUTABLE = 9"
definition CAP_NET_BIND_SERVICE :: nat where [cap_defs]: "CAP_NET_BIND_SERVICE = 10"
definition CAP_NET_BROADCAST :: nat where [cap_defs]: "CAP_NET_BROADCAST = 11"
definition CAP_NET_ADMIN :: nat where [cap_defs]: "CAP_NET_ADMIN = 12"
definition CAP_NET_RAW :: nat where [cap_defs]: "CAP_NET_RAW = 13"
definition CAP_IPC_LOCK :: nat where [cap_defs]: "CAP_IPC_LOCK = 14"
definition CAP_IPC_OWNER :: nat where [cap_defs]: "CAP_IPC_OWNER = 15"
definition CAP_SYS_MODULE :: nat where [cap_defs]: "CAP_SYS_MODULE = 16"
definition CAP_SYS_RAWIO :: nat where [cap_defs]: "CAP_SYS_RAWIO = 17"
definition CAP_SYS_CHROOT :: nat where [cap_defs]: "CAP_SYS_CHROOT = 18"
definition CAP_SYS_PTRACE :: nat where [cap_defs]: "CAP_SYS_PTRACE = 19"
definition CAP_SYS_PACCT :: nat where [cap_defs]: "CAP_SYS_PACCT = 20"
definition CAP_SYS_ADMIN :: nat where [cap_defs]: "CAP_SYS_ADMIN = 21"
definition CAP_SYS_BOOT :: nat where [cap_defs]: "CAP_SYS_BOOT = 22"
definition CAP_SYS_NICE :: nat where [cap_defs]: "CAP_SYS_NICE = 23"
definition CAP_SYS_RESOURCE :: nat where [cap_defs]: "CAP_SYS_RESOURCE = 24"
definition CAP_SYS_TIME :: nat where [cap_defs]: "CAP_SYS_TIME = 25"
definition CAP_SYS_TTY_CONFIG :: nat where [cap_defs]: "CAP_SYS_TTY_CONFIG = 26"
definition CAP_MKNOD :: nat where [cap_defs]: "CAP_MKNOD = 27"
definition CAP_LEASE :: nat where [cap_defs]: "CAP_LEASE = 28"
definition CAP_AUDIT_WRITE :: nat where [cap_defs]: "CAP_AUDIT_WRITE = 29"
definition CAP_AUDIT_CONTROL :: nat where [cap_defs]: "CAP_AUDIT_CONTROL = 30"
definition CAP_SETFCAP :: nat where [cap_defs]: "CAP_SETFCAP = 31"
definition CAP_MAC_OVERRIDE :: nat where [cap_defs]: "CAP_MAC_OVERRIDE = 32"
definition CAP_MAC_ADMIN :: nat where [cap_defs]: "CAP_MAC_ADMIN = 33"
definition CAP_SYSLOG :: nat where [cap_defs]: "CAP_SYSLOG = 34"
definition CAP_WAKE_ALARM :: nat where [cap_defs]: "CAP_WAKE_ALARM = 35"
definition CAP_LAST_CAP :: nat where [cap_defs]: "CAP_LAST_CAP = CAP_WAKE_ALARM"

text \<open>The macros are applied to an \<open>int\<close>. The mask is the \<open>int\<close> that \<open>1 << n\<close> gives on the target.\<close>

definition cap_valid :: "int \<Rightarrow> bool" where
  "cap_valid x = (0 \<le> x \<and> x \<le> int CAP_LAST_CAP)"

definition CAP_TO_INDEX :: "int \<Rightarrow> int" where
  "CAP_TO_INDEX x = drop_bit 5 x"

definition CAP_TO_MASK :: "int \<Rightarrow> u32" where
  "CAP_TO_MASK x = push_bit (nat (x AND 31)) 1"

section \<open>What the numbers and macros give\<close>

definition capabilities :: "nat list" where
  "capabilities =
    [CAP_CHOWN, CAP_DAC_OVERRIDE, CAP_DAC_READ_SEARCH, CAP_FOWNER, CAP_FSETID, CAP_KILL,
     CAP_SETGID, CAP_SETUID, CAP_SETPCAP, CAP_LINUX_IMMUTABLE, CAP_NET_BIND_SERVICE, CAP_NET_BROADCAST,
     CAP_NET_ADMIN, CAP_NET_RAW, CAP_IPC_LOCK, CAP_IPC_OWNER, CAP_SYS_MODULE, CAP_SYS_RAWIO,
     CAP_SYS_CHROOT, CAP_SYS_PTRACE, CAP_SYS_PACCT, CAP_SYS_ADMIN, CAP_SYS_BOOT, CAP_SYS_NICE,
     CAP_SYS_RESOURCE, CAP_SYS_TIME, CAP_SYS_TTY_CONFIG, CAP_MKNOD, CAP_LEASE, CAP_AUDIT_WRITE,
     CAP_AUDIT_CONTROL, CAP_SETFCAP, CAP_MAC_OVERRIDE, CAP_MAC_ADMIN, CAP_SYSLOG, CAP_WAKE_ALARM]"

text \<open>The names number the valid capabilities without a gap.\<close>

lemma capabilities_upt: "capabilities = [0..<Suc CAP_LAST_CAP]"
  unfolding capabilities_def cap_defs by (simp add: upt_rec)

lemma cap_valid_named: "cap_valid x \<longleftrightarrow> x \<in> int ` set capabilities"
  unfolding capabilities_upt cap_valid_def by (auto simp: image_iff intro!: bexI [of _ "nat x"])

lemma cap_validE:
  assumes "cap_valid x"
  obtains n where "x = int n" "n \<le> CAP_LAST_CAP"
  using assms zero_le_imp_eq_int by (auto simp: cap_valid_def)

lemma cap_index: "CAP_TO_INDEX x = x div 32"
  by (simp add: CAP_TO_INDEX_def drop_bit_eq_div)

lemma and_31: "(x :: int) AND 31 = x mod 32"
  using take_bit_eq_mask [of 5 x] by (simp add: take_bit_eq_mod mask_eq_exp_minus_1)

lemma bit_cap_mask: "bit (CAP_TO_MASK x) n \<longleftrightarrow> n = nat (x mod 32)"
proof -
  have "nat (x mod 32) < 32" by (simp add: nat_less_iff)
  then show ?thesis by (auto simp: CAP_TO_MASK_def and_31 bit_simps)
qed

text \<open>The word of a 64-bit set, as \<open>fs_config\<close> delivers it, that the header's index selects.\<close>

definition cap_word :: "u64 \<Rightarrow> int \<Rightarrow> u32" where
  "cap_word c i = ucast (drop_bit (32 * nat i) c)"

lemma cap_word_mask:
  assumes "cap_valid x"
  shows "cap_word c (CAP_TO_INDEX x) AND CAP_TO_MASK x \<noteq> 0 \<longleftrightarrow> bit c (nat x)"
proof -
  obtain n where n: "x = int n" using assms by (rule cap_validE)
  have i: "nat (x mod 32) = n mod 32" "nat (x div 32) = n div 32" by (simp_all add: n nat_mod_as_int nat_div_as_int)
  have "cap_word c (CAP_TO_INDEX x) AND CAP_TO_MASK x \<noteq> 0 \<longleftrightarrow> bit (cap_word c (CAP_TO_INDEX x)) (n mod 32)"
    unfolding bit_eq_iff [of _ 0] by (simp add: bit_and_iff bit_cap_mask i)
  also have "\<dots> \<longleftrightarrow> bit c (32 * (n div 32) + n mod 32)"
    by (simp add: cap_word_def cap_index bit_ucast_iff bit_drop_bit_eq i)
  also have "32 * (n div 32) + n mod 32 = nat x" by (simp add: n)
  finally show ?thesis .
qed

end
