(* ===== verification/FS_Config.thy ===== *)
theory FS_Config
  imports Capability Binder_IO
begin

text \<open>
  The file system configuration of \<open>binder/include/private/android_filesystem_config.h\<close>: the
  platform's user and group ids, the rule tables for directories and files, and the inline
  function \<open>fs_config\<close> that looks a path up in them.
\<close>

section \<open>Ids\<close>

definition AID_ROOT :: u32 where [fs_ids]: "AID_ROOT = 0"
definition AID_SYSTEM :: u32 where [fs_ids]: "AID_SYSTEM = 1000"
definition AID_RADIO :: u32 where [fs_ids]: "AID_RADIO = 1001"
definition AID_BLUETOOTH :: u32 where [fs_ids]: "AID_BLUETOOTH = 1002"
definition AID_GRAPHICS :: u32 where [fs_ids]: "AID_GRAPHICS = 1003"
definition AID_INPUT :: u32 where [fs_ids]: "AID_INPUT = 1004"
definition AID_AUDIO :: u32 where [fs_ids]: "AID_AUDIO = 1005"
definition AID_CAMERA :: u32 where [fs_ids]: "AID_CAMERA = 1006"
definition AID_LOG :: u32 where [fs_ids]: "AID_LOG = 1007"
definition AID_COMPASS :: u32 where [fs_ids]: "AID_COMPASS = 1008"
definition AID_MOUNT :: u32 where [fs_ids]: "AID_MOUNT = 1009"
definition AID_WIFI :: u32 where [fs_ids]: "AID_WIFI = 1010"
definition AID_ADB :: u32 where [fs_ids]: "AID_ADB = 1011"
definition AID_INSTALL :: u32 where [fs_ids]: "AID_INSTALL = 1012"
definition AID_MEDIA :: u32 where [fs_ids]: "AID_MEDIA = 1013"
definition AID_DHCP :: u32 where [fs_ids]: "AID_DHCP = 1014"
definition AID_SDCARD_RW :: u32 where [fs_ids]: "AID_SDCARD_RW = 1015"
definition AID_VPN :: u32 where [fs_ids]: "AID_VPN = 1016"
definition AID_KEYSTORE :: u32 where [fs_ids]: "AID_KEYSTORE = 1017"
definition AID_USB :: u32 where [fs_ids]: "AID_USB = 1018"
definition AID_DRM :: u32 where [fs_ids]: "AID_DRM = 1019"
definition AID_MDNSR :: u32 where [fs_ids]: "AID_MDNSR = 1020"
definition AID_GPS :: u32 where [fs_ids]: "AID_GPS = 1021"
definition AID_UNUSED1 :: u32 where [fs_ids]: "AID_UNUSED1 = 1022"
definition AID_MEDIA_RW :: u32 where [fs_ids]: "AID_MEDIA_RW = 1023"
definition AID_MTP :: u32 where [fs_ids]: "AID_MTP = 1024"
definition AID_UNUSED2 :: u32 where [fs_ids]: "AID_UNUSED2 = 1025"
definition AID_DRMRPC :: u32 where [fs_ids]: "AID_DRMRPC = 1026"
definition AID_NFC :: u32 where [fs_ids]: "AID_NFC = 1027"
definition AID_SDCARD_R :: u32 where [fs_ids]: "AID_SDCARD_R = 1028"
definition AID_CLAT :: u32 where [fs_ids]: "AID_CLAT = 1029"
definition AID_LOOP_RADIO :: u32 where [fs_ids]: "AID_LOOP_RADIO = 1030"
definition AID_MEDIA_DRM :: u32 where [fs_ids]: "AID_MEDIA_DRM = 1031"
definition AID_PACKAGE_INFO :: u32 where [fs_ids]: "AID_PACKAGE_INFO = 1032"
definition AID_SDCARD_PICS :: u32 where [fs_ids]: "AID_SDCARD_PICS = 1033"
definition AID_SDCARD_AV :: u32 where [fs_ids]: "AID_SDCARD_AV = 1034"
definition AID_SDCARD_ALL :: u32 where [fs_ids]: "AID_SDCARD_ALL = 1035"
definition AID_LOGD :: u32 where [fs_ids]: "AID_LOGD = 1036"
definition AID_SHARED_RELRO :: u32 where [fs_ids]: "AID_SHARED_RELRO = 1037"
definition AID_SHELL :: u32 where [fs_ids]: "AID_SHELL = 2000"
definition AID_CACHE :: u32 where [fs_ids]: "AID_CACHE = 2001"
definition AID_DIAG :: u32 where [fs_ids]: "AID_DIAG = 2002"
definition AID_NET_BT_ADMIN :: u32 where [fs_ids]: "AID_NET_BT_ADMIN = 3001"
definition AID_NET_BT :: u32 where [fs_ids]: "AID_NET_BT = 3002"
definition AID_INET :: u32 where [fs_ids]: "AID_INET = 3003"
definition AID_NET_RAW :: u32 where [fs_ids]: "AID_NET_RAW = 3004"
definition AID_NET_ADMIN :: u32 where [fs_ids]: "AID_NET_ADMIN = 3005"
definition AID_NET_BW_STATS :: u32 where [fs_ids]: "AID_NET_BW_STATS = 3006"
definition AID_NET_BW_ACCT :: u32 where [fs_ids]: "AID_NET_BW_ACCT = 3007"
definition AID_NET_BT_STACK :: u32 where [fs_ids]: "AID_NET_BT_STACK = 3008"
definition AID_EVERYBODY :: u32 where [fs_ids]: "AID_EVERYBODY = 9997"
definition AID_MISC :: u32 where [fs_ids]: "AID_MISC = 9998"
definition AID_NOBODY :: u32 where [fs_ids]: "AID_NOBODY = 9999"
definition AID_APP :: u32 where [fs_ids]: "AID_APP = 10000"
definition AID_SHARED_GID_START :: u32 where [fs_ids]: "AID_SHARED_GID_START = 50000"
definition AID_SHARED_GID_END :: u32 where [fs_ids]: "AID_SHARED_GID_END = 59999"

definition android_ids :: "(string \<times> u32) list" where
  "android_ids =
    [(''root'', AID_ROOT),
     (''system'', AID_SYSTEM),
     (''radio'', AID_RADIO),
     (''bluetooth'', AID_BLUETOOTH),
     (''graphics'', AID_GRAPHICS),
     (''input'', AID_INPUT),
     (''audio'', AID_AUDIO),
     (''camera'', AID_CAMERA),
     (''log'', AID_LOG),
     (''compass'', AID_COMPASS),
     (''mount'', AID_MOUNT),
     (''wifi'', AID_WIFI),
     (''adb'', AID_ADB),
     (''install'', AID_INSTALL),
     (''media'', AID_MEDIA),
     (''dhcp'', AID_DHCP),
     (''sdcard_rw'', AID_SDCARD_RW),
     (''vpn'', AID_VPN),
     (''keystore'', AID_KEYSTORE),
     (''usb'', AID_USB),
     (''drm'', AID_DRM),
     (''mdnsr'', AID_MDNSR),
     (''gps'', AID_GPS),
     (''media_rw'', AID_MEDIA_RW),
     (''mtp'', AID_MTP),
     (''drmrpc'', AID_DRMRPC),
     (''nfc'', AID_NFC),
     (''sdcard_r'', AID_SDCARD_R),
     (''clat'', AID_CLAT),
     (''loop_radio'', AID_LOOP_RADIO),
     (''mediadrm'', AID_MEDIA_DRM),
     (''package_info'', AID_PACKAGE_INFO),
     (''sdcard_pics'', AID_SDCARD_PICS),
     (''sdcard_av'', AID_SDCARD_AV),
     (''sdcard_all'', AID_SDCARD_ALL),
     (''logd'', AID_LOGD),
     (''shared_relro'', AID_SHARED_RELRO),
     (''shell'', AID_SHELL),
     (''cache'', AID_CACHE),
     (''diag'', AID_DIAG),
     (''net_bt_admin'', AID_NET_BT_ADMIN),
     (''net_bt'', AID_NET_BT),
     (''inet'', AID_INET),
     (''net_raw'', AID_NET_RAW),
     (''net_admin'', AID_NET_ADMIN),
     (''net_bw_stats'', AID_NET_BW_STATS),
     (''net_bw_acct'', AID_NET_BW_ACCT),
     (''net_bt_stack'', AID_NET_BT_STACK),
     (''everybody'', AID_EVERYBODY),
     (''misc'', AID_MISC),
     (''nobody'', AID_NOBODY)]"

definition android_id_count :: nat where
  "android_id_count = length android_ids"

section \<open>Rules\<close>

record fs_path_config =
  pc_mode :: u32
  pc_uid :: u32
  pc_gid :: u32
  pc_capabilities :: u64
  pc_prefix :: "string option"

abbreviation (input) rule :: "u32 \<Rightarrow> u32 \<Rightarrow> u32 \<Rightarrow> u64 \<Rightarrow> string option \<Rightarrow> fs_path_config" where
  "rule mode uid gid caps pre \<equiv>
     \<lparr>pc_mode = mode, pc_uid = uid, pc_gid = gid, pc_capabilities = caps, pc_prefix = pre\<rparr>"

text \<open>Modes are written in octal in the source.\<close>

definition android_dirs :: "fs_path_config list" where
  "android_dirs =
    [rule 504 AID_SYSTEM AID_CACHE 0 (Some ''cache''),
     rule 505 AID_SYSTEM AID_SYSTEM 0 (Some ''data/app''),
     rule 505 AID_SYSTEM AID_SYSTEM 0 (Some ''data/app-private''),
     rule 505 AID_ROOT AID_ROOT 0 (Some ''data/dalvik-cache''),
     rule 505 AID_SYSTEM AID_SYSTEM 0 (Some ''data/data''),
     rule 505 AID_SHELL AID_SHELL 0 (Some ''data/local/tmp''),
     rule 505 AID_SHELL AID_SHELL 0 (Some ''data/local''),
     rule 1017 AID_SYSTEM AID_MISC 0 (Some ''data/misc''),
     rule 504 AID_DHCP AID_DHCP 0 (Some ''data/misc/dhcp''),
     rule 505 AID_SHARED_RELRO AID_SHARED_RELRO 0 (Some ''data/misc/shared_relro''),
     rule 509 AID_MEDIA_RW AID_MEDIA_RW 0 (Some ''data/media''),
     rule 509 AID_MEDIA_RW AID_MEDIA_RW 0 (Some ''data/media/Music''),
     rule 505 AID_SYSTEM AID_SYSTEM 0 (Some ''data''),
     rule 488 AID_ROOT AID_SHELL 0 (Some ''sbin''),
     rule 493 AID_ROOT AID_SHELL 0 (Some ''system/bin''),
     rule 493 AID_ROOT AID_SHELL 0 (Some ''system/vendor''),
     rule 493 AID_ROOT AID_SHELL 0 (Some ''system/xbin''),
     rule 493 AID_ROOT AID_ROOT 0 (Some ''system/etc/ppp''),
     rule 493 AID_ROOT AID_SHELL 0 (Some ''vendor''),
     rule 511 AID_ROOT AID_ROOT 0 (Some ''sdcard''),
     rule 493 AID_ROOT AID_ROOT 0 None]"

definition android_files :: "fs_path_config list" where
  "android_files =
    [rule 288 AID_ROOT AID_SHELL 0 (Some ''system/etc/init.goldfish.rc''),
     rule 360 AID_ROOT AID_SHELL 0 (Some ''system/etc/init.goldfish.sh''),
     rule 360 AID_ROOT AID_SHELL 0 (Some ''system/etc/init.tiny4412.sh''),
     rule 288 AID_ROOT AID_SHELL 0 (Some ''system/etc/init.trout.rc''),
     rule 360 AID_ROOT AID_SHELL 0 (Some ''system/etc/init.ril''),
     rule 360 AID_ROOT AID_SHELL 0 (Some ''system/etc/init.testmenu''),
     rule 360 AID_DHCP AID_SHELL 0 (Some ''system/etc/dhcpcd/dhcpcd-run-hooks''),
     rule 292 AID_RADIO AID_AUDIO 0 (Some ''system/etc/AudioPara4.csv''),
     rule 365 AID_ROOT AID_ROOT 0 (Some ''system/etc/ppp/*''),
     rule 365 AID_ROOT AID_ROOT 0 (Some ''system/etc/rc.*''),
     rule 420 AID_SYSTEM AID_SYSTEM 0 (Some ''data/app/*''),
     rule 420 AID_MEDIA_RW AID_MEDIA_RW 0 (Some ''data/media/*''),
     rule 420 AID_SYSTEM AID_SYSTEM 0 (Some ''data/app-private/*''),
     rule 420 AID_APP AID_APP 0 (Some ''data/data/*''),
     rule 493 AID_ROOT AID_ROOT 0 (Some ''system/bin/ping''),
     rule 1512 AID_ROOT AID_INET 0 (Some ''system/bin/netcfg''),
     rule 2536 AID_ROOT AID_SHELL 0 (Some ''system/xbin/su''),
     rule 3565 AID_ROOT AID_ROOT 0 (Some ''system/xbin/librank''),
     rule 3565 AID_ROOT AID_ROOT 0 (Some ''system/xbin/procrank''),
     rule 3565 AID_ROOT AID_ROOT 0 (Some ''system/xbin/procmem''),
     rule 3565 AID_ROOT AID_ROOT 0 (Some ''system/xbin/tcpdump''),
     rule 2552 AID_ROOT AID_RADIO 0 (Some ''system/bin/pppd-ril''),
     rule 488 AID_ROOT AID_SHELL (push_bit CAP_SETUID 1 OR push_bit CAP_SETGID 1) (Some ''system/bin/run-as''),
     rule 488 AID_ROOT AID_ROOT 0 (Some ''system/bin/uncrypt''),
     rule 488 AID_ROOT AID_ROOT 0 (Some ''system/bin/install-recovery.sh''),
     rule 493 AID_ROOT AID_SHELL 0 (Some ''system/bin/*''),
     rule 493 AID_ROOT AID_ROOT 0 (Some ''system/lib/valgrind/*''),
     rule 493 AID_ROOT AID_ROOT 0 (Some ''system/lib64/valgrind/*''),
     rule 493 AID_ROOT AID_SHELL 0 (Some ''system/xbin/*''),
     rule 493 AID_ROOT AID_SHELL 0 (Some ''system/vendor/bin/*''),
     rule 493 AID_ROOT AID_SHELL 0 (Some ''system/busybox/*''),
     rule 493 AID_ROOT AID_SHELL 0 (Some ''vendor/bin/*''),
     rule 488 AID_ROOT AID_SHELL 0 (Some ''sbin/*''),
     rule 493 AID_ROOT AID_ROOT 0 (Some ''bin/*''),
     rule 488 AID_ROOT AID_SHELL 0 (Some ''init*''),
     rule 488 AID_ROOT AID_SHELL 0 (Some ''sbin/fs_mgr''),
     rule 416 AID_ROOT AID_SHELL 0 (Some ''fstab.*''),
     rule 438 AID_SYSTEM AID_MISC 0 (Some ''data/system/ethernet.conf''),
     rule 420 AID_ROOT AID_ROOT 0 None]"

section \<open>Lookup\<close>

text \<open>
  \<open>strncmp(a, b, n) == 0\<close> for a string \<open>a\<close> of at least \<open>n\<close> characters: a shorter \<open>b\<close>
  ends in a NUL that \<open>a\<close> does not have there.
\<close>

definition strncmp_eq :: "string \<Rightarrow> string \<Rightarrow> nat \<Rightarrow> bool" where
  "strncmp_eq a b n \<longleftrightarrow> take n a = take n b"

definition fs_matches :: "bool \<Rightarrow> string \<Rightarrow> string \<Rightarrow> bool" where
  "fs_matches dir path pre =
     (let plen = length path; len = length pre in
      if dir then \<not> plen < len \<and> strncmp_eq pre path len
      else if pre ! (len - 1) = CHR ''*'' then strncmp_eq pre path (len - 1)
      else plen = len \<and> strncmp_eq pre path len)"

text \<open>The loop: it stops at the entry without a prefix that ends each table.\<close>

fun fs_scan :: "bool \<Rightarrow> string \<Rightarrow> fs_path_config list \<Rightarrow> fs_path_config option" where
  "fs_scan dir path [] = None"
| "fs_scan dir path (pc # pcs) =
     (case pc_prefix pc of None \<Rightarrow> Some pc
      | Some pre \<Rightarrow> if fs_matches dir path pre then Some pc else fs_scan dir path pcs)"

definition strip_slash :: "string \<Rightarrow> string" where
  "strip_slash path = (case path of c # cs \<Rightarrow> if c = CHR ''/'' then cs else path | [] \<Rightarrow> path)"

record fs_attrs =
  fa_uid :: u32
  fa_gid :: u32
  fa_mode :: u32
  fa_capabilities :: u64

definition fs_config :: "string \<Rightarrow> bool \<Rightarrow> u32 \<Rightarrow> fs_attrs option" where
  "fs_config path dir mode =
     map_option (\<lambda>pc. \<lparr>fa_uid = pc_uid pc, fa_gid = pc_gid pc,
         fa_mode = (mode AND NOT 4095) OR pc_mode pc, fa_capabilities = pc_capabilities pc\<rparr>)
       (fs_scan dir (strip_slash (c_string path)) (if dir then android_dirs else android_files))"

section \<open>First match\<close>

definition fs_hits :: "bool \<Rightarrow> string \<Rightarrow> fs_path_config \<Rightarrow> bool" where
  "fs_hits dir path pc = (case pc_prefix pc of None \<Rightarrow> True | Some pre \<Rightarrow> fs_matches dir path pre)"

lemma fs_scan_find: "fs_scan dir path pcs = find (fs_hits dir path) pcs"
  by (induction pcs) (auto simp: fs_hits_def split: option.splits)

lemma find_split:
  assumes "find P xs = Some x"
  shows "\<exists>pre post. xs = pre @ x # post \<and> list_all (\<lambda>y. \<not> P y) pre \<and> P x"
  using assms
proof (induction xs)
  case (Cons y ys)
  show ?case
  proof (cases "P y")
    case True
    then show ?thesis using Cons.prems by (intro exI [of _ "[]"] exI [of _ ys]) simp
  next
    case False
    then obtain pre post where "ys = pre @ x # post" "list_all (\<lambda>y. \<not> P y) pre" "P x" using Cons by auto
    then show ?thesis using False by (intro exI [of _ "y # pre"] exI [of _ post]) simp
  qed
qed simp

lemma and_or_not_split: "(x AND m) OR (x AND NOT m) = (x :: u32)"
  by (rule bit_word_eqI) (auto simp: bit_simps)

abbreviation (input) fs_table :: "bool \<Rightarrow> fs_path_config list" where
  "fs_table dir \<equiv> (if dir then android_dirs else android_files)"

lemma fs_table_end: "list_ex (\<lambda>pc. pc_prefix pc = None) (fs_table dir)"
  by (simp add: android_dirs_def android_files_def)

lemma fs_table_modes: "list_all (\<lambda>pc. pc_mode pc AND NOT 4095 = 0) (fs_table dir)"
  by (simp add: android_dirs_def android_files_def)

text \<open>
  C26: Every path gets the attributes of the first rule that matches it. \<open>fs_config\<close> always finds a
  rule; no rule before it in the table matches; owner, group and capabilities are the rule's,
  the twelve permission bits of the mode are the rule's, and the other bits are the caller's.
\<close>

theorem fs_config_first_match:
  "\<exists>pre pc post a. (if dir then android_dirs else android_files) = pre @ pc # post \<and>
     list_all (\<lambda>q. \<not> fs_hits dir (strip_slash (c_string path)) q) pre \<and>
     fs_hits dir (strip_slash (c_string path)) pc \<and> fs_config path dir mode = Some a \<and>
     fa_uid a = pc_uid pc \<and> fa_gid a = pc_gid pc \<and> fa_capabilities a = pc_capabilities pc \<and>
     fa_mode a AND 4095 = pc_mode pc \<and> fa_mode a AND NOT 4095 = mode AND NOT 4095"
proof -
  let ?P = "fs_hits dir (strip_slash (c_string path))"
  have "find ?P (fs_table dir) \<noteq> None"
    using fs_table_end [of dir] unfolding find_None_iff list_ex_iff by (auto simp: fs_hits_def)
  then obtain pc where pc: "find ?P (fs_table dir) = Some pc" by blast
  obtain pre post where split: "fs_table dir = pre @ pc # post" "list_all (\<lambda>q. \<not> ?P q) pre" "?P pc"
    using find_split [OF pc] by blast
  have "pc_mode pc AND NOT 4095 = 0"
    using fs_table_modes [of dir] unfolding split(1) by simp
  then have m: "pc_mode pc AND 4095 = pc_mode pc" "pc_mode pc AND NOT 4095 = 0"
    using and_or_not_split [of "pc_mode pc" 4095] by simp_all
  have "((mode AND NOT 4095) OR pc_mode pc) AND 4095 = pc_mode pc"
       "((mode AND NOT 4095) OR pc_mode pc) AND NOT 4095 = mode AND NOT 4095"
    using m by (simp_all add: bit.conj_disj_distrib2 and.assoc)
  then show ?thesis
    using split pc by (intro exI [of _ pre] exI [of _ pc] exI [of _ post]) (simp add: fs_config_def fs_scan_find)
qed

text \<open>A file rule without a wildcard applies to the path it names and to no other.\<close>

lemma exact_rule:
  "fs_matches False p pre \<Longrightarrow> pre ! (length pre - 1) \<noteq> CHR ''*'' \<Longrightarrow> p = pre"
  by (simp add: fs_matches_def strncmp_eq_def Let_def split: if_splits) (metis order_refl take_all)

lemma fs_config_rule:
  assumes "fs_config path dir mode = Some a"
  obtains pc where "pc \<in> set (fs_table dir)" "fs_hits dir (strip_slash (c_string path)) pc"
    "fa_mode a = (mode AND NOT 4095) OR pc_mode pc" "fa_capabilities a = pc_capabilities pc"
proof -
  obtain pc where pc: "find (fs_hits dir (strip_slash (c_string path))) (fs_table dir) = Some pc"
    "fa_mode a = (mode AND NOT 4095) OR pc_mode pc" "fa_capabilities a = pc_capabilities pc"
    using assms by (auto simp: fs_config_def fs_scan_find)
  obtain pre post where "fs_table dir = pre @ pc # post" "fs_hits dir (strip_slash (c_string path)) pc"
    using find_split [OF pc(1)] by blast
  moreover from this have "pc \<in> set (fs_table dir)" unfolding in_set_conv_decomp by (intro exI)
  ultimately show thesis using pc(2,3) that by blast
qed

lemma c_string_append: "CHR 0x00 \<notin> set a \<Longrightarrow> c_string (a @ b) = a @ c_string b"
  by (induction a) (auto simp: c_string_def)

text \<open>
  Two of the directory rules can never apply. The comment asks for the most specific path
  first, but \<open>data/misc\<close> stands before \<open>data/misc/dhcp\<close> and \<open>data/misc/shared_relro\<close>: every
  path below these two gets the owner, group and mode of \<open>data/misc\<close>.
\<close>

theorem misc_rules_shadowed:
  "fs_config (''data/misc/dhcp'' @ rest) True mode =
     Some \<lparr>fa_uid = AID_SYSTEM, fa_gid = AID_MISC, fa_mode = (mode AND NOT 4095) OR 1017, fa_capabilities = 0\<rparr> \<and>
   fs_config (''data/misc/shared_relro'' @ rest) True mode =
     Some \<lparr>fa_uid = AID_SYSTEM, fa_gid = AID_MISC, fa_mode = (mode AND NOT 4095) OR 1017, fa_capabilities = 0\<rparr>"
  using c_string_append [of "''data/misc/dhcp''" rest] c_string_append [of "''data/misc/shared_relro''" rest]
  by (simp add: fs_config_def strip_slash_def android_dirs_def fs_matches_def strncmp_eq_def)

text \<open>
  Set-user-id files are exactly the listed ones. A file whose path gets the set-user-id bit is
  one of six, named in full in the table; no wildcard rule hands the bit out.
\<close>

theorem setuid_files:
  assumes "fs_config path False 0 = Some a" and "fa_mode a AND 2048 \<noteq> 0"
  shows "strip_slash (c_string path) \<in> {''system/xbin/su'', ''system/xbin/librank'', ''system/xbin/procrank'',
     ''system/xbin/procmem'', ''system/xbin/tcpdump'', ''system/bin/pppd-ril''}"
proof -
  let ?p = "strip_slash (c_string path)"
  obtain pc where "pc \<in> set (fs_table False)" "fs_hits False ?p pc" "fa_mode a = (0 AND NOT 4095) OR pc_mode pc"
    using assms(1) by (rule fs_config_rule)
  then have "pc \<in> set android_files" "fs_hits False ?p pc" "pc_mode pc AND 2048 \<noteq> 0" using assms(2) by simp_all
  then show ?thesis
    using exact_rule [of ?p] by (auto simp: android_files_def fs_hits_def)
qed

theorem setuid_files_witness:
  "fs_config ''/system/xbin/su'' False 0 =
     Some \<lparr>fa_uid = AID_ROOT, fa_gid = AID_SHELL, fa_mode = 2536, fa_capabilities = 0\<rparr> \<and>
   strip_slash (c_string ''/system/xbin/su'') \<in> {''system/xbin/su'', ''system/xbin/librank'', ''system/xbin/procrank'',
     ''system/xbin/procmem'', ''system/xbin/tcpdump'', ''system/bin/pppd-ril''}"
proof -
  have c: "c_string ''/system/xbin/su'' = ''/system/xbin/su''" by (simp add: c_string_def)
  have "fs_config ''/system/xbin/su'' False 0 =
     Some \<lparr>fa_uid = AID_ROOT, fa_gid = AID_SHELL, fa_mode = 2536, fa_capabilities = 0\<rparr>"
    by (simp add: fs_config_def c strip_slash_def android_files_def fs_matches_def strncmp_eq_def)
  from setuid_files [OF this] this show ?thesis by simp
qed

text \<open>
  C27: The capability header and the rule tables together: read through \<open>CAP_TO_INDEX\<close> and \<open>CAP_TO_MASK\<close>,
  the capabilities \<open>fs_config\<close> hands out are \<open>CAP_SETUID\<close> and \<open>CAP_SETGID\<close>, for the file
  \<open>system/bin/run-as\<close> and for no other path. The index stays inside the words of a \<open>vfs_cap_data\<close>.
\<close>

theorem capability_files:
  assumes "fs_config path dir mode = Some a" and "cap_valid x"
  shows "(cap_word (fa_capabilities a) (CAP_TO_INDEX x) AND CAP_TO_MASK x \<noteq> 0 \<longleftrightarrow>
      \<not> dir \<and> strip_slash (c_string path) = ''system/bin/run-as'' \<and> x \<in> {int CAP_SETUID, int CAP_SETGID})
    \<and> 0 \<le> CAP_TO_INDEX x \<and> CAP_TO_INDEX x < int VFS_CAP_U32"
proof (intro conjI)
  let ?p = "strip_slash (c_string path)"
  obtain pc where pc: "pc \<in> set (fs_table dir)" "fs_hits dir ?p pc" "fa_capabilities a = pc_capabilities pc"
    using fs_config_rule [OF assms(1)] by metis
  have "\<not> dir \<and> ?p = ''system/bin/run-as''" if "pc_capabilities pc \<noteq> 0"
    using pc that exact_rule [of ?p] by (auto simp: android_files_def android_dirs_def fs_hits_def split: if_splits)
  moreover have "pc_capabilities pc = push_bit CAP_SETUID 1 OR push_bit CAP_SETGID 1"
    if "\<not> dir" "?p = ''system/bin/run-as''"
    using assms(1) that pc(3) by (auto simp: fs_config_def android_files_def fs_matches_def strncmp_eq_def)
  moreover have "bit (push_bit CAP_SETUID 1 OR push_bit CAP_SETGID 1 :: u64) (nat x) \<longleftrightarrow> x \<in> {int CAP_SETUID, int CAP_SETGID}"
    unfolding bit_or_iff bit_push_bit_iff using assms(2) by (auto simp: cap_valid_def cap_defs bit_1_iff)
  ultimately show "cap_word (fa_capabilities a) (CAP_TO_INDEX x) AND CAP_TO_MASK x \<noteq> 0 \<longleftrightarrow>
      \<not> dir \<and> ?p = ''system/bin/run-as'' \<and> x \<in> {int CAP_SETUID, int CAP_SETGID}"
    unfolding cap_word_mask [OF assms(2)] pc(3) by (cases "pc_capabilities pc = 0") auto
  show "0 \<le> CAP_TO_INDEX x" "CAP_TO_INDEX x < int VFS_CAP_U32"
    using assms(2) by (auto simp: cap_valid_def cap_index cap_defs)
qed

theorem capability_files_witness:
  "fs_config ''/system/bin/run-as'' False 0 = Some \<lparr>fa_uid = AID_ROOT, fa_gid = AID_SHELL, fa_mode = 488, fa_capabilities = 192\<rparr> \<and>
   cap_word 192 (CAP_TO_INDEX 7) AND CAP_TO_MASK 7 \<noteq> 0"
proof -
  have c: "c_string ''/system/bin/run-as'' = ''/system/bin/run-as''" by (simp add: c_string_def)
  have f: "fs_config ''/system/bin/run-as'' False 0 =
     Some \<lparr>fa_uid = AID_ROOT, fa_gid = AID_SHELL, fa_mode = 488, fa_capabilities = 192\<rparr>"
    by (simp add: fs_config_def c strip_slash_def android_files_def fs_matches_def strncmp_eq_def cap_defs)
  have "cap_valid 7" by (simp add: cap_valid_def cap_defs)
  from capability_files [OF f this] f show ?thesis by (simp add: c strip_slash_def cap_defs)
qed

text \<open>
  The id table is a bijection. No name and no number occurs twice among the platform's user and
  group ids, so that looking up a name and then its number, or the reverse, comes back to the start.
\<close>

theorem android_ids_bijective:
  "distinct (map fst android_ids) \<and> distinct (map snd android_ids) \<and> android_id_count = 51"
  by (simp add: android_ids_def android_id_count_def fs_ids)

end
