(* ===== verification/Ramdisk.thy ===== *)
theory Ramdisk
  imports Prelude
begin

text \<open>
  The three RAM disk drivers of \<open>ramdisk-lab\<close>: \<open>ramhd_mkreq.c\<close> (a make-request
  function), \<open>ramhd_req.c\<close> and \<open>sample_blk.c\<close> (request functions). The disk is the list of its
  bytes. What the block layer hands to a driver is input: a request is a start sector, a byte
  count, a direction and the segments of memory to transfer, and a queue is the list of the
  requests \<open>blk_fetch_request\<close> returns until it returns NULL. A copy that leaves the disk is a
  fault (\<open>None\<close>). \<open>sector_t\<close> is 64 bits wide.
\<close>

section \<open>The copying loop\<close>

datatype io_dir = READ | WRITE

definition splice :: "nat \<Rightarrow> u8 list \<Rightarrow> u8 list \<Rightarrow> u8 list" where
  "splice pos bs d = take pos d @ bs @ drop (pos + length bs) d"

text \<open>One \<open>memcpy\<close> between a segment and the disk, and the loop over the segments.\<close>

definition copy_seg :: "io_dir \<Rightarrow> nat \<Rightarrow> u8 list \<Rightarrow> u8 list \<Rightarrow> (u8 list \<times> u8 list) option" where
  "copy_seg dir pos d buffer =
     (if length d < pos + length buffer then None
      else Some (case dir of WRITE \<Rightarrow> (splice pos buffer d, buffer)
                           | READ \<Rightarrow> (d, take (length buffer) (drop pos d))))"

fun copy_segs :: "io_dir \<Rightarrow> nat \<Rightarrow> u8 list \<Rightarrow> u8 list list \<Rightarrow> (u8 list \<times> u8 list list) option" where
  "copy_segs dir pos d [] = Some (d, [])"
| "copy_segs dir pos d (b # bs) =
     Option.bind (copy_seg dir pos d b) (\<lambda>(d, b).
       map_option (\<lambda>(d, bs). (d, b # bs)) (copy_segs dir (pos + length b) d bs))"

section \<open>ramhd\_mkreq.c\<close>

definition RAMHD_SECTOR_SIZE :: u64 where "RAMHD_SECTOR_SIZE = 512"
definition RAMHD_SECTORS :: u64 where "RAMHD_SECTORS = 16"
definition RAMHD_HEADS :: u64 where "RAMHD_HEADS = 4"
definition RAMHD_CYLINDERS :: u64 where "RAMHD_CYLINDERS = 256"
definition RAMHD_SECTOR_TOTAL :: u64 where "RAMHD_SECTOR_TOTAL = RAMHD_SECTORS * RAMHD_HEADS * RAMHD_CYLINDERS"
definition RAMHD_SIZE :: u64 where "RAMHD_SIZE = RAMHD_SECTOR_SIZE * RAMHD_SECTOR_TOTAL"

lemmas ramhd_consts = RAMHD_SECTOR_SIZE_def RAMHD_SECTORS_def RAMHD_HEADS_def RAMHD_CYLINDERS_def
  RAMHD_SECTOR_TOTAL_def RAMHD_SIZE_def

record bio =
  bi_sector :: u64
  bi_size :: u32
  bi_dir :: io_dir
  bi_segs :: "u8 list list"

text \<open>The result: the status given to \<open>bio_endio\<close>, the disk, and the segments.\<close>

definition ramhd_make_request :: "bio \<Rightarrow> u8 list \<Rightarrow> (int \<times> u8 list \<times> u8 list list) option" where
  "ramhd_make_request b d =
     (if bi_sector b * RAMHD_SECTOR_SIZE + ucast (bi_size b) > RAMHD_SIZE then Some (- EIO, d, bi_segs b)
      else map_option (\<lambda>(d, segs). (0, d, segs))
             (copy_segs (bi_dir b) (unat (bi_sector b * RAMHD_SECTOR_SIZE)) d (bi_segs b)))"

record hd_geometry =
  geo_heads :: u64
  geo_sectors :: u64
  geo_cylinders :: u64
  geo_start :: u64

definition HDIO_GETGEO :: u32 where "HDIO_GETGEO = 0x0301"

text \<open>
  \<open>acc\<close> is what \<open>access_ok\<close> answers for the user's buffer and \<open>left\<close> what \<open>copy_to_user\<close>
  returns, \<open>start\<close> the partition's first sector. The second component is what is copied out.
\<close>

definition ramhd_ioctl :: "bool \<Rightarrow> nat \<Rightarrow> u64 \<Rightarrow> u32 \<Rightarrow> int \<times> hd_geometry option" where
  "ramhd_ioctl acc left start cmd =
     (if cmd = HDIO_GETGEO then
        if \<not> acc then (- EFAULT, None)
        else let geo = \<lparr>geo_heads = RAMHD_HEADS, geo_sectors = RAMHD_SECTORS, geo_cylinders = RAMHD_CYLINDERS,
                        geo_start = start\<rparr>
             in if left \<noteq> 0 then (- EFAULT, None) else (0, Some geo)
      else (- ENOTTY, None))"

section \<open>ramhd\_req.c\<close>

text \<open>The file has its own copy of the geometry call, with the same constants.\<close>

definition req_ioctl :: "bool \<Rightarrow> nat \<Rightarrow> u64 \<Rightarrow> u32 \<Rightarrow> int \<times> hd_geometry option" where
  "req_ioctl acc left start cmd =
     (if cmd = HDIO_GETGEO then
        if \<not> acc then (- EFAULT, None)
        else let geo = \<lparr>geo_heads = RAMHD_HEADS, geo_sectors = RAMHD_SECTORS, geo_cylinders = RAMHD_CYLINDERS,
                        geo_start = start\<rparr>
             in if left \<noteq> 0 then (- EFAULT, None) else (0, Some geo)
      else (- ENOTTY, None))"

lemma req_ioctl_same: "req_ioctl = ramhd_ioctl"
  by (intro ext) (simp add: req_ioctl_def ramhd_ioctl_def)

text \<open>The geometry reported is that of the disk: its sectors fill the capacity.\<close>

lemma ramhd_geometry:
  "ramhd_ioctl acc left start cmd = (0, Some geo) \<Longrightarrow>
   geo_heads geo * geo_sectors geo * geo_cylinders geo * RAMHD_SECTOR_SIZE = RAMHD_SIZE"
  by (auto simp: ramhd_ioctl_def Let_def ramhd_consts split: if_splits)

text \<open>
  One pass of the loop of \<open>ramhd_req_func\<close>: the current piece of a request, as \<open>blk_rq_pos\<close>,
  \<open>blk_rq_cur_bytes\<close>, \<open>rq_data_dir\<close> and \<open>req->buffer\<close> describe it. There is no check of
  its bounds, and \<open>start\<close> and \<open>addr\<close> are of type \<open>unsigned long\<close>, 32 bits wide on this
  machine.
\<close>

record req_piece =
  rp_pos :: u64
  rp_dir :: io_dir
  rp_buffer :: "u8 list"

fun ramhd_req_func :: "req_piece list \<Rightarrow> u8 list \<Rightarrow> (u8 list \<times> u8 list list) option" where
  "ramhd_req_func [] d = Some (d, [])"
| "ramhd_req_func (r # rs) d =
     Option.bind (copy_seg (rp_dir r) (unat (ucast (rp_pos r) * 512 :: u32)) d (rp_buffer r)) (\<lambda>(d, b).
       map_option (\<lambda>(d, bs). (d, b # bs)) (ramhd_req_func rs d))"

section \<open>sample\_blk.c\<close>

definition sampleblk_sect_size :: u64 where "sampleblk_sect_size = 512"
definition sampleblk_nsects :: u64 where "sampleblk_nsects = 100 * 1024"

record sampleblk_dev =
  sb_size :: u64
  sb_data :: "u8 list"

record request =
  rq_pos :: u64
  rq_bytes :: u32
  rq_dir :: io_dir
  rq_segs :: "u8 list list"

definition sampleblk_handle_io ::
    "sampleblk_dev \<Rightarrow> nat \<Rightarrow> u8 list \<Rightarrow> io_dir \<Rightarrow> (int \<times> sampleblk_dev \<times> u8 list) option" where
  "sampleblk_handle_io dev pos buffer write =
     map_option (\<lambda>(d, b). (0, dev\<lparr>sb_data := d\<rparr>, b)) (copy_seg write pos (sb_data dev) buffer)"

text \<open>The loop over the segments, with the variable \<open>rv\<close> it leaves behind.\<close>

fun sampleblk_segs ::
    "int \<Rightarrow> sampleblk_dev \<Rightarrow> nat \<Rightarrow> io_dir \<Rightarrow> u8 list list \<Rightarrow> (int \<times> sampleblk_dev \<times> u8 list list) option" where
  "sampleblk_segs rv dev pos write [] = Some (rv, dev, [])"
| "sampleblk_segs rv dev pos write (b # bs) =
     Option.bind (sampleblk_handle_io dev pos b write) (\<lambda>(rv, dev, b).
       if rv < 0 then Some (rv, dev, b # bs)
       else map_option (\<lambda>(rv, dev, bs). (rv, dev, b # bs)) (sampleblk_segs rv dev (pos + length b) write bs))"

text \<open>
  The request function. \<open>rv\<close> is declared outside the loop and not reset; the result lists, for
  each request, the status it is ended with and its segments.
\<close>

fun sampleblk_loop ::
    "int \<Rightarrow> request list \<Rightarrow> sampleblk_dev \<Rightarrow> ((int \<times> u8 list list) list \<times> sampleblk_dev) option" where
  "sampleblk_loop rv [] dev = Some ([], dev)"
| "sampleblk_loop rv (rq # q) dev =
     (let pos = rq_pos rq * sampleblk_sect_size; sz = scast (rq_bytes rq) in
      Option.bind
        (if pos + sz > sb_size dev then Some (- EIO, dev, rq_segs rq)
         else sampleblk_segs rv dev (unat pos) (rq_dir rq) (rq_segs rq))
        (\<lambda>(rv, dev, segs).
           map_option (\<lambda>(done, dev). ((rv, segs) # done, dev)) (sampleblk_loop rv q dev)))"

definition sampleblk_request :: "request list \<Rightarrow> sampleblk_dev \<Rightarrow> ((int \<times> u8 list list) list \<times> sampleblk_dev) option" where
  "sampleblk_request q dev = sampleblk_loop 0 q dev"

text \<open>
  The life of the module. The results of the four allocations are inputs, \<open>data\<close> the
  contents of the \<open>vmalloc\<close> area. The global \<open>sampleblk_dev\<close> is NULL, points to a live
  device, or dangles; the list is what is released, in order. Using a device that is not live is a
  fault.
\<close>

datatype resource = Dev | Data | Queue | Disk | Major

datatype dev_ptr = NoDev | Live sampleblk_dev | Dangling

definition sampleblk_alloc ::
    "bool \<Rightarrow> u8 list option \<Rightarrow> bool \<Rightarrow> bool \<Rightarrow> int \<times> resource list \<times> dev_ptr" where
  "sampleblk_alloc dev data queue disk =
     (if \<not> dev then (- ENOMEM, [], NoDev)
      else case data of None \<Rightarrow> (- ENOMEM, [Dev], Dangling)
      | Some d \<Rightarrow>
        if \<not> queue then (- ENOMEM, [Data, Dev], Dangling)
        else if \<not> disk then (- ENOMEM, [Queue, Data, Dev], Dangling)
        else (0, [], Live \<lparr>sb_size = sampleblk_sect_size * sampleblk_nsects, sb_data = d\<rparr>))"

definition sampleblk_free :: "dev_ptr \<Rightarrow> (resource list \<times> dev_ptr) option" where
  "sampleblk_free p = (case p of Live _ \<Rightarrow> Some ([Disk, Queue, Disk, Data, Dev], Dangling) | _ \<Rightarrow> None)"

definition sampleblk_init ::
    "int \<Rightarrow> bool \<Rightarrow> u8 list option \<Rightarrow> bool \<Rightarrow> bool \<Rightarrow> int \<times> dev_ptr" where
  "sampleblk_init major dev data queue disk =
     (if major < 0 then (major, NoDev)
      else let (rv, freed, p) = sampleblk_alloc dev data queue disk in (0, p))"

definition sampleblk_exit :: "dev_ptr \<Rightarrow> (resource list \<times> dev_ptr) option" where
  "sampleblk_exit p = map_option (\<lambda>(freed, p). (freed @ [Major], p)) (sampleblk_free p)"

end
