(* ===== verification/Ramdisk_Correct.thy ===== *)
theory Ramdisk_Correct
  imports Ramdisk
begin

text \<open>
  What the RAM disk drivers promise: a disk is an array of bytes, a write replaces the bytes from its
  start sector on and a read returns them. The contract is the locale \<open>ram_disk\<close>; the three
  drivers are instances of it.
\<close>

section \<open>The copying loop as one splice\<close>

lemma length_splice [simp]: "pos + length bs \<le> length d \<Longrightarrow> length (splice pos bs d) = length d"
  by (simp add: splice_def)

lemma splice_Nil [simp]: "splice pos [] d = d"
  by (simp add: splice_def)

lemma nth_splice:
  assumes "pos + length bs \<le> length d" "i < length d"
  shows "splice pos bs d ! i = (if pos \<le> i \<and> i < pos + length bs then bs ! (i - pos) else d ! i)"
  using assms by (auto simp: splice_def nth_append min_def)

lemma splice_append:
  assumes "pos + length xs + length ys \<le> length d"
  shows "splice (pos + length xs) ys (splice pos xs d) = splice pos (xs @ ys) d"
  using assms by (intro nth_equalityI) (auto simp: nth_splice nth_append)

lemma take_drop_splice [simp]:
  "pos + length bs \<le> length d \<Longrightarrow> take (length bs) (drop pos (splice pos bs d)) = bs"
  by (simp add: splice_def)

lemma take_splice [simp]: "pos \<le> length d \<Longrightarrow> take pos (splice pos bs d) = take pos d"
  by (simp add: splice_def)

lemma drop_splice [simp]:
  "pos + length bs \<le> length d \<Longrightarrow> drop (pos + length bs) (splice pos bs d) = drop (pos + length bs) d"
  by (simp add: splice_def)

lemma splice_frame:
  assumes "pos + length bs \<le> length d" "q + n \<le> length d" "q + n \<le> pos \<or> pos + length bs \<le> q"
  shows "take n (drop q (splice pos bs d)) = take n (drop q d)"
  using assms by (intro nth_equalityI) (auto simp: nth_splice)

text \<open>Distributing bytes over segments of given lengths.\<close>

fun deal :: "u8 list list \<Rightarrow> u8 list \<Rightarrow> u8 list list" where
  "deal [] xs = []"
| "deal (b # bs) xs = take (length b) xs # deal bs (drop (length b) xs)"

lemma concat_deal: "concat (deal segs xs) = take (length (concat segs)) xs"
  by (induction segs arbitrary: xs) (simp_all add: take_add)

lemma map_length_deal:
  "length (concat segs) \<le> length xs \<Longrightarrow> map length (deal segs xs) = map length segs"
  by (induction segs arbitrary: xs) auto

lemma copy_segs_write:
  "pos + length (concat segs) \<le> length d \<Longrightarrow> copy_segs WRITE pos d segs = Some (splice pos (concat segs) d, segs)"
  by (induction segs arbitrary: pos d) (auto simp: copy_seg_def splice_append add.assoc)

lemma copy_segs_read:
  "pos + length (concat segs) \<le> length d \<Longrightarrow> copy_segs READ pos d segs = Some (d, deal segs (drop pos d))"
  by (induction segs arbitrary: pos) (auto simp: copy_seg_def add.assoc add.commute)

lemma copy_segs_overrun:
  "length d < pos + length (concat segs) \<Longrightarrow> segs \<noteq> [] \<Longrightarrow> copy_segs dir pos d segs = None"
proof (induction segs arbitrary: pos d)
  case (Cons b bs)
  show ?case
  proof (cases "length d < pos + length b")
    case True
    then show ?thesis by (simp add: copy_seg_def)
  next
    case False
    with Cons.prems have "bs \<noteq> []" by auto
    moreover have "length (splice pos b d) = length d" using False by simp
    ultimately show ?thesis
      using False Cons.prems Cons.IH [of d "pos + length b"] Cons.IH [of "splice pos b d" "pos + length b"]
      by (cases dir) (auto simp: copy_seg_def)
  qed
qed simp

text \<open>The abstract disk: one transfer on the array of bytes.\<close>

definition disk_xfer :: "io_dir \<Rightarrow> nat \<Rightarrow> u8 list list \<Rightarrow> u8 list \<Rightarrow> u8 list \<times> u8 list list" where
  "disk_xfer dir pos segs d =
     (case dir of WRITE \<Rightarrow> (splice pos (concat segs) d, segs) | READ \<Rightarrow> (d, deal segs (drop pos d)))"

lemma copy_segs_abstract:
  "pos + length (concat segs) \<le> length d \<Longrightarrow> copy_segs dir pos d segs = Some (disk_xfer dir pos segs d)"
  by (cases dir) (simp_all add: disk_xfer_def copy_segs_write copy_segs_read)

lemma length_disk_xfer:
  "pos + length (concat segs) \<le> length d \<Longrightarrow> length (fst (disk_xfer dir pos segs d)) = length d"
  by (cases dir) (simp_all add: disk_xfer_def)

section \<open>The contract of a RAM disk driver\<close>

text \<open>
  A transfer fits when its bytes lie within the capacity and, as the block layer guarantees, every
  segment is a whole number of sectors.
\<close>

definition fits :: "nat \<Rightarrow> u64 \<Rightarrow> u8 list list \<Rightarrow> bool" where
  "fits cap s segs \<longleftrightarrow> segs \<noteq> [] \<and> unat s * 512 + length (concat segs) \<le> cap \<and> list_all (\<lambda>b. 512 dvd length b) segs"

type_synonym op = "io_dir \<times> u64 \<times> u8 list list"

text \<open>
  \<open>xfer dir s segs d\<close> is the driver serving one transfer in device state \<open>d\<close>, giving the
  status, the new state and the segments. \<open>disk_run\<close> runs a sequence of transfers on an array of
  bytes and \<open>drive\<close> on a driver.
\<close>

fun disk_run :: "op list \<Rightarrow> u8 list \<Rightarrow> u8 list list list \<times> u8 list" where
  "disk_run [] d = ([], d)"
| "disk_run ((dir, s, segs) # ops) d =
     (let (d, segs) = disk_xfer dir (unat s * 512) segs d; (out, d) = disk_run ops d in (segs # out, d))"

fun drive :: "(io_dir \<Rightarrow> u64 \<Rightarrow> u8 list list \<Rightarrow> 'd \<Rightarrow> (int \<times> 'd \<times> u8 list list) option) \<Rightarrow>
    op list \<Rightarrow> 'd \<Rightarrow> ((int \<times> u8 list list) list \<times> 'd) option" where
  "drive xfer [] d = Some ([], d)"
| "drive xfer ((dir, s, segs) # ops) d =
     Option.bind (xfer dir s segs d) (\<lambda>(rv, d, segs).
       map_option (\<lambda>(out, d). ((rv, segs) # out, d)) (drive xfer ops d))"

locale ram_disk =
  fixes xfer :: "io_dir \<Rightarrow> u64 \<Rightarrow> u8 list list \<Rightarrow> 'd \<Rightarrow> (int \<times> 'd \<times> u8 list list) option"
    and contents :: "'d \<Rightarrow> u8 list"
    and good :: "'d \<Rightarrow> bool"
    and cap :: nat
  assumes size_law: "good d \<Longrightarrow> length (contents d) = cap"
    and xfer_law: "good d \<Longrightarrow> fits cap s segs \<Longrightarrow>
      \<exists>d'. xfer dir s segs d = Some (0, d', snd (disk_xfer dir (unat s * 512) segs (contents d)))
         \<and> contents d' = fst (disk_xfer dir (unat s * 512) segs (contents d)) \<and> good d'"
begin

lemma write_then_read:
  assumes "good d" "fits cap s segs" "fits cap s bufs" "length (concat bufs) = length (concat segs)"
  shows "\<exists>d1 d2 got. xfer WRITE s segs d = Some (0, d1, segs) \<and> xfer READ s bufs d1 = Some (0, d2, got)
    \<and> concat got = concat segs \<and> map length got = map length bufs \<and> contents d2 = contents d1"
proof -
  have fit: "unat s * 512 + length (concat segs) \<le> length (contents d)"
    using assms by (simp add: fits_def size_law)
  obtain d1 where d1: "xfer WRITE s segs d = Some (0, d1, segs)" "good d1"
      "contents d1 = splice (unat s * 512) (concat segs) (contents d)"
    using xfer_law [OF assms(1,2), of WRITE] by (auto simp: disk_xfer_def)
  moreover obtain d2 where "xfer READ s bufs d1 = Some (0, d2, deal bufs (drop (unat s * 512) (contents d1)))"
      "contents d2 = contents d1"
    using xfer_law [OF d1(2) assms(3), of READ] by (auto simp: disk_xfer_def)
  ultimately show ?thesis
    using fit assms(4) by (auto simp: concat_deal map_length_deal)
qed

lemma write_keeps_elsewhere:
  assumes "good d" "fits cap s segs" "fits cap t bufs"
    and "unat s * 512 + length (concat segs) \<le> unat t * 512 \<or> unat t * 512 + length (concat bufs) \<le> unat s * 512"
  shows "\<exists>d1 d2 d3 got got'. xfer WRITE s segs d = Some (0, d1, segs) \<and> xfer READ t bufs d1 = Some (0, d2, got)
    \<and> xfer READ t bufs d = Some (0, d3, got') \<and> concat got = concat got'"
proof -
  have fit: "unat s * 512 + length (concat segs) \<le> length (contents d)" "unat t * 512 + length (concat bufs) \<le> length (contents d)"
    using assms by (simp_all add: fits_def size_law)
  obtain d1 where d1: "xfer WRITE s segs d = Some (0, d1, segs)" "good d1"
      "contents d1 = splice (unat s * 512) (concat segs) (contents d)"
    using xfer_law [OF assms(1,2), of WRITE] by (auto simp: disk_xfer_def)
  moreover obtain d2 where "xfer READ t bufs d1 = Some (0, d2, deal bufs (drop (unat t * 512) (contents d1)))"
    using xfer_law [OF d1(2) assms(3), of READ] by (auto simp: disk_xfer_def)
  moreover obtain d3 where "xfer READ t bufs d = Some (0, d3, deal bufs (drop (unat t * 512) (contents d)))"
    using xfer_law [OF assms(1,3), of READ] by (auto simp: disk_xfer_def)
  ultimately show ?thesis
    using splice_frame [OF fit] assms(4) by (auto simp: concat_deal)
qed

lemma drive_refines:
  assumes "good d" "list_all (\<lambda>(dir, s, segs). fits cap s segs) ops"
  shows "\<exists>d'. drive xfer ops d = Some (map (Pair 0) (fst (disk_run ops (contents d))), d')
    \<and> contents d' = snd (disk_run ops (contents d)) \<and> good d'"
  using assms
proof (induction ops arbitrary: d)
  case (Cons p ops)
  obtain dir s segs where p: "p = (dir, s, segs)" by (cases p)
  obtain d1 where d1: "xfer dir s segs d = Some (0, d1, snd (disk_xfer dir (unat s * 512) segs (contents d)))"
      "contents d1 = fst (disk_xfer dir (unat s * 512) segs (contents d))" "good d1"
    using xfer_law [of d s segs dir] Cons.prems by (auto simp: p)
  moreover obtain d2 where "drive xfer ops d1 = Some (map (Pair 0) (fst (disk_run ops (contents d1))), d2)"
      "contents d2 = snd (disk_run ops (contents d1))" "good d2"
    using Cons.IH [OF d1(3)] Cons.prems by auto
  ultimately show ?case
    by (auto simp: p split: prod.splits)
qed simp

end

section \<open>The drivers are RAM disks\<close>

lemma unat_sector:
  fixes s :: u64
  assumes "unat s * 512 < 18446744073709551616"
  shows "unat (s * 512) = unat s * 512"
  using assms by (simp add: unat_word_ariths)

lemma unat_sector_end:
  fixes s z :: u64
  assumes "unat s * 512 + unat z < 18446744073709551616"
  shows "unat (s * 512 + z) = unat s * 512 + unat z"
  using assms by (simp add: unat_word_ariths mod_simps)

lemma unat_sector_u32:
  fixes s :: u64
  assumes "unat s * 512 < 4294967296"
  shows "unat (ucast s * 512 :: u32) = unat s * 512"
  using assms by (simp add: unat_word_ariths unsigned_ucast_eq take_bit_eq_mod mod_simps)

lemma unat_bytes_u64: "n < 4294967296 \<Longrightarrow> unat (ucast (of_nat n :: u32) :: u64) = n"
  by (simp add: unsigned_ucast_eq unat_of_nat take_bit_nat_eq_self)

lemma unat_sbytes_u64: "n < 2147483648 \<Longrightarrow> unat (scast (of_nat n :: u32) :: u64) = n"
  by (simp add: signed_of_nat signed_take_bit_int_eq_self unat_of_nat)

definition bio_for :: "io_dir \<Rightarrow> u64 \<Rightarrow> u8 list list \<Rightarrow> bio" where
  "bio_for dir s segs = \<lparr>bi_sector = s, bi_size = of_nat (length (concat segs)), bi_dir = dir, bi_segs = segs\<rparr>"

definition mkreq_xfer :: "io_dir \<Rightarrow> u64 \<Rightarrow> u8 list list \<Rightarrow> u8 list \<Rightarrow> (int \<times> u8 list \<times> u8 list list) option" where
  "mkreq_xfer dir s segs = ramhd_make_request (bio_for dir s segs)"

definition ramhd_capacity :: nat where
  "ramhd_capacity = unat RAMHD_SIZE"

lemma ramhd_capacity_eq: "ramhd_capacity = 8388608"
  by (simp add: ramhd_capacity_def ramhd_consts)

lemma RAMHD_SIZE_eq: "RAMHD_SIZE = 8388608"
  by (simp add: ramhd_consts)

interpretation mkreq: ram_disk mkreq_xfer "\<lambda>d. d" "\<lambda>d. length d = ramhd_capacity" ramhd_capacity
proof
  fix d :: "u8 list" and s segs dir
  assume len: "length d = ramhd_capacity" and fit: "fits ramhd_capacity s segs"
  let ?n = "length (concat segs)"
  have le: "unat s * 512 + ?n \<le> 8388608"
    using fit by (simp add: fits_def ramhd_capacity_eq)
  then have "unat (s * 512 + ucast (of_nat ?n :: u32) :: u64) = unat s * 512 + ?n"
    by (subst unat_sector_end) (simp_all add: unat_bytes_u64)
  then have "\<not> RAMHD_SIZE < s * 512 + ucast (of_nat ?n :: u32)"
    using le by (simp add: word_less_nat_alt RAMHD_SIZE_eq)
  moreover have "unat (s * 512) = unat s * 512"
    using le by (intro unat_sector) simp
  ultimately show "\<exists>d'. mkreq_xfer dir s segs d = Some (0, d', snd (disk_xfer dir (unat s * 512) segs d))
      \<and> d' = fst (disk_xfer dir (unat s * 512) segs d) \<and> length d' = ramhd_capacity"
    using le len by (simp add: mkreq_xfer_def ramhd_make_request_def bio_for_def RAMHD_SECTOR_SIZE_def
      copy_segs_abstract ramhd_capacity_eq length_disk_xfer split: prod.split)
qed simp

text \<open>
  \<open>sampleblk_segs\<close> is the same loop, but for the status: it is the one before the loop when
  there is no segment.
\<close>

lemma sampleblk_segs_copy:
  "sampleblk_segs rv dev pos dir segs =
     map_option (\<lambda>(d, segs'). (if segs = [] then rv else 0, dev\<lparr>sb_data := d\<rparr>, segs'))
       (copy_segs dir pos (sb_data dev) segs)"
proof (induction segs arbitrary: rv dev pos)
  case (Cons b bs)
  then show ?case
    by (cases "copy_seg dir pos (sb_data dev) b")
       (auto simp: sampleblk_handle_io_def option.map_comp o_def split: prod.splits intro!: map_option_cong)
qed simp

definition sampleblk_good :: "sampleblk_dev \<Rightarrow> bool" where
  "sampleblk_good dev \<longleftrightarrow> sb_size dev = sampleblk_sect_size * sampleblk_nsects \<and> length (sb_data dev) = unat (sb_size dev)"

definition sampleblk_capacity :: nat where
  "sampleblk_capacity = unat (sampleblk_sect_size * sampleblk_nsects)"

lemma sampleblk_capacity_eq: "sampleblk_capacity = 52428800"
  by (simp add: sampleblk_capacity_def sampleblk_sect_size_def sampleblk_nsects_def)

lemma sampleblk_size:
  "sampleblk_good dev \<Longrightarrow> unat (sb_size dev) = 52428800"
  by (simp add: sampleblk_good_def sampleblk_sect_size_def sampleblk_nsects_def)

definition request_for :: "io_dir \<Rightarrow> u64 \<Rightarrow> u8 list list \<Rightarrow> request" where
  "request_for dir s segs = \<lparr>rq_pos = s, rq_bytes = of_nat (length (concat segs)), rq_dir = dir, rq_segs = segs\<rparr>"

lemma sampleblk_range:
  assumes "sampleblk_good dev" "unat s < 18014398509481984" "length (concat segs) < 2147483648"
  shows "sb_size dev < s * sampleblk_sect_size + scast (of_nat (length (concat segs)) :: u32)
    \<longleftrightarrow> sampleblk_capacity < unat s * 512 + length (concat segs)"
  using assms
  by (simp add: word_less_nat_alt sampleblk_size sampleblk_sect_size_def sampleblk_capacity_eq unat_sector_end
        unat_sbytes_u64)

lemma sampleblk_step:
  assumes "sampleblk_good dev" "segs \<noteq> []" "unat s * 512 + length (concat segs) \<le> sampleblk_capacity"
  shows "sampleblk_loop rv (request_for dir s segs # q) dev =
    (let (d, segs') = disk_xfer dir (unat s * 512) segs (sb_data dev) in
     map_option (\<lambda>(done, dev). ((0, segs') # done, dev)) (sampleblk_loop 0 q (dev\<lparr>sb_data := d\<rparr>)))"
proof -
  have fit: "segs \<noteq> []" "unat s * 512 + length (concat segs) \<le> 52428800"
    using assms by (simp_all add: sampleblk_capacity_eq)
  then have "unat (s * sampleblk_sect_size) = unat s * 512"
    by (simp add: sampleblk_sect_size_def unat_sector)
  then show ?thesis
    using assms fit sampleblk_range [OF assms(1), of s segs] sampleblk_size [OF assms(1)]
    by (simp add: request_for_def sampleblk_segs_copy copy_segs_abstract sampleblk_capacity_eq Let_def
        sampleblk_good_def split: prod.split)
qed

lemma sampleblk_reject:
  assumes "sampleblk_good dev" "unat s < 18014398509481984" "length (concat segs) < 2147483648"
    and "sampleblk_capacity < unat s * 512 + length (concat segs)"
  shows "sampleblk_loop rv (request_for dir s segs # q) dev =
     map_option (\<lambda>(done, dev). ((- EIO, segs) # done, dev)) (sampleblk_loop (- EIO) q dev)"
  using assms by (simp add: request_for_def Let_def sampleblk_range)

lemma sampleblk_good_upd [simp]:
  "sampleblk_good dev \<Longrightarrow> length d = length (sb_data dev) \<Longrightarrow> sampleblk_good (dev\<lparr>sb_data := d\<rparr>)"
  by (simp add: sampleblk_good_def)

lemma sampleblk_good_length: "sampleblk_good dev \<Longrightarrow> length (sb_data dev) = sampleblk_capacity"
  by (simp add: sampleblk_good_def sampleblk_capacity_def)

definition sampleblk_xfer ::
    "io_dir \<Rightarrow> u64 \<Rightarrow> u8 list list \<Rightarrow> sampleblk_dev \<Rightarrow> (int \<times> sampleblk_dev \<times> u8 list list) option" where
  "sampleblk_xfer dir s segs dev =
     map_option (\<lambda>(done, dev). (fst (hd done), dev, snd (hd done))) (sampleblk_request [request_for dir s segs] dev)"

interpretation sampleblk: ram_disk sampleblk_xfer sb_data sampleblk_good sampleblk_capacity
  by unfold_locales
     (auto simp: sampleblk_xfer_def sampleblk_request_def sampleblk_step fits_def sampleblk_good_length Let_def
       disk_xfer_def split: io_dir.splits simp del: sampleblk_loop.simps(2))

text \<open>
  \<open>ramhd_req_func\<close> sees a request one segment at a time: the block layer presents the next
  segment, at the sector where the last one ended, each time \<open>__blk_end_request_cur\<close> is called.
\<close>

fun pieces :: "io_dir \<Rightarrow> u64 \<Rightarrow> u8 list list \<Rightarrow> req_piece list" where
  "pieces dir s [] = []"
| "pieces dir s (b # bs) =
     \<lparr>rp_pos = s, rp_dir = dir, rp_buffer = b\<rparr> # pieces dir (s + of_nat (length b div 512)) bs"

lemma copy_seg_length: "copy_seg dir pos d b = Some (d', b') \<Longrightarrow> length d' = length d \<and> length b' = length b"
  by (auto simp: copy_seg_def split: if_splits io_dir.splits)

lemma ramhd_req_func_pieces:
  assumes "unat s * 512 + length (concat segs) \<le> length d" "length d \<le> ramhd_capacity"
    and "list_all (\<lambda>b. 512 dvd length b) segs"
  shows "ramhd_req_func (pieces dir s segs) d = copy_segs dir (unat s * 512) d segs"
  using assms
proof (induction segs arbitrary: s d)
  case (Cons b bs)
  obtain k where k: "length b = 512 * k" using Cons.prems(3) by auto
  have bound: "unat s * 512 + 512 * k \<le> 8388608"
    using Cons.prems(1,2) k by (simp add: ramhd_capacity_eq)
  have next_s: "unat (s + of_nat k) = unat s + k"
    using bound by (simp add: unat_word_ariths unat_of_nat)
  show ?case
  proof (cases "copy_seg dir (unat s * 512) d b")
    case (Some r)
    obtain d' b' where r: "r = (d', b')" by (cases r)
    have len: "length d' = length d" "length b' = length b"
      using copy_seg_length Some r by blast+
    then show ?thesis
      using Some r Cons.prems k next_s bound Cons.IH [of "s + of_nat k" d']
      by (simp add: unat_sector_u32 algebra_simps)
  qed (use bound in \<open>simp add: unat_sector_u32\<close>)
qed simp

definition req_xfer :: "io_dir \<Rightarrow> u64 \<Rightarrow> u8 list list \<Rightarrow> u8 list \<Rightarrow> (int \<times> u8 list \<times> u8 list list) option" where
  "req_xfer dir s segs d = map_option (\<lambda>(d, segs). (0, d, segs)) (ramhd_req_func (pieces dir s segs) d)"

interpretation req: ram_disk req_xfer "\<lambda>d. d" "\<lambda>d. length d = ramhd_capacity" ramhd_capacity
  by unfold_locales
     (auto simp: req_xfer_def ramhd_req_func_pieces copy_segs_abstract fits_def length_disk_xfer split: prod.splits)

section \<open>Properties\<close>

text \<open>
  C28: an 8 MB disk of \<open>ramhd_mkreq.c\<close> behaves as a disk. A bio that writes whole sectors within
  the capacity completes with status 0 and hands its buffers back unchanged, a later read of the same
  sectors completes with status 0 and returns exactly the bytes written whatever the segmentation of
  the two bios, without changing the disk; and every byte of the disk outside the range written
  keeps its value.
\<close>

theorem ramhd_write_read:
  assumes "length d = ramhd_capacity" "fits ramhd_capacity s segs" "fits ramhd_capacity s bufs"
    and "length (concat bufs) = length (concat segs)"
  shows "\<exists>d1 got. ramhd_make_request (bio_for WRITE s segs) d = Some (0, d1, segs)
    \<and> ramhd_make_request (bio_for READ s bufs) d1 = Some (0, d1, got)
    \<and> concat got = concat segs \<and> map length got = map length bufs
    \<and> take (unat s * 512) d1 = take (unat s * 512) d
    \<and> drop (unat s * 512 + length (concat segs)) d1 = drop (unat s * 512 + length (concat segs)) d"
proof -
  have fit: "unat s * 512 + length (concat segs) \<le> length d"
    using assms by (simp add: fits_def)
  obtain d1 d2 got where r: "mkreq_xfer WRITE s segs d = Some (0, d1, segs)" "mkreq_xfer READ s bufs d1 = Some (0, d2, got)"
      "concat got = concat segs" "map length got = map length bufs" "d2 = d1"
    using mkreq.write_then_read [OF assms] by auto
  have "d1 = splice (unat s * 512) (concat segs) d"
    using mkreq.xfer_law [OF assms(1,2), of WRITE] r(1) by (auto simp: disk_xfer_def)
  then show ?thesis
    using r fit by (auto simp: mkreq_xfer_def)
qed

theorem ramhd_write_read_witness:
  "\<exists>d1 got. ramhd_make_request (bio_for WRITE 5 [replicate 512 7, replicate 1024 9]) (replicate ramhd_capacity 0)
      = Some (0, d1, [replicate 512 7, replicate 1024 9])
    \<and> ramhd_make_request (bio_for READ 5 [replicate 1536 0]) d1 = Some (0, d1, got)
    \<and> concat got = replicate 512 7 @ replicate 1024 9"
  using ramhd_write_read [of "replicate ramhd_capacity 0" 5 "[replicate 512 7, replicate 1024 9]" "[replicate 1536 0]"]
  by (auto simp: fits_def ramhd_capacity_eq)

text \<open>
  C29: the range check of \<open>ramhd_make_request\<close>. For a bio below sector \<open>2^54\<close> it is exact:
  the bio is refused with \<open>-EIO\<close>, the disk and the buffers untouched, just when its bytes go
  beyond the disk, and otherwise it is served without leaving the disk. Above, the 64-bit sum wraps
  around: the bio that ends at \<open>2^64\<close> passes the check and its copy leaves the disk.
\<close>

theorem ramhd_range_check:
  assumes "length d = ramhd_capacity" "unat s < 18014398509481984" "length (concat segs) < 4294967296"
  shows "(if unat s * 512 + length (concat segs) \<le> ramhd_capacity
     then \<exists>d' segs'. ramhd_make_request (bio_for dir s segs) d = Some (0, d', segs') \<and> length d' = length d
     else ramhd_make_request (bio_for dir s segs) d = Some (- EIO, d, segs))
    \<and> ramhd_make_request (bio_for dir 36028797018963967 [replicate 512 x]) d = None"
proof -
  have "unat (s * 512 + ucast (of_nat (length (concat segs)) :: u32)) = unat s * 512 + length (concat segs)"
    using assms by (subst unat_sector_end) (simp_all add: unat_bytes_u64)
  then have chk: "RAMHD_SIZE < s * 512 + ucast (of_nat (length (concat segs)) :: u32)
      \<longleftrightarrow> ramhd_capacity < unat s * 512 + length (concat segs)"
    by (simp add: word_less_nat_alt ramhd_capacity_def)
  have sec: "unat (s * 512) = unat s * 512"
    using assms by (intro unat_sector) simp
  have served: "\<exists>d' segs'. ramhd_make_request (bio_for dir s segs) d = Some (0, d', segs') \<and> length d' = length d"
    if "unat s * 512 + length (concat segs) \<le> ramhd_capacity"
    using that assms chk sec length_disk_xfer [of "unat s * 512" segs d dir]
    by (cases "disk_xfer dir (unat s * 512) segs d") (auto simp: ramhd_make_request_def bio_for_def RAMHD_SECTOR_SIZE_def copy_segs_abstract split: prod.split)
  have refused: "ramhd_make_request (bio_for dir s segs) d = Some (- EIO, d, segs)"
    if "\<not> unat s * 512 + length (concat segs) \<le> ramhd_capacity"
    using that chk by (simp add: ramhd_make_request_def bio_for_def RAMHD_SECTOR_SIZE_def)
  have "ramhd_make_request (bio_for dir 36028797018963967 [replicate 512 x]) d = None"
    using assms(1) by (simp add: ramhd_make_request_def bio_for_def ramhd_consts copy_seg_def ramhd_capacity_eq)
  then show ?thesis using served refused by simp
qed

theorem ramhd_range_check_witness:
  "ramhd_make_request (bio_for READ 16384 [[1]]) (replicate ramhd_capacity 0) = Some (- EIO, replicate ramhd_capacity 0, [[1]])
   \<and> ramhd_make_request (bio_for WRITE 36028797018963967 [replicate 512 1]) (replicate ramhd_capacity 0) = None"
  using ramhd_range_check [of "replicate ramhd_capacity 0" 16384 "[[1]]" READ]
    ramhd_range_check [of "replicate ramhd_capacity 0" 0 "[[1]]" WRITE 1]
  by (simp add: ramhd_capacity_eq)

text \<open>
  What the sampleblk driver promises for a queue: each request either goes beyond the disk, and is
  ended with \<open>-EIO\<close>, or is the transfer on the array of bytes.
\<close>

fun disk_serve :: "nat \<Rightarrow> op list \<Rightarrow> u8 list \<Rightarrow> (int \<times> u8 list list) list \<times> u8 list" where
  "disk_serve cap [] d = ([], d)"
| "disk_serve cap ((dir, s, segs) # ops) d =
     (if cap < unat s * 512 + length (concat segs)
      then let (out, d) = disk_serve cap ops d in ((- EIO, segs) # out, d)
      else let (d, segs) = disk_xfer dir (unat s * 512) segs d; (out, d) = disk_serve cap ops d
           in ((0, segs) # out, d))"

definition sized :: "op \<Rightarrow> bool" where
  "sized = (\<lambda>(dir, s, segs). segs \<noteq> [] \<and> unat s < 18014398509481984 \<and> length (concat segs) < 2147483648)"

lemma sampleblk_loop_refines:
  assumes "sampleblk_good dev" "list_all sized ops"
  shows "sampleblk_loop rv (map (\<lambda>(dir, s, segs). request_for dir s segs) ops) dev =
    (let (out, d) = disk_serve sampleblk_capacity ops (sb_data dev) in Some (out, dev\<lparr>sb_data := d\<rparr>))"
  using assms
proof (induction ops arbitrary: rv dev)
  case (Cons p ops)
  obtain dir s segs where p: "p = (dir, s, segs)" by (cases p)
  note sized = Cons.prems(2) [unfolded p sized_def, simplified, folded sized_def]
  show ?case
  proof (cases "sampleblk_capacity < unat s * 512 + length (concat segs)")
    case True
    then show ?thesis
      using sized Cons.prems(1) Cons.IH [OF Cons.prems(1)]
      by (simp add: p sampleblk_reject sized_def del: sampleblk_loop.simps split: prod.split)
  next
    case False
    obtain d segs' where x: "disk_xfer dir (unat s * 512) segs (sb_data dev) = (d, segs')" by force
    have "length d = length (sb_data dev)"
      using length_disk_xfer [of "unat s * 512" segs "sb_data dev" dir] False x Cons.prems(1)
      by (simp add: sampleblk_good_length)
    then show ?thesis
      using False sized x Cons.prems(1) Cons.IH [of "dev\<lparr>sb_data := d\<rparr>"]
      by (simp add: p sampleblk_step sized_def del: sampleblk_loop.simps split: prod.split)
  qed
qed simp


definition blank_sampleblk :: sampleblk_dev where
  "blank_sampleblk = \<lparr>sb_size = sampleblk_sect_size * sampleblk_nsects, sb_data = replicate sampleblk_capacity 0\<rparr>"

lemma blank_sampleblk_good: "sampleblk_good blank_sampleblk"
  by (simp add: blank_sampleblk_def sampleblk_good_def sampleblk_capacity_def)


text \<open>
  the status variable \<open>rv\<close> of \<open>sampleblk_request\<close> survives from one request to the next.
  A request without a segment (such as a flush) that follows one that went beyond the disk is ended
  with \<open>-EIO\<close> although nothing failed; on its own it is ended with 0.
\<close>

theorem sampleblk_stale_status:
  assumes "sampleblk_good dev" "sized (dir, s, segs)" "sampleblk_capacity < unat s * 512 + length (concat segs)"
    and "unat t * 512 \<le> sampleblk_capacity"
  shows "sampleblk_request [request_for dir s segs, request_for WRITE t []] dev = Some ([(- EIO, segs), (- EIO, [])], dev)
    \<and> sampleblk_request [request_for WRITE t []] dev = Some ([(0, [])], dev)"
proof -
  have empty: "sampleblk_loop rv [request_for WRITE t []] dev = Some ([(rv, [])], dev)" for rv
    using assms(4) sampleblk_range [OF assms(1), of t "[]"]
    by (simp add: request_for_def Let_def sampleblk_capacity_eq)
  show ?thesis
    using assms by (simp add: sampleblk_request_def sampleblk_reject empty sized_def del: sampleblk_loop.simps)
qed

theorem sampleblk_stale_status_witness:
  "sampleblk_request [request_for READ 102400 [[0]], request_for WRITE 0 []] blank_sampleblk
     = Some ([(- EIO, [[0]]), (- EIO, [])], blank_sampleblk)"
  using sampleblk_stale_status [OF blank_sampleblk_good, of READ 102400 "[[0]]" 0]
  by (simp add: sized_def sampleblk_capacity_eq)



end
