(* ===== verification/Module_Life.thy ===== *)
theory Module_Life
  imports Resources
begin

text \<open>
  Loading and unloading the example modules: \<open>seqfile_test.c\<close>, \<open>sysctl.c\<close>, \<open>single_open.c\<close>,
  \<open>demo_chr_dev.c\<close>, \<open>waitqueue.c\<close>, \<open>debugfs_demo.c\<close>, \<open>tracepoint-sample.c\<close>, the kobject and the
  device examples. Each function is the list of what it obtains from and gives back to the kernel, with
  the results of the calls as inputs; a call that fails obtains nothing. A loaded kobject is two things,
  its entry in sysfs and a reference that keeps its memory: \<open>kobject_del\<close> gives back the first only.
\<close>

section \<open>The modules\<close>

definition ct_init :: "bool \<Rightarrow> int \<times> string kop list" where
  "ct_init created = (if \<not> created then (- ENOMEM, []) else (0, [Got ''proc sequence'']))"

definition ct_exit :: "string kop list" where
  "ct_exit = [Gave ''proc sequence'']"

definition sysctl_example_init :: "bool \<Rightarrow> int \<times> string kop list" where
  "sysctl_example_init registered = (if \<not> registered then (-1, []) else (0, [Got ''sysctl'']))"

definition sysctl_example_exit :: "string kop list" where
  "sysctl_example_exit = [Gave ''sysctl'']"

text \<open>\<open>single_open.c\<close>: a failure is not reported, and unloading looks at the pointer.\<close>

definition seq_file_demo_init :: "bool \<Rightarrow> int \<times> string kop list" where
  "seq_file_demo_init created = (0, if created then [Got ''seq_file_demo''] else [])"

definition seq_file_demo_exit :: "bool \<Rightarrow> string kop list" where
  "seq_file_demo_exit created = (if created then [Gave ''seq_file_demo''] else [])"

definition demo_init :: "int \<Rightarrow> int \<Rightarrow> int \<times> string kop list" where
  "demo_init alloc add =
     (if alloc < 0 then (alloc, [])
      else if add < 0 then (add, [Got ''region''])
      else (0, [Got ''region'', Got ''cdev'']))"

definition demo_exit :: "string kop list" where
  "demo_exit = [Gave ''cdev'', Gave ''region'']"

text \<open>
  \<open>register_chrdev\<close> returns the major number it has chosen, or a negative error; the code tests for 0.
\<close>

definition globalvar_init :: "int \<Rightarrow> int \<times> string kop list" where
  "globalvar_init major = (if major = 0 then (-1, []) else (0, if 0 < major then [Got ''globalvar''] else []))"

definition globalvar_exit :: "string kop list" where
  "globalvar_exit = [Gave ''globalvar'']"

text \<open>
  \<open>debugfs_demo.c\<close>: \<open>kmalloc\<close>'s result is used unchecked (\<open>None\<close>: a fault). The variable
  \<open>root\<close> of the initialisation is a local one, so the global one that unloading removes is NULL and
  nothing is given back.
\<close>

definition debugfs_demo_init :: "bool \<Rightarrow> bool \<Rightarrow> bool \<Rightarrow> (int \<times> string kop list) option" where
  "debugfs_demo_init kmalloc dir file =
     (if \<not> kmalloc then None
      else
        let ops = Got ''data'' # (if dir then [Got ''dir''] else []) in
        if file then Some (0, ops @ [Got ''file''])
        else Some (- EINVAL, ops @ (if dir then [Gave ''dir''] else []) @ [Gave ''data'']))"

definition debugfs_demo_exit :: "string kop list" where
  "debugfs_demo_exit = []"

definition sample_init :: "bool \<Rightarrow> int \<times> string kop list" where
  "sample_init created = (if \<not> created then (- EPERM, []) else (0, [Got ''proc tracepoint-sample'', Got ''probe'']))"

definition sample_exit :: "string kop list" where
  "sample_exit = [Gave ''proc tracepoint-sample'']"

text \<open>
  \<open>kobj_init_add/kobj.c\<close>: two static objects, with the results of adding them. \<open>kobject_init\<close> and
  \<open>kobject_init_and_add\<close> make the caller the owner of a reference even when adding fails; only
  \<open>kobject_put\<close> gives it back, and no example calls that.
\<close>

definition init_and_add :: "string \<Rightarrow> int \<Rightarrow> int \<times> string kop list" where
  "init_and_add name ret =
     (let ops = [Got (''ref '' @ name)] in
      if ret \<noteq> 0 then (ret, ops) else (0, ops @ [Got (''sysfs '' @ name)]))"

definition kobject_del :: "string \<Rightarrow> string kop list" where
  "kobject_del name = [Gave (''sysfs '' @ name)]"

definition kobj_init :: "int \<Rightarrow> int \<Rightarrow> int \<times> string kop list" where
  "kobj_init added added1 =
     (let (ret, ops) = init_and_add ''kobj-init-add-seperate'' added in
      if ret \<noteq> 0 then (ret, ops)
      else
        let (ret, ops1) = init_and_add ''kobj-init-add'' added1 in
        if ret \<noteq> 0 then (ret, ops @ ops1) else (0, ops @ ops1))"

definition kobj_exit :: "string kop list" where
  "kobj_exit = kobject_del ''kobj-init-add-seperate'' @ kobject_del ''kobj-init-add''"

text \<open>
  \<open>kobj_create_add/kobj.c\<close>: whether each object could be made. The first step does not look at the
  result; unloading deletes \<open>parent\<close> twice and never \<open>child\<close>.
\<close>

definition create_and_add :: "string \<Rightarrow> string kop list" where
  "create_and_add name = [Got (''ref '' @ name), Got (''sysfs '' @ name)]"

definition create_parent :: "bool \<Rightarrow> int \<times> string kop list" where
  "create_parent parent = (0, if parent then create_and_add ''parent'' else [])"

definition create_child :: "bool \<Rightarrow> int \<times> string kop list" where
  "create_child child = (if \<not> child then (-1, []) else (0, create_and_add ''child''))"

definition create_init :: "bool \<Rightarrow> bool \<Rightarrow> int \<times> string kop list" where
  "create_init parent child =
     (let (ret, ops) = create_parent parent in
      if ret \<noteq> 0 then (ret, ops)
      else
        let (ret, ops1) = create_child child in
        if ret \<noteq> 0 then (ret, ops @ ops1) else (0, ops @ ops1))"

definition create_exit :: "bool \<Rightarrow> string kop list" where
  "create_exit parent =
     (if parent then kobject_del ''parent'' else []) @ (if parent then kobject_del ''parent'' else [])"

text \<open>
  \<open>kset.c\<close>: the results of creating the set and \<open>parent\<close>, of allocating and adding \<open>child\<close>, and
  of creating its attribute file. Adding a NULL \<open>child\<close> is a fault. \<open>kset_unregister\<close> gives back the
  set and its reference, so the set is one thing. Unloading follows a load that succeeded, where none of
  the three pointers is NULL.
\<close>

definition kset_init :: "bool \<Rightarrow> bool \<Rightarrow> bool \<Rightarrow> int \<Rightarrow> int \<Rightarrow> (int \<times> string kop list) option" where
  "kset_init kset parent kzalloc add file =
     (if \<not> kset then Some (-1, [])
      else if \<not> parent then Some (-1, [Got ''kset''])
      else if \<not> kzalloc then None
      else
        let ops = Got ''kset'' # create_and_add ''parent'';
            (ret, ops1) = init_and_add ''child'' add
        in if ret \<noteq> 0 then Some (ret, ops @ ops1)
           else if file \<noteq> 0 then Some (file, ops @ ops1)
           else Some (0, ops @ ops1 @ [Got ''childattr'']))"

definition kset_exit :: "string kop list" where
  "kset_exit = [Gave ''childattr''] @ kobject_del ''child'' @ kobject_del ''parent'' @ [Gave ''kset'']"

text \<open>
  The device examples: \<open>device_initialize\<close> makes the caller the owner of a reference, which only
  \<open>put_device\<close> gives back; \<open>device_add\<close> adds the device to the hierarchy, \<open>device_del\<close> takes it out.
  \<open>device_register\<close> is the first two in a row. What is returned is reported to the caller, who ignores it.
\<close>

definition device_demo_init_and_add :: "string \<Rightarrow> int \<Rightarrow> int \<times> string kop list" where
  "device_demo_init_and_add name ret =
     (let ops = [Got (''ref '' @ name)] in
      if ret \<noteq> 0 then (ret, ops) else (0, ops @ [Got (''device '' @ name)]))"

definition device_del :: "string \<Rightarrow> string kop" where
  "device_del name = Gave (''device '' @ name)"

definition device_demo_regiser :: "string \<Rightarrow> int \<Rightarrow> int \<times> string kop list" where
  "device_demo_regiser name ret =
     (if ret \<noteq> 0 then (ret, [Got (''ref '' @ name)]) else (0, [Got (''ref '' @ name), Got (''device '' @ name)]))"

definition device_demo_init :: "int \<Rightarrow> int \<times> string kop list" where
  "device_demo_init ret = (0, snd (device_demo_regiser ''dev-demo'' ret))"

definition device_demo_exit :: "string kop list" where
  "device_demo_exit = [device_del ''dev-demo'']"

text \<open>The same, in the two steps, in \<open>device_init_and_add\<close>.\<close>

definition device_add_init :: "int \<Rightarrow> int \<times> string kop list" where
  "device_add_init ret = (0, snd (device_demo_init_and_add ''dev-demo'' ret))"

definition device_add_exit :: "string kop list" where
  "device_add_exit = [device_del ''dev-demo'']"

lemma device_add_same: "device_add_init = device_demo_init" "device_add_exit = device_demo_exit"
  by (simp_all add: fun_eq_iff device_add_init_def device_demo_init_def device_demo_init_and_add_def
      device_demo_regiser_def device_add_exit_def device_demo_exit_def)

text \<open>
  The devices of \<open>device_class\<close>, each with whether it is in the class. \<open>class_create\<close> returns a
  class, or an error encoded as a pointer that is not NULL (here a negative number): the test for NULL
  (here 0) lets it pass, and adding a device to such a class is a fault.
\<close>

definition class_devices :: "(string \<times> bool) list" where
  "class_devices =
     [(''dev-demo'', False), (''dev-demo_noClass-noParent'', False), (''dev-demo_parent'', False),
      (''dev-demo_class'', True), (''dev-demo_class-parent'', True)]"

definition device_class_init :: "int \<Rightarrow> (string \<Rightarrow> int) \<Rightarrow> (int \<times> string kop list) option" where
  "device_class_init class_demo ret =
     (if class_demo = 0 then Some (-1, [])
      else if class_demo < 0 \<and> (\<exists>(n, in_class) \<in> set class_devices. in_class) then None
      else Some (0, Got ''class-demo'' # concat (map (\<lambda>d. snd (device_demo_init_and_add (fst d) (ret (fst d)))) class_devices)))"

definition device_class_exit :: "string kop list" where
  "device_class_exit = map (device_del \<circ> fst) class_devices @ [Gave ''class-demo'']"

section \<open>Modules that clean up\<close>

interpretation seqfile: tidy_module ct_init "\<lambda>_. ct_exit"
  by unfold_locales (simp_all add: life_defs ct_init_def ct_exit_def ENOMEM_def)

interpretation sysctl: tidy_module sysctl_example_init "\<lambda>_. sysctl_example_exit"
  by unfold_locales (simp_all add: life_defs sysctl_example_init_def sysctl_example_exit_def)

interpretation single: tidy_module seq_file_demo_init seq_file_demo_exit
  by unfold_locales (simp_all add: life_defs seq_file_demo_init_def seq_file_demo_exit_def)

section \<open>Modules that do not\<close>

text \<open>The character device keeps its number when adding the device fails.\<close>

lemma demo_leak:
  "leaked (life (demo_init alloc add) demo_exit) = (if 0 \<le> alloc \<and> add < 0 then [''region''] else [])
   \<and> misused (life (demo_init alloc add) demo_exit) = []"
  by (simp add: life_defs demo_init_def demo_exit_def)

text \<open>The wait queue module takes an error of \<open>register_chrdev\<close> for a success.\<close>

lemma globalvar_misuse:
  "leaked (life (globalvar_init major) globalvar_exit) = []
   \<and> misused (life (globalvar_init major) globalvar_exit) = (if major < 0 then [''globalvar''] else [])"
  by (simp add: life_defs globalvar_init_def globalvar_exit_def)

text \<open>Unloading \<open>debugfs_demo.c\<close> leaves everything it made in place, although its functions are gone.\<close>

lemma debugfs_leak:
  "\<exists>r. debugfs_demo_init True True file = Some r
     \<and> leaked (life r debugfs_demo_exit) = (if file then [''file'', ''dir'', ''data''] else [])"
  by (simp add: life_defs debugfs_demo_init_def debugfs_demo_exit_def EINVAL_def)

text \<open>The tracepoint module leaves its probe registered.\<close>

lemma sample_leak:
  "leaked (life (sample_init created) sample_exit) = (if created then [''probe''] else [])"
  by (simp add: life_defs sample_init_def sample_exit_def EPERM_def)

text \<open>
  The kobject examples. No reference is ever given back; when a later step fails, what the earlier ones
  made stays too.
\<close>

lemma kobj_leak:
  "leaked (life (kobj_init added added1) kobj_exit) =
     (if added \<noteq> 0 then [''ref kobj-init-add-seperate'']
      else if added1 \<noteq> 0 then [''ref kobj-init-add'', ''sysfs kobj-init-add-seperate'', ''ref kobj-init-add-seperate'']
      else [''ref kobj-init-add'', ''ref kobj-init-add-seperate''])
   \<and> misused (life (kobj_init added added1) kobj_exit) = []"
  by (simp add: life_defs kobj_init_def init_and_add_def kobj_exit_def kobject_del_def)

lemma create_leak:
  "leaked (life (create_init parent child) (create_exit parent)) =
     (if child then [''sysfs child'', ''ref child''] @ (if parent then [''ref parent''] else [])
      else if parent then [''sysfs parent'', ''ref parent''] else [])
   \<and> misused (life (create_init parent child) (create_exit parent)) = (if parent \<and> child then [''sysfs parent''] else [])"
  by (simp add: life_defs create_init_def create_parent_def create_child_def create_exit_def create_and_add_def
      kobject_del_def)

lemma kset_leak:
  "kset_init kset parent kzalloc add file = Some r \<Longrightarrow>
     leaked (life r kset_exit) =
       (if \<not> kset then [] else if \<not> parent then [''kset'']
        else if add \<noteq> 0 then [''ref child'', ''sysfs parent'', ''ref parent'', ''kset'']
        else if file \<noteq> 0 then [''sysfs child'', ''ref child'', ''sysfs parent'', ''ref parent'', ''kset'']
        else [''ref child'', ''ref parent''])
     \<and> misused (life r kset_exit) = []"
  by (auto simp: life_defs kset_init_def kset_exit_def init_and_add_def create_and_add_def kobject_del_def
      split: if_splits)

lemma kset_fault: "kset_init kset parent kzalloc add file = None \<longleftrightarrow> kset \<and> parent \<and> \<not> kzalloc"
  by (simp add: kset_init_def Let_def split: prod.split)

text \<open>The device examples delete the devices that could not be added, and keep every reference.\<close>

lemma device_misuse:
  "leaked (life (device_demo_init ret) device_demo_exit) = [''ref dev-demo'']
   \<and> misused (life (device_demo_init ret) device_demo_exit) = (if ret \<noteq> 0 then [''device dev-demo''] else [])"
  by (simp add: life_defs device_demo_init_def device_demo_regiser_def device_demo_exit_def device_del_def)

lemma device_class_misuse:
  assumes "device_class_init class_demo ret = Some r" and "class_demo \<noteq> 0"
  shows "leaked (life r device_class_exit) = map (\<lambda>d. ''ref '' @ fst d) (rev class_devices)"
    and "misused (life r device_class_exit) = map (\<lambda>d. ''device '' @ fst d) (filter (\<lambda>d. ret (fst d) \<noteq> 0) class_devices)"
proof -
  define made where "made n = (''ref '' @ n) # (if ret n = 0 then [''device '' @ n] else [])" for n
  define ns where "ns = map fst class_devices"
  have add: "snd (device_demo_init_and_add n (ret n)) = map Got (made n)" for n
    by (simp add: device_demo_init_and_add_def made_def)
  have r: "r = (0, map Got (''class-demo'' # concat (map made ns)))"
    using assms by (auto simp: device_class_init_def ns_def add map_concat comp_def split: if_splits)
  have ex: "device_class_exit = map Gave (map (\<lambda>n. ''device '' @ n) ns @ [''class-demo''])"
    by (simp add: device_class_exit_def device_del_def ns_def)
  let ?rs = "map (\<lambda>n. ''device '' @ n) ns @ [''class-demo'']"
  have ns: "distinct ns" by (simp add: ns_def class_devices_def)
  then have made: "distinct (''class-demo'' # concat (map made ns))"
    by (induction ns) (auto simp: made_def)
  have keep: "filter (\<lambda>x. x \<notin> set ?rs) (made n) = [''ref '' @ n]" if "n \<in> set ns" for n
    using that by (auto simp: made_def)
  have "filter (\<lambda>x. x \<notin> set ?rs) (concat (map made ns)) = concat (map (\<lambda>n. [''ref '' @ n]) ns)"
    unfolding filter_concat map_map by (intro arg_cong [where f = concat] map_cong refl) (simp only: comp_def keep)
  then show "leaked (life r device_class_exit) = map (\<lambda>d. ''ref '' @ fst d) (rev class_devices)"
    unfolding r ex got_gave(1) [OF made]
    by (simp add: rev_filter [symmetric] ns_def concat_map_singleton rev_map comp_def)
  have rs: "distinct ?rs" using ns by (auto simp: distinct_map inj_on_def)
  have missing: "''device '' @ n \<notin> set (''class-demo'' # concat (map made ns)) \<longleftrightarrow> ret n \<noteq> 0" if "n \<in> set ns" for n
    using that by (auto simp: made_def)
  have "filter (\<lambda>x. x \<notin> set (''class-demo'' # concat (map made ns))) ?rs = map (\<lambda>n. ''device '' @ n) (filter (\<lambda>n. ret n \<noteq> 0) ns)"
    unfolding filter_append filter_map comp_def using missing by (simp cong: filter_cong)
  then show "misused (life r device_class_exit) = map (\<lambda>d. ''device '' @ fst d) (filter (\<lambda>d. ret (fst d) \<noteq> 0) class_devices)"
    unfolding r ex got_gave(2) [OF rs] by (simp add: ns_def filter_map comp_def)
qed

lemma device_class_fault: "device_class_init class_demo ret = None \<longleftrightarrow> class_demo < 0"
  by (auto simp: device_class_init_def class_devices_def)

end
