(* ===== verification/Ramhd_Life.thy ===== *)
theory Ramhd_Life
  imports Ramdisk_Correct Module_Life
begin

text \<open>
  Loading and unloading the two \<open>ramhd\<close> drivers, \<open>ramhd_mkreq.c\<close> and \<open>ramhd_req.c\<close>. The set-up of
  both is the same but for the order of the steps and what is checked. The answers of the kernel's
  allocators are inputs: for device \<open>i\<close>, \<open>vm i\<close> of \<open>vmalloc\<close>, \<open>kz i\<close> of \<open>kzalloc\<close>, \<open>q i\<close> of the
  call that makes the queue and \<open>gd i\<close> of \<open>alloc_disk\<close>. A use of a NULL pointer is a fault (\<open>None\<close>),
  and so is \<open>add_disk\<close> on a disk without a queue. What is obtained and given back is kept in a log.
\<close>

section \<open>The state of the modules\<close>

definition RAMHD_MAX_DEVICE :: nat where "RAMHD_MAX_DEVICE = 2"
definition RAMHD_MAX_PARTITIONS :: nat where "RAMHD_MAX_PARTITIONS = 4"

record gendisk =
  gd_major :: int
  gd_first_minor :: nat
  gd_disk_name :: string
  gd_capacity :: u64

text \<open>\<open>rd_data\<close> is the number of the buffer in \<open>sdisk\<close>, \<open>None\<close> for NULL.\<close>

record RAMHD_DEV =
  rd_data :: "nat option"
  rd_queue :: bool
  rd_gd :: "gendisk option"

record ramhd =
  sdisk :: "u8 list option list"
  rdev :: "RAMHD_DEV option list"
  ramhd_major :: int
  kops :: "string kop list"

definition ramhd_unloaded :: ramhd where
  "ramhd_unloaded = \<lparr>sdisk = replicate RAMHD_MAX_DEVICE None, rdev = replicate RAMHD_MAX_DEVICE None, ramhd_major = 0, kops = []\<rparr>"

definition res :: "string \<Rightarrow> nat \<Rightarrow> string" where
  "res kind i = kind @ [char_of (48 + i)]"

definition logged :: "string kop list \<Rightarrow> ramhd \<Rightarrow> ramhd" where
  "logged ops s = s\<lparr>kops := kops s @ ops\<rparr>"

abbreviation devices :: "nat list" where
  "devices \<equiv> [0..<RAMHD_MAX_DEVICE]"

section \<open>Memory\<close>

definition zeroed :: "u8 list" where
  "zeroed = replicate (unat RAMHD_SIZE) 0"

primrec space_loop :: "(nat \<Rightarrow> bool) \<Rightarrow> nat list \<Rightarrow> ramhd \<Rightarrow> int \<times> ramhd" where
  "space_loop vm [] s = (0, s)"
| "space_loop vm (i # is) s =
     (if \<not> vm i then (- ENOMEM, s\<lparr>sdisk := (sdisk s)[i := None]\<rparr>)
      else space_loop vm is (logged [Got (res ''sdisk'' i)] (s\<lparr>sdisk := (sdisk s)[i := Some zeroed]\<rparr>)))"

definition ramhd_space_init :: "(nat \<Rightarrow> bool) \<Rightarrow> ramhd \<Rightarrow> int \<times> ramhd" where
  "ramhd_space_init vm s = space_loop vm devices s"

text \<open>\<open>vfree(NULL)\<close> does nothing.\<close>

definition ramhd_space_clean :: "ramhd \<Rightarrow> ramhd" where
  "ramhd_space_clean s = logged [Gave (res ''sdisk'' i). i \<leftarrow> devices, sdisk s ! i \<noteq> None] s"

primrec ramdev_loop :: "(nat \<Rightarrow> bool) \<Rightarrow> nat list \<Rightarrow> ramhd \<Rightarrow> int \<times> ramhd" where
  "ramdev_loop kz [] s = (0, s)"
| "ramdev_loop kz (i # is) s =
     (if \<not> kz i then (- ENOMEM, s\<lparr>rdev := (rdev s)[i := None]\<rparr>)
      else ramdev_loop kz is (logged [Got (res ''rdev'' i)]
             (s\<lparr>rdev := (rdev s)[i := Some \<lparr>rd_data = None, rd_queue = False, rd_gd = None\<rparr>]\<rparr>)))"

definition alloc_ramdev :: "(nat \<Rightarrow> bool) \<Rightarrow> ramhd \<Rightarrow> int \<times> ramhd" where
  "alloc_ramdev kz s = ramdev_loop kz devices s"

definition clean_ramdev :: "ramhd \<Rightarrow> ramhd" where
  "clean_ramdev s = logged [Gave (res ''rdev'' i). i \<leftarrow> devices, rdev s ! i \<noteq> None] s"

text \<open>\<open>ramhd_req.c\<close> has its own copies of the four functions.\<close>

definition req_space_init :: "(nat \<Rightarrow> bool) \<Rightarrow> ramhd \<Rightarrow> int \<times> ramhd" where
  "req_space_init vm s = space_loop vm devices s"

definition req_space_clean :: "ramhd \<Rightarrow> ramhd" where
  "req_space_clean s = logged [Gave (res ''sdisk'' i). i \<leftarrow> devices, sdisk s ! i \<noteq> None] s"

definition req_alloc_ramdev :: "(nat \<Rightarrow> bool) \<Rightarrow> ramhd \<Rightarrow> int \<times> ramhd" where
  "req_alloc_ramdev kz s = ramdev_loop kz devices s"

definition req_clean_ramdev :: "ramhd \<Rightarrow> ramhd" where
  "req_clean_ramdev s = logged [Gave (res ''rdev'' i). i \<leftarrow> devices, rdev s ! i \<noteq> None] s"

lemma req_copies [simp]:
  "req_space_init = ramhd_space_init" "req_space_clean = ramhd_space_clean"
  "req_alloc_ramdev = alloc_ramdev" "req_clean_ramdev = clean_ramdev"
  by (simp_all add: fun_eq_iff req_space_init_def ramhd_space_init_def req_space_clean_def ramhd_space_clean_def
      req_alloc_ramdev_def alloc_ramdev_def req_clean_ramdev_def clean_ramdev_def)

section \<open>Loading\<close>

definition buffer_of :: "nat \<Rightarrow> ramhd \<Rightarrow> nat option" where
  "buffer_of i s = (if sdisk s ! i = None then None else Some i)"

definition ramhd_gendisk :: "string \<Rightarrow> nat \<Rightarrow> ramhd \<Rightarrow> gendisk" where
  "ramhd_gendisk name i s =
     \<lparr>gd_major = ramhd_major s, gd_first_minor = i * RAMHD_MAX_PARTITIONS, gd_disk_name = name @ [char_of (97 + i)],
      gd_capacity = RAMHD_SECTOR_TOTAL\<rparr>"

text \<open>The body of the loop of \<open>ramhd_mkreq.c\<close>: \<open>blk_queue_make_request\<close> uses the queue at once.\<close>

definition mkreq_setup :: "(nat \<Rightarrow> bool) \<Rightarrow> (nat \<Rightarrow> bool) \<Rightarrow> nat \<Rightarrow> ramhd \<Rightarrow> ramhd option" where
  "mkreq_setup q gd i s =
     (case rdev s ! i of None \<Rightarrow> None
      | Some dev \<Rightarrow>
          if \<not> q i then None
          else if \<not> gd i then None
          else Some (logged [Got (res ''queue'' i), Got (res ''gendisk'' i), Got (res ''disk'' i)]
                 (s\<lparr>rdev := (rdev s)[i := Some (dev\<lparr>rd_data := buffer_of i s, rd_queue := True,
                      rd_gd := Some (ramhd_gendisk ''ramhd'' i s)\<rparr>)]\<rparr>)))"

text \<open>The body of the loop of \<open>ramhd_req.c\<close>: the disk is allocated before the queue.\<close>

definition req_setup :: "(nat \<Rightarrow> bool) \<Rightarrow> (nat \<Rightarrow> bool) \<Rightarrow> nat \<Rightarrow> ramhd \<Rightarrow> ramhd option" where
  "req_setup q gd i s =
     (case rdev s ! i of None \<Rightarrow> None
      | Some dev \<Rightarrow>
          if \<not> gd i then None
          else if \<not> q i then None
          else Some (logged [Got (res ''gendisk'' i), Got (res ''queue'' i), Got (res ''disk'' i)]
                 (s\<lparr>rdev := (rdev s)[i := Some (dev\<lparr>rd_data := buffer_of i s, rd_queue := True,
                      rd_gd := Some (ramhd_gendisk ''ramsd'' i s)\<rparr>)]\<rparr>)))"

primrec each_device :: "(nat \<Rightarrow> ramhd \<Rightarrow> ramhd option) \<Rightarrow> nat list \<Rightarrow> ramhd \<Rightarrow> ramhd option" where
  "each_device f [] s = Some s"
| "each_device f (i # is) s = Option.bind (f i s) (each_device f is)"

definition register_blkdev :: "int \<Rightarrow> ramhd \<Rightarrow> ramhd" where
  "register_blkdev major s = logged (if 0 < major then [Got ''major''] else []) (s\<lparr>ramhd_major := major\<rparr>)"

definition mkreq_init ::
    "(nat \<Rightarrow> bool) \<Rightarrow> (nat \<Rightarrow> bool) \<Rightarrow> int \<Rightarrow> (nat \<Rightarrow> bool) \<Rightarrow> (nat \<Rightarrow> bool) \<Rightarrow> ramhd \<Rightarrow> (int \<times> ramhd) option" where
  "mkreq_init vm kz major q gd s =
     (let (err, s) = ramhd_space_init vm s in
      if err \<noteq> 0 then Some (err, s)
      else let (_, s) = alloc_ramdev kz s; s = register_blkdev major s
           in map_option (Pair 0) (each_device (mkreq_setup q gd) devices s))"

text \<open>The other driver looks at neither result.\<close>

definition req_init ::
    "(nat \<Rightarrow> bool) \<Rightarrow> (nat \<Rightarrow> bool) \<Rightarrow> int \<Rightarrow> (nat \<Rightarrow> bool) \<Rightarrow> (nat \<Rightarrow> bool) \<Rightarrow> ramhd \<Rightarrow> (int \<times> ramhd) option" where
  "req_init vm kz major q gd s =
     (let (_, s) = req_space_init vm s; (_, s) = req_alloc_ramdev kz s; s = register_blkdev major s
      in map_option (Pair 0) (each_device (req_setup q gd) devices s))"

section \<open>Unloading\<close>

text \<open>\<open>del_gendisk\<close>, \<open>put_disk\<close> and \<open>blk_cleanup_queue\<close>; the first faults on a NULL disk.\<close>

definition ramhd_teardown :: "nat \<Rightarrow> ramhd \<Rightarrow> ramhd option" where
  "ramhd_teardown i s =
     (case rdev s ! i of None \<Rightarrow> None
      | Some dev \<Rightarrow>
          if rd_gd dev = None then None
          else Some (logged [Gave (res ''disk'' i), Gave (res ''gendisk'' i), Gave (res ''queue'' i)] s))"

definition unregister_blkdev :: "ramhd \<Rightarrow> ramhd" where
  "unregister_blkdev s = logged [Gave ''major''] s"

definition mkreq_exit :: "ramhd \<Rightarrow> ramhd option" where
  "mkreq_exit s = map_option (\<lambda>s. unregister_blkdev (ramhd_space_clean (clean_ramdev s))) (each_device ramhd_teardown devices s)"

definition req_exit :: "ramhd \<Rightarrow> ramhd option" where
  "req_exit s = map_option (\<lambda>s. req_space_clean (req_clean_ramdev (unregister_blkdev s))) (each_device ramhd_teardown devices s)"

section \<open>The two devices\<close>

lemma devices_eq: "devices = [0, Suc 0]"
  by (simp add: RAMHD_MAX_DEVICE_def numeral_2_eq_2 upt_rec)

lemma less_max_device: "i < RAMHD_MAX_DEVICE \<longleftrightarrow> i = 0 \<or> i = Suc 0"
  by (auto simp: RAMHD_MAX_DEVICE_def)

lemma ramhd_unloaded_eq: "ramhd_unloaded = \<lparr>sdisk = [None, None], rdev = [None, None], ramhd_major = 0, kops = []\<rparr>"
  by (simp add: ramhd_unloaded_def RAMHD_MAX_DEVICE_def numeral_2_eq_2)

lemma kops_unloaded [simp]: "kops ramhd_unloaded = []"
  by (simp add: ramhd_unloaded_eq)

lemma res_eq: "res kind 0 = kind @ ''0''" "res kind (Suc 0) = kind @ ''1''"
  by (simp_all add: res_def) code_simp+

lemma capacity_fills: "RAMHD_SECTOR_TOTAL * RAMHD_SECTOR_SIZE = RAMHD_SIZE"
  by (simp add: ramhd_consts)

lemmas ramhd_defs = devices_eq ramhd_unloaded_eq logged_def ramhd_space_init_def alloc_ramdev_def register_blkdev_def
  buffer_of_def less_max_device Let_def

lemmas ramhd_exit_defs = ramhd_teardown_def ramhd_space_clean_def clean_ramdev_def unregister_blkdev_def

text \<open>A device that is ready: a queue, a disk with its own minor numbers, and a capacity that fills the buffer.\<close>

definition ramhd_ready :: "int \<Rightarrow> ramhd \<Rightarrow> nat \<Rightarrow> bool" where
  "ramhd_ready major s i \<longleftrightarrow>
     (case rdev s ! i of None \<Rightarrow> False | Some dev \<Rightarrow> rd_queue dev \<and>
        (case rd_gd dev of None \<Rightarrow> False | Some g \<Rightarrow>
           gd_major g = major \<and> gd_first_minor g = 4 * i \<and> gd_capacity g * RAMHD_SECTOR_SIZE = RAMHD_SIZE))"

text \<open>The disk of a device: the buffer its data pointer names.\<close>

definition ramhd_disk :: "ramhd \<Rightarrow> nat \<Rightarrow> u8 list option" where
  "ramhd_disk s i = Option.bind (rdev s ! i) (\<lambda>dev. Option.bind (rd_data dev) (\<lambda>j. sdisk s ! j))"

lemmas ready_defs = ramhd_ready_def ramhd_disk_def ramhd_gendisk_def RAMHD_MAX_PARTITIONS_def capacity_fills

text \<open>The state after loading with success: which buffers there are, the names of the disks, and the log.\<close>

definition loaded_dev :: "string \<Rightarrow> int \<Rightarrow> nat \<Rightarrow> bool \<Rightarrow> RAMHD_DEV" where
  "loaded_dev name major i buf = \<lparr>rd_data = (if buf then Some i else None), rd_queue = True,
     rd_gd = Some \<lparr>gd_major = major, gd_first_minor = 4 * i, gd_disk_name = name @ [char_of (97 + i)], gd_capacity = RAMHD_SECTOR_TOTAL\<rparr>\<rparr>"

definition loaded :: "string \<Rightarrow> int \<Rightarrow> bool \<Rightarrow> bool \<Rightarrow> string kop list \<Rightarrow> ramhd" where
  "loaded name major buf0 buf1 ops =
     \<lparr>sdisk = [if buf0 then Some zeroed else None, if buf1 then Some zeroed else None],
      rdev = [Some (loaded_dev name major 0 buf0), Some (loaded_dev name major 1 buf1)], ramhd_major = major, kops = ops\<rparr>"

definition all_ok :: "(nat \<Rightarrow> bool) \<Rightarrow> bool" where
  "all_ok f \<longleftrightarrow> f 0 \<and> f 1"

definition mkreq_ops :: "string kop list" where
  "mkreq_ops = map Got ([''sdisk0'', ''sdisk1'', ''rdev0'', ''rdev1'', ''major'',
     ''queue0'', ''gendisk0'', ''disk0'', ''queue1'', ''gendisk1'', ''disk1''])"

definition req_ops :: "bool \<Rightarrow> bool \<Rightarrow> string kop list" where
  "req_ops buf0 buf1 = map Got ((if buf0 then [''sdisk0''] else []) @ (if buf1 then [''sdisk1''] else [])
     @ [''rdev0'', ''rdev1'', ''major'', ''gendisk0'', ''queue0'', ''disk0'', ''gendisk1'', ''queue1'', ''disk1''])"

lemma mkreq_init_eq:
  assumes "0 < major"
  shows "mkreq_init vm kz major q gd ramhd_unloaded =
    (if \<not> vm 0 then Some (- ENOMEM, ramhd_unloaded)
     else if \<not> vm 1 then Some (- ENOMEM, ramhd_unloaded\<lparr>sdisk := [Some zeroed, None], kops := [Got ''sdisk0'']\<rparr>)
     else if all_ok kz \<and> all_ok q \<and> all_ok gd then Some (0, loaded ''ramhd'' major True True mkreq_ops)
     else None)"
  using assms
  by (simp add: mkreq_init_def ramhd_defs mkreq_setup_def ENOMEM_def all_ok_def loaded_def loaded_dev_def mkreq_ops_def res_eq
      ramhd_gendisk_def RAMHD_MAX_PARTITIONS_def)

lemma req_init_eq:
  assumes "0 < major"
  shows "req_init vm kz major q gd ramhd_unloaded =
    (if all_ok kz \<and> all_ok q \<and> all_ok gd
     then Some (0, loaded ''ramsd'' major (vm 0) (vm 0 \<and> vm 1) (req_ops (vm 0) (vm 0 \<and> vm 1)))
     else None)"
  using assms
  by (simp add: req_init_def ramhd_defs req_setup_def ENOMEM_def all_ok_def loaded_def loaded_dev_def req_ops_def res_eq
      ramhd_gendisk_def RAMHD_MAX_PARTITIONS_def)

lemma loaded_ready:
  "i < RAMHD_MAX_DEVICE \<Longrightarrow> ramhd_ready major (loaded name major buf0 buf1 ops) i"
  "ramhd_disk (loaded name major buf0 buf1 ops) 0 = (if buf0 then Some zeroed else None)"
  "ramhd_disk (loaded name major buf0 buf1 ops) 1 = (if buf1 then Some zeroed else None)"
  by (auto simp: less_max_device loaded_def loaded_dev_def ramhd_ready_def ramhd_disk_def capacity_fills)

definition torn_down :: "string list" where
  "torn_down = [''disk0'', ''gendisk0'', ''queue0'', ''disk1'', ''gendisk1'', ''queue1'']"

definition buffers :: "bool \<Rightarrow> bool \<Rightarrow> string list" where
  "buffers buf0 buf1 = (if buf0 then [''sdisk0''] else []) @ (if buf1 then [''sdisk1''] else [])"

lemma exit_kops:
  "map_option kops (mkreq_exit (loaded name major buf0 buf1 ops)) =
     Some (ops @ map Gave (torn_down @ [''rdev0'', ''rdev1''] @ buffers buf0 buf1 @ [''major'']))"
  "map_option kops (req_exit (loaded name major buf0 buf1 ops)) =
     Some (ops @ map Gave (torn_down @ [''major'', ''rdev0'', ''rdev1''] @ buffers buf0 buf1))"
  by (simp_all add: mkreq_exit_def req_exit_def loaded_def loaded_dev_def ramhd_exit_defs devices_eq logged_def res_eq
      torn_down_def buffers_def)

lemma mkreq_balanced:
  "\<exists>s'. mkreq_exit (loaded name major True True mkreq_ops) = Some s' \<and> leaked (kops s') = [] \<and> misused (kops s') = []"
  using exit_kops(1) [of name major True True mkreq_ops]
  by (auto simp: mkreq_ops_def torn_down_def buffers_def simp del: list.map intro!: balanced [THEN conjunct1] balanced [THEN conjunct2])

lemma req_balanced:
  "\<exists>s'. req_exit (loaded name major buf0 buf1 (req_ops buf0 buf1)) = Some s' \<and> leaked (kops s') = [] \<and> misused (kops s') = []"
  using exit_kops(2) [of name major buf0 buf1 "req_ops buf0 buf1"]
  by (auto simp: req_ops_def torn_down_def buffers_def simp del: list.map map_append intro!: balanced [THEN conjunct1] balanced [THEN conjunct2])

section \<open>Properties\<close>

lemma mkreq_life:
  assumes "0 < major" and "mkreq_init vm kz major q gd ramhd_unloaded = Some (err, s)"
  shows "if vm 0 \<and> vm 1
    then err = 0 \<and> (\<forall>i < RAMHD_MAX_DEVICE. ramhd_ready major s i \<and> ramhd_disk s i = Some zeroed)
      \<and> (\<exists>s'. mkreq_exit s = Some s' \<and> leaked (kops s') = [] \<and> misused (kops s') = [])
    else err = - ENOMEM \<and> leaked (kops s) = (if vm 0 then [''sdisk0''] else [])"
  using assms(2) mkreq_balanced [of "''ramhd''" major]
  by (auto simp: mkreq_init_eq [OF assms(1)] less_max_device loaded_ready [simplified] life_defs split: if_splits)

lemma req_life:
  assumes "0 < major" and "req_init vm kz major q gd ramhd_unloaded = Some (err, s)"
  shows "err = 0 \<and> (\<forall>i < RAMHD_MAX_DEVICE. ramhd_ready major s i \<and> ramhd_disk s i = (if \<forall>j \<le> i. vm j then Some zeroed else None))
    \<and> (\<exists>s'. req_exit s = Some s' \<and> leaked (kops s') = [] \<and> misused (kops s') = [])"
  using assms(2) req_balanced [of "''ramsd''" major "vm 0" "vm 0 \<and> vm 1"]
  by (auto simp: req_init_eq [OF assms(1)] less_max_device loaded_ready [simplified] le_Suc_eq split: if_splits)



end
