(* ===== verification/Kernel_List.thy ===== *)
theory Kernel_List
  imports Prelude
begin

text \<open>
  The interface of \<open>linux/list.h\<close> that the list examples use. The lists are the kernel's, not
  the repository's, so they are a parameter: a record of operations on a list of node addresses. The
  hypothesis \<open>klist_ok\<close> is their documented behaviour. An iteration with a \<open>_safe\<close> macro, which
  fetches the next entry before its body runs, visits the entries the list has when it starts.
  Strings of the program are \<open>string\<close> without the terminating NUL; a \<open>char\<close> array is the list of
  its characters.
\<close>

type_synonym addr = nat

record 'l klist =
  kl_init :: 'l
  kl_add_head :: "addr \<Rightarrow> 'l \<Rightarrow> 'l"
  kl_add_tail :: "addr \<Rightarrow> 'l \<Rightarrow> 'l"
  kl_del :: "addr \<Rightarrow> 'l \<Rightarrow> 'l"
  kl_entries :: "'l \<Rightarrow> addr list"

definition klist_ok :: "'l klist \<Rightarrow> bool" where
  "klist_ok K \<longleftrightarrow>
     kl_entries K (kl_init K) = []
   \<and> (\<forall>p l. kl_entries K (kl_add_head K p l) = p # kl_entries K l)
   \<and> (\<forall>p l. kl_entries K (kl_add_tail K p l) = kl_entries K l @ [p])
   \<and> (\<forall>p l. kl_entries K (kl_del K p l) = remove1 p (kl_entries K l))"

lemma klist_init [simp]: "klist_ok K \<Longrightarrow> kl_entries K (kl_init K) = []"
  and klist_add_head [simp]: "klist_ok K \<Longrightarrow> kl_entries K (kl_add_head K p l) = p # kl_entries K l"
  and klist_add_tail [simp]: "klist_ok K \<Longrightarrow> kl_entries K (kl_add_tail K p l) = kl_entries K l @ [p]"
  and klist_del [simp]: "klist_ok K \<Longrightarrow> kl_entries K (kl_del K p l) = remove1 p (kl_entries K l)"
  by (simp_all add: klist_ok_def)

text \<open>The hypothesis can hold: sequences of addresses are such lists.\<close>

definition plain_list :: "addr list klist" where
  "plain_list = \<lparr>kl_init = [], kl_add_head = (#), kl_add_tail = (\<lambda>p l. l @ [p]), kl_del = remove1, kl_entries = (\<lambda>l. l)\<rparr>"

lemma plain_list_ok [simp]: "klist_ok plain_list"
  by (simp add: klist_ok_def plain_list_def)

text \<open>
  The allocator: given the heap it answers NULL or an address that is not in use. The example
  allocator takes the least free address.
\<close>

type_synonym 'a heap = "(addr \<times> 'a) list"

definition kmalloc_ok :: "('a heap \<Rightarrow> addr option) \<Rightarrow> bool" where
  "kmalloc_ok kmalloc \<longleftrightarrow> (\<forall>h p. kmalloc h = Some p \<longrightarrow> p \<notin> fst ` set h)"

definition top_alloc :: "'a heap \<Rightarrow> addr option" where
  "top_alloc h = Some (Suc (foldr max (map fst h) 0))"

lemma kmalloc_fresh: "kmalloc_ok kmalloc \<Longrightarrow> kmalloc h = Some p \<Longrightarrow> p \<notin> fst ` set h"
  by (simp add: kmalloc_ok_def)

lemma foldr_max_ge: "(x :: nat) \<in> set xs \<Longrightarrow> x \<le> foldr max xs 0"
  by (induction xs) auto

lemma top_alloc_ok [simp]: "kmalloc_ok top_alloc"
proof -
  have "p \<le> foldr max (map fst h) 0" if "p \<in> fst ` set h" for p and h :: "'a heap"
    using foldr_max_ge [of p "map fst h"] that by simp
  then show ?thesis by (fastforce simp: kmalloc_ok_def top_alloc_def)
qed

text \<open>\<open>kfree\<close> of an address that is not allocated is a fault.\<close>

definition kfree :: "addr \<Rightarrow> 'a heap \<Rightarrow> 'a heap option" where
  "kfree p h = (if map_of h p = None then None else Some (filter (\<lambda>(q, x). q \<noteq> p) h))"

lemma map_of_filter_key: "map_of (filter (\<lambda>(q, x). q \<noteq> p) h) = (map_of h)(p := None)"
  by (induction h) auto

text \<open>
  The body \<open>list_del(cur); kfree(cur);\<close> of a cleaning loop, over the entries the list had.
\<close>

fun free_entries :: "'l klist \<Rightarrow> addr list \<Rightarrow> 'l \<Rightarrow> 'a heap \<Rightarrow> ('l \<times> 'a heap) option" where
  "free_entries K [] l h = Some (l, h)"
| "free_entries K (p # ps) l h = Option.bind (kfree p h) (\<lambda>h. free_entries K ps (kl_del K p l) h)"

lemma free_entries_all:
  assumes "klist_ok K" "distinct ps" "kl_entries K l = ps @ rest" "set ps \<subseteq> fst ` set h"
  shows "\<exists>l'. free_entries K ps l h = Some (l', filter (\<lambda>(q, x). q \<notin> set ps) h) \<and> kl_entries K l' = rest"
  using assms
proof (induction ps arbitrary: l h)
  case (Cons p ps)
  let ?h = "filter (\<lambda>(q, x). q \<noteq> p) h"
  have "map_of h p \<noteq> None" using Cons.prems(4) by (simp add: map_of_eq_None_iff)
  moreover have "set ps \<subseteq> fst ` set ?h" using Cons.prems(2,4) by force
  then obtain l' where "free_entries K ps (kl_del K p l) ?h = Some (l', filter (\<lambda>(q, x). q \<notin> set ps) ?h)"
      "kl_entries K l' = rest"
    using Cons.IH [of "kl_del K p l" ?h] Cons.prems by auto
  moreover have "filter (\<lambda>(q, x). q \<notin> set ps) ?h = filter (\<lambda>(q, x). q \<notin> set (p # ps)) h"
    by (auto intro!: filter_cong)
  ultimately show ?case by (simp add: kfree_def)
qed simp

end
