(* ===== verification/Cmd_Hash.thy ===== *)
theory Cmd_Hash
  imports Kernel_List "HOL-Library.Multiset"
begin

text \<open>
  The command hash table of \<open>hlist/hlist1/hlist.c\<close>: 27 buckets chosen by the first letter of a
  command, each a kernel hlist with a 16-bit count of its nodes. The nodes live in a heap of
  20-character arrays; an access beyond one, or through NULL, is a fault (\<open>None\<close>).
\<close>

section \<open>Data\<close>

definition CMD_HASH_HEAD_SIZE :: nat where "CMD_HASH_HEAD_SIZE = 27"
definition NAME_SIZE :: nat where "NAME_SIZE = 20"

abbreviation NUL :: char where "NUL \<equiv> CHR 0x00"

record 'l cmd_hash_head =
  hh_head :: 'l
  hh_ch :: u8
  hh_offset :: u8
  hh_count :: u16

record 'l cmd_table =
  cmd_hash :: "'l cmd_hash_head list"
  hash_nodes :: "string heap"

section \<open>Operations\<close>

definition cmd_hash_init :: "'l klist \<Rightarrow> 'l cmd_table \<Rightarrow> 'l cmd_table" where
  "cmd_hash_init K st =
     st\<lparr>cmd_hash := map (\<lambda>index.
        \<lparr>hh_head = kl_init K,
         hh_ch = (if index = CMD_HASH_HEAD_SIZE then of_char CHR ''?'' else of_char CHR ''a'' + of_nat index),
         hh_offset = of_nat index, hh_count = 0\<rparr>) [0..<CMD_HASH_HEAD_SIZE]\<rparr>"

text \<open>\<open>node_type\<close>, on NULL or a string; the first character of the empty string is NUL.\<close>

definition node_type :: "string option \<Rightarrow> u8" where
  "node_type name =
     (case name of None \<Rightarrow> - 1
      | Some s \<Rightarrow>
        let ch = of_char (case s of [] \<Rightarrow> NUL | c # _ \<Rightarrow> c) :: u8 in
        if of_char CHR ''a'' \<le> ch \<and> ch \<le> of_char CHR ''z'' then ch - of_char CHR ''a'' else 26)"

text \<open>\<open>strlcpy(dst, src, n)\<close> for an array \<open>dst\<close>: at most \<open>n - 1\<close> characters and a NUL.\<close>

definition strlcpy :: "string \<Rightarrow> string \<Rightarrow> nat \<Rightarrow> string option" where
  "strlcpy dst src n =
     (if n = 0 then Some dst
      else let w = take (n - 1) src @ [NUL] in
           if length dst < length w then None else Some (w @ drop (length w) dst))"

text \<open>
  \<open>__cmd_hash_node_add\<close>. The result of \<open>kzalloc\<close> is not checked: with NULL the store into the
  node is a fault. Nothing is stored, and the node is lost, when \<open>node_type\<close> is negative.
\<close>

definition hash_node_add ::
    "'l klist \<Rightarrow> (string heap \<Rightarrow> addr option) \<Rightarrow> string option \<Rightarrow> 'l cmd_table \<Rightarrow> 'l cmd_table option" where
  "hash_node_add K kzalloc name st =
     (let hash_node = kzalloc (hash_nodes st); blank = replicate NAME_SIZE NUL; offset = node_type name in
      if sint offset < 0 then
        Some (case hash_node of None \<Rightarrow> st | Some p \<Rightarrow> st\<lparr>hash_nodes := (p, blank) # hash_nodes st\<rparr>)
      else case (hash_node, name) of
        (Some p, Some s) \<Rightarrow>
          map_option (\<lambda>arr.
            let b = cmd_hash st ! unat offset in
            st\<lparr>hash_nodes := (p, arr) # hash_nodes st,
               cmd_hash := (cmd_hash st)[unat offset :=
                 b\<lparr>hh_count := hh_count b + 1, hh_head := kl_add_head K p (hh_head b)\<rparr>]\<rparr>)
          (strlcpy blank s (length s))
      | _ \<Rightarrow> None)"

fun add_names :: "'l klist \<Rightarrow> (string heap \<Rightarrow> addr option) \<Rightarrow> string list \<Rightarrow> 'l cmd_table \<Rightarrow> 'l cmd_table option" where
  "add_names K kzalloc [] st = Some st"
| "add_names K kzalloc (s # ss) st = Option.bind (hash_node_add K kzalloc (Some s) st) (add_names K kzalloc ss)"

definition cmd_hash_node_add :: "'l klist \<Rightarrow> (string heap \<Rightarrow> addr option) \<Rightarrow> 'l cmd_table \<Rightarrow> 'l cmd_table option" where
  "cmd_hash_node_add K kzalloc = add_names K kzalloc [''hello'', ''help'', ''scan'', ''???'']"

text \<open>What \<open>cmd_hash_node_dump\<close> prints: a line for each bucket with a positive count, and its names.\<close>

definition node_name :: "'l cmd_table \<Rightarrow> addr \<Rightarrow> string option" where
  "node_name st p = map_option (takeWhile (\<lambda>c. c \<noteq> NUL)) (map_of (hash_nodes st) p)"

definition cmd_hash_node_dump :: "'l klist \<Rightarrow> 'l cmd_table \<Rightarrow> (nat \<times> int \<times> int \<times> u8 \<times> string option list) list" where
  "cmd_hash_node_dump K st =
     map (\<lambda>index. let b = cmd_hash st ! index in
            (index, sint (hh_count b), sint (hh_offset b), hh_ch b, map (node_name st) (kl_entries K (hh_head b))))
       (filter (\<lambda>index. 0 < sint (hh_count (cmd_hash st ! index))) [0..<CMD_HASH_HEAD_SIZE])"

text \<open>\<open>cmd_hash_cleanup\<close>, bucket by bucket; a bucket whose count is not positive is skipped.\<close>

fun cleanup_buckets :: "'l klist \<Rightarrow> 'l cmd_hash_head list \<Rightarrow> string heap \<Rightarrow> ('l cmd_hash_head list \<times> string heap) option" where
  "cleanup_buckets K [] h = Some ([], h)"
| "cleanup_buckets K (b # bs) h =
     (if sint (hh_count b) \<le> 0 then map_option (\<lambda>(bs, h). (b # bs, h)) (cleanup_buckets K bs h)
      else Option.bind (free_entries K (kl_entries K (hh_head b)) (hh_head b) h) (\<lambda>(l, h).
        map_option (\<lambda>(bs, h). (b\<lparr>hh_head := l\<rparr> # bs, h)) (cleanup_buckets K bs h)))"

definition cmd_hash_cleanup :: "'l klist \<Rightarrow> 'l cmd_table \<Rightarrow> 'l cmd_table option" where
  "cmd_hash_cleanup K st =
     map_option (\<lambda>(bs, h). st\<lparr>cmd_hash := bs, hash_nodes := h\<rparr>) (cleanup_buckets K (cmd_hash st) (hash_nodes st))"

definition hlist_init ::
    "'l klist \<Rightarrow> (string heap \<Rightarrow> addr option) \<Rightarrow> 'l cmd_table \<Rightarrow>
     ((nat \<times> int \<times> int \<times> u8 \<times> string option list) list \<times> 'l cmd_table) option" where
  "hlist_init K kzalloc st =
     map_option (\<lambda>st. (cmd_hash_node_dump K st, st)) (cmd_hash_node_add K kzalloc (cmd_hash_init K st))"

definition hlist_exit :: "'l klist \<Rightarrow> 'l cmd_table \<Rightarrow> 'l cmd_table option" where
  "hlist_exit K = cmd_hash_cleanup K"

section \<open>The hash function\<close>

lemma sint_u8_small: "unat (w :: u8) < 128 \<Longrightarrow> sint w = int (unat w)"
proof -
  assume w: "unat w < 128"
  have "uint w = int (unat w)" by simp
  with w have lt: "uint w < 128" by linarith
  have "- 128 \<le> uint w" using uint_ge_0 [of w] by linarith
  with lt have "signed_take_bit 7 (uint w) = uint w"
    using signed_take_bit_int_eq_self [of 7 "uint w"] by simp
  then show ?thesis by (simp add: sint_uint)
qed

lemma sint_count:
  "n < 32768 \<Longrightarrow> sint (of_nat n :: u16) = int n"
  "sint (of_nat 32768 :: u16) = - 32768"
  by (simp_all add: signed_of_nat signed_take_bit_int_eq_self)

definition bucket_of :: "string \<Rightarrow> nat" where
  "bucket_of s = unat (node_type (Some s))"

lemma node_type_bound: "unat (node_type (Some s)) \<le> 26"
  by (auto simp: node_type_def Let_def word_le_nat_alt unat_sub_if_size word_size split: list.splits)

lemma node_type_sint: "\<not> sint (node_type (Some s)) < 0"
  using node_type_bound [of s] by (simp add: sint_u8_small)

lemma bucket_of_less: "bucket_of s < CMD_HASH_HEAD_SIZE"
  using node_type_bound [of s] by (simp add: bucket_of_def CMD_HASH_HEAD_SIZE_def)

section \<open>The invariant\<close>

abbreviation bucket :: "'l klist \<Rightarrow> 'l cmd_hash_head \<Rightarrow> addr list" where
  "bucket K b \<equiv> kl_entries K (hh_head b)"

definition all_nodes :: "'l klist \<Rightarrow> 'l cmd_hash_head list \<Rightarrow> addr list" where
  "all_nodes K bs = concat (map (bucket K) bs)"

definition hash_inv :: "'l klist \<Rightarrow> 'l cmd_table \<Rightarrow> bool" where
  "hash_inv K st \<longleftrightarrow>
     length (cmd_hash st) = CMD_HASH_HEAD_SIZE
   \<and> distinct (all_nodes K (cmd_hash st))
   \<and> set (all_nodes K (cmd_hash st)) = fst ` set (hash_nodes st)
   \<and> (\<forall>b \<in> set (cmd_hash st). hh_count b = of_nat (length (bucket K b)))"

lemma all_nodes_update:
  assumes "i < length bs" "bucket K b = p # bucket K (bs ! i)"
  shows "mset (all_nodes K (bs[i := b])) = add_mset p (mset (all_nodes K bs))"
proof -
  have "all_nodes K bs = all_nodes K (take i bs) @ bucket K (bs ! i) @ all_nodes K (drop (Suc i) bs)"
    using assms(1) by (metis (no_types, lifting) all_nodes_def concat.simps(2) concat_append id_take_nth_drop list.simps(9) map_append)
  then show ?thesis
    using assms by (simp add: all_nodes_def upd_conv_take_nth_drop)
qed

lemma node_bucket_unique:
  "distinct (all_nodes K bs) \<Longrightarrow> b \<in> set bs \<Longrightarrow> b' \<in> set bs \<Longrightarrow> p \<in> set (bucket K b) \<Longrightarrow> p \<in> set (bucket K b')
     \<Longrightarrow> bucket K b = bucket K b'"
  by (auto simp: all_nodes_def distinct_concat_iff)

lemma mset_cons: "mset xs = add_mset p (mset ys) \<Longrightarrow> set xs = insert p (set ys)"
  by (metis set_mset_add_mset_insert set_mset_mset)

lemma mset_distinct: "mset xs = add_mset p (mset ys) \<Longrightarrow> distinct ys \<Longrightarrow> p \<notin> set ys \<Longrightarrow> distinct xs"
  by (metis distinct.simps(2) mset.simps(2) mset_eq_imp_distinct_iff)

definition fits_name :: "string \<Rightarrow> bool" where
  "fits_name s \<longleftrightarrow> s \<noteq> [] \<and> length s \<le> NAME_SIZE \<and> NUL \<notin> set s"

lemma strlcpy_name:
  "fits_name s \<Longrightarrow> \<exists>arr. strlcpy (replicate NAME_SIZE NUL) s (length s) = Some arr
     \<and> takeWhile (\<lambda>c. c \<noteq> NUL) arr = butlast s"
proof -
  assume s: "fits_name s"
  have "take (length s - 1) s @ [NUL] = butlast s @ [NUL]" "length (butlast s @ [NUL]) = length s"
    using s by (simp_all add: butlast_conv_take fits_name_def)
  moreover have "takeWhile (\<lambda>c. c \<noteq> NUL) (butlast s @ NUL # t) = butlast s" for t
    using s by (subst takeWhile_append2) (auto simp: fits_name_def dest: in_set_butlastD)
  ultimately show ?thesis
    using s by (simp add: strlcpy_def fits_name_def)
qed

lemma hash_node_add_step:
  assumes "klist_ok K" "kmalloc_ok kzalloc" "kzalloc (hash_nodes st) = Some p" "hash_inv K st" "fits_name s"
  shows "\<exists>st'. hash_node_add K kzalloc (Some s) st = Some st' \<and> hash_inv K st'
    \<and> (\<forall>i < CMD_HASH_HEAD_SIZE. map (node_name st') (bucket K (cmd_hash st' ! i)) =
         (if i = bucket_of s then [Some (butlast s)] else []) @ map (node_name st) (bucket K (cmd_hash st ! i)))"
proof -
  let ?i = "bucket_of s"
  let ?b = "cmd_hash st ! ?i"
  let ?b' = "?b\<lparr>hh_count := hh_count ?b + 1, hh_head := kl_add_head K p (hh_head ?b)\<rparr>"
  obtain arr where arr: "strlcpy (replicate NAME_SIZE NUL) s (length s) = Some arr"
      "takeWhile (\<lambda>c. c \<noteq> NUL) arr = butlast s"
    using strlcpy_name [OF assms(5)] by blast
  define st' where "st' = st\<lparr>hash_nodes := (p, arr) # hash_nodes st, cmd_hash := (cmd_hash st)[?i := ?b']\<rparr>"
  have len: "?i < length (cmd_hash st)"
    using bucket_of_less assms(4) by (simp add: hash_inv_def)
  have fresh: "p \<notin> set (all_nodes K (cmd_hash st))"
    using kmalloc_fresh [OF assms(2,3)] assms(4) by (simp add: hash_inv_def)
  have ms: "mset (all_nodes K ((cmd_hash st)[?i := ?b'])) = add_mset p (mset (all_nodes K (cmd_hash st)))"
    using len assms(1) by (intro all_nodes_update) simp_all
  have "hash_node_add K kzalloc (Some s) st = Some st'"
    using node_type_sint [of s] arr(1) assms(3)
    by (simp add: hash_node_add_def Let_def st'_def bucket_of_def)
  moreover have "hash_inv K st'"
    using assms(1,4) len mset_cons [OF ms] mset_distinct [OF ms] fresh
    by (auto simp: hash_inv_def st'_def dest!: set_update_subset_insert [THEN subsetD])
  moreover have "map (node_name st') (bucket K (cmd_hash st' ! i)) =
      (if i = ?i then [Some (butlast s)] else []) @ map (node_name st) (bucket K (cmd_hash st ! i))"
    if "i < CMD_HASH_HEAD_SIZE" for i
  proof -
    have "p \<notin> set (bucket K (cmd_hash st ! i))"
      using fresh that assms(4) by (auto simp: all_nodes_def hash_inv_def)
    then have "map (node_name st') (bucket K (cmd_hash st ! i)) = map (node_name st) (bucket K (cmd_hash st ! i))"
      by (auto simp: node_name_def st'_def)
    moreover have "node_name st' p = Some (butlast s)"
      by (simp add: node_name_def st'_def arr(2))
    ultimately show ?thesis
      using len assms(1) by (simp add: st'_def nth_list_update node_name_def)
  qed
  ultimately show ?thesis by blast
qed

lemma all_nodes_init: "klist_ok K \<Longrightarrow> all_nodes K (cmd_hash (cmd_hash_init K st)) = []"
  by (simp add: all_nodes_def cmd_hash_init_def)

lemma cmd_hash_init_inv:
  "klist_ok K \<Longrightarrow> hash_nodes st = [] \<Longrightarrow> hash_inv K (cmd_hash_init K st)"
  using all_nodes_init [of K st] by (auto simp: hash_inv_def cmd_hash_init_def)

lemma cmd_hash_init_buckets:
  "klist_ok K \<Longrightarrow> i < CMD_HASH_HEAD_SIZE \<Longrightarrow> bucket K (cmd_hash (cmd_hash_init K st) ! i) = []"
  by (simp add: cmd_hash_init_def)

lemma add_names_spec:
  assumes "klist_ok K" "kmalloc_ok kzalloc" "\<forall>h. kzalloc h \<noteq> None" "hash_inv K st" "list_all fits_name ss"
  shows "\<exists>st'. add_names K kzalloc ss st = Some st' \<and> hash_inv K st'
    \<and> (\<forall>i < CMD_HASH_HEAD_SIZE. map (node_name st') (bucket K (cmd_hash st' ! i)) =
         rev (map (\<lambda>s. Some (butlast s)) (filter (\<lambda>s. bucket_of s = i) ss)) @ map (node_name st) (bucket K (cmd_hash st ! i)))"
  using assms(4,5)
proof (induction ss arbitrary: st)
  case (Cons s ss)
  obtain p where "kzalloc (hash_nodes st) = Some p" using assms(3) by blast
  then obtain st1 where st1: "hash_node_add K kzalloc (Some s) st = Some st1" "hash_inv K st1"
      "\<forall>i < CMD_HASH_HEAD_SIZE. map (node_name st1) (bucket K (cmd_hash st1 ! i)) =
         (if i = bucket_of s then [Some (butlast s)] else []) @ map (node_name st) (bucket K (cmd_hash st ! i))"
    using hash_node_add_step [OF assms(1,2) _ Cons.prems(1)] Cons.prems(2) by fastforce
  obtain st2 where "add_names K kzalloc ss st1 = Some st2" "hash_inv K st2"
      "\<forall>i < CMD_HASH_HEAD_SIZE. map (node_name st2) (bucket K (cmd_hash st2 ! i)) =
         rev (map (\<lambda>s. Some (butlast s)) (filter (\<lambda>s. bucket_of s = i) ss)) @ map (node_name st1) (bucket K (cmd_hash st1 ! i))"
    using Cons.IH [OF st1(2)] Cons.prems(2) by auto
  then show ?case using st1 by auto
qed simp

lemma cleanup_buckets_spec:
  assumes "klist_ok K" "distinct (all_nodes K bs)" "set (all_nodes K bs) \<subseteq> fst ` set h"
  shows "\<exists>bs'. cleanup_buckets K bs h =
    Some (bs', filter (\<lambda>(p, x). p \<notin> set (all_nodes K (filter (\<lambda>b. 0 < sint (hh_count b)) bs))) h)"
  using assms(2,3)
proof (induction bs arbitrary: h)
  case (Cons b bs)
  show ?case
  proof (cases "sint (hh_count b) \<le> 0")
    case True
    then show ?thesis
      using Cons.IH [of h] Cons.prems by (auto simp: all_nodes_def)
  next
    case False
    let ?h = "filter (\<lambda>(q, x). q \<notin> set (bucket K b)) h"
    obtain l where "free_entries K (bucket K b) (hh_head b) h = Some (l, ?h)"
      using free_entries_all [OF assms(1), of "bucket K b" "hh_head b" "[]" h] Cons.prems
      by (auto simp: all_nodes_def)
    moreover have "set (all_nodes K bs) \<subseteq> fst ` set ?h"
      using Cons.prems by (force simp: all_nodes_def)
    then obtain bs' where "cleanup_buckets K bs ?h =
        Some (bs', filter (\<lambda>(p, x). p \<notin> set (all_nodes K (filter (\<lambda>b. 0 < sint (hh_count b)) bs))) ?h)"
      using Cons.IH [of ?h] Cons.prems by (auto simp: all_nodes_def)
    ultimately show ?thesis
      using False by (auto simp: all_nodes_def intro!: filter_cong)
  qed
qed (simp add: all_nodes_def)

section \<open>Properties\<close>


definition empty_table :: "addr list cmd_table" where
  "empty_table = \<lparr>cmd_hash = [], hash_nodes = []\<rparr>"



lemma short_buckets:
  assumes "hash_inv K st" "\<forall>i < CMD_HASH_HEAD_SIZE. map (node_name st) (bucket K (cmd_hash st ! i)) = f i"
    and "\<forall>i < CMD_HASH_HEAD_SIZE. length (f i) < n"
  shows "\<forall>b \<in> set (cmd_hash st). length (bucket K b) < n"
  using assms by (metis hash_inv_def in_set_conv_nth length_map)


end
