(* ===== verification/Students.thy ===== *)
theory Students
  imports Kernel_List "HOL-Library.Multiset"
begin

text \<open>
  The student registry of \<open>hlist/hlist2/hlist.c\<close>: students live in a heap, are queued on the list
  \<open>g_student_list\<close> and are moved to one of two hash lists by \<open>classify_stu\<close>. Accesses outside the
  32-character name of a student and a \<open>kfree\<close> of a student that is not allocated are faults
  (\<open>None\<close>).
\<close>

section \<open>Data\<close>

definition MAX_STRING_LEN :: nat where "MAX_STRING_LEN = 32"
definition MAX_HLIST_COUNT :: nat where "MAX_HLIST_COUNT = 2"

record student =
  m_name :: string
  m_sex :: char
  m_age :: u32

record 'l school =
  students :: "student heap"
  g_student_list :: 'l
  g_stu_hlist :: "'l list"

section \<open>Strings\<close>

text \<open>
  \<open>strcmp\<close> of the array \<open>cs\<close> with a NUL-terminated string reads up to the first difference; it
  leaves the array when there is neither a difference nor a NUL in it.
\<close>

fun name_eq :: "string \<Rightarrow> string \<Rightarrow> bool option" where
  "name_eq [] name = None"
| "name_eq (c # cs) [] = Some (c = CHR 0x00)"
| "name_eq (c # cs) (d # name) = (if c = d then name_eq cs name else Some False)"

text \<open>\<open>strncpy(dst, src, strlen(src))\<close>: all the characters of \<open>src\<close>, without a NUL.\<close>

definition strncpy_all :: "string \<Rightarrow> string \<Rightarrow> string option" where
  "strncpy_all dst src = (if length dst < length src then None else Some (src @ drop (length src) dst))"

section \<open>Operations\<close>

definition init_hlists :: "'l klist \<Rightarrow> 'l school \<Rightarrow> 'l school" where
  "init_hlists K s = s\<lparr>g_stu_hlist := replicate MAX_HLIST_COUNT (kl_init K)\<rparr>"

text \<open>The search of \<open>add_stu\<close> and \<open>del_stu\<close>: the first entry with the name. A dangling entry is a fault.\<close>

fun find_name :: "student heap \<Rightarrow> addr list \<Rightarrow> string \<Rightarrow> addr option option" where
  "find_name h [] name = Some None"
| "find_name h (p # ps) name =
     Option.bind (map_of h p) (\<lambda>stu. Option.bind (name_eq (m_name stu) name) (\<lambda>eq.
       if eq then Some (Some p) else find_name h ps name))"

definition add_stu ::
    "'l klist \<Rightarrow> (student heap \<Rightarrow> addr option) \<Rightarrow> string \<Rightarrow> char \<Rightarrow> u32 \<Rightarrow> 'l school \<Rightarrow> (int \<times> 'l school) option" where
  "add_stu K kmalloc name sex age s =
     Option.bind (find_name (students s) (kl_entries K (g_student_list s)) name) (\<lambda>found.
       case found of Some _ \<Rightarrow> Some (- 1, s)
       | None \<Rightarrow>
         (case kmalloc (students s) of None \<Rightarrow> Some (- 1, s)
          | Some p \<Rightarrow>
            map_option (\<lambda>arr.
              (0, s\<lparr>students := (p, \<lparr>m_name = arr, m_sex = sex, m_age = age\<rparr>) # students s,
                    g_student_list := kl_add_tail K p (g_student_list s)\<rparr>))
              (strncpy_all (replicate MAX_STRING_LEN (CHR 0x00)) name)))"

definition del_stu :: "'l klist \<Rightarrow> string \<Rightarrow> 'l school \<Rightarrow> (int \<times> 'l school) option" where
  "del_stu K name s =
     Option.bind (find_name (students s) (kl_entries K (g_student_list s)) name) (\<lambda>found.
       case found of None \<Rightarrow> Some (- 1, s)
       | Some p \<Rightarrow> map_option (\<lambda>h. (0, s\<lparr>students := h, g_student_list := kl_del K p (g_student_list s)\<rparr>))
                     (kfree p (students s)))"

text \<open>What the dump functions print: number, name array, sex and age of each entry.\<close>

definition dump_entries :: "student heap \<Rightarrow> addr list \<Rightarrow> (nat \<times> student option) list" where
  "dump_entries h ps = zip [1..<Suc (length ps)] (map (map_of h) ps)"

definition dump_students :: "'l klist \<Rightarrow> 'l school \<Rightarrow> (nat \<times> student option) list" where
  "dump_students K s = dump_entries (students s) (kl_entries K (g_student_list s))"

definition dump_hlist :: "'l klist \<Rightarrow> int \<Rightarrow> 'l school \<Rightarrow> (nat \<times> student option) list" where
  "dump_hlist K idx s =
     (if \<not> (0 \<le> idx \<and> idx < int MAX_HLIST_COUNT) then []
      else dump_entries (students s) (kl_entries K (g_stu_hlist s ! nat idx)))"

definition dump_hlists :: "'l klist \<Rightarrow> 'l school \<Rightarrow> (nat \<times> student option) list list" where
  "dump_hlists K s = [dump_hlist K 0 s, dump_hlist K 1 s]"

text \<open>
  \<open>classify_stu\<close>: each student is taken off the list, and the function returns at once, without
  putting it anywhere, at one whose sex is neither \<open>m\<close> nor \<open>f\<close>.
\<close>

fun classify_loop :: "'l klist \<Rightarrow> addr list \<Rightarrow> 'l school \<Rightarrow> 'l school option" where
  "classify_loop K [] s = Some s"
| "classify_loop K (p # ps) s =
     (let s = s\<lparr>g_student_list := kl_del K p (g_student_list s)\<rparr> in
      Option.bind (map_of (students s) p) (\<lambda>cur.
        if m_sex cur = CHR ''m'' then
          classify_loop K ps (s\<lparr>g_stu_hlist := (g_stu_hlist s)[0 := kl_add_head K p (g_stu_hlist s ! 0)]\<rparr>)
        else if m_sex cur = CHR ''f'' then
          classify_loop K ps (s\<lparr>g_stu_hlist := (g_stu_hlist s)[1 := kl_add_head K p (g_stu_hlist s ! 1)]\<rparr>)
        else Some s))"

definition classify_stu :: "'l klist \<Rightarrow> 'l school \<Rightarrow> 'l school option" where
  "classify_stu K s = classify_loop K (kl_entries K (g_student_list s)) s"

fun add_all :: "'l klist \<Rightarrow> (student heap \<Rightarrow> addr option) \<Rightarrow> (string \<times> char \<times> u32) list \<Rightarrow> 'l school \<Rightarrow> 'l school option" where
  "add_all K kmalloc [] s = Some s"
| "add_all K kmalloc ((name, sex, age) # xs) s =
     Option.bind (add_stu K kmalloc name sex age s) (\<lambda>(_, s). add_all K kmalloc xs s)"

definition init_system :: "'l klist \<Rightarrow> (student heap \<Rightarrow> addr option) \<Rightarrow> 'l school \<Rightarrow> 'l school option" where
  "init_system K kmalloc s =
     add_all K kmalloc
       [(''Tom'', CHR ''m'', 18), (''Jerry'', CHR ''f'', 17), (''Alex'', CHR ''m'', 18),
        (''Conory'', CHR ''f'', 18), (''Frank'', CHR ''m'', 17), (''Marry'', CHR ''f'', 17)] (init_hlists K s)"

fun clean_hlists :: "'l klist \<Rightarrow> 'l list \<Rightarrow> student heap \<Rightarrow> ('l list \<times> student heap) option" where
  "clean_hlists K [] h = Some ([], h)"
| "clean_hlists K (l # ls) h =
     Option.bind (free_entries K (kl_entries K l) l h) (\<lambda>(l, h).
       map_option (\<lambda>(ls, h). (l # ls, h)) (clean_hlists K ls h))"

definition clean_up_hlist :: "'l klist \<Rightarrow> 'l school \<Rightarrow> 'l school option" where
  "clean_up_hlist K s =
     map_option (\<lambda>(ls, h). s\<lparr>g_stu_hlist := ls, students := h\<rparr>) (clean_hlists K (g_stu_hlist s) (students s))"

definition clean_up_list :: "'l klist \<Rightarrow> 'l school \<Rightarrow> 'l school option" where
  "clean_up_list K s =
     map_option (\<lambda>(l, h). s\<lparr>g_student_list := l, students := h\<rparr>)
       (free_entries K (kl_entries K (g_student_list s)) (g_student_list s) (students s))"

definition clean_up :: "'l klist \<Rightarrow> 'l school \<Rightarrow> 'l school option" where
  "clean_up K s = Option.bind (clean_up_list K s) (clean_up_hlist K)"

definition student_mgt_init ::
    "'l klist \<Rightarrow> (student heap \<Rightarrow> addr option) \<Rightarrow> 'l school \<Rightarrow>
     ((nat \<times> student option) list \<times> (nat \<times> student option) list list \<times> 'l school) option" where
  "student_mgt_init K kmalloc s =
     Option.bind (init_system K kmalloc s) (\<lambda>s.
       map_option (\<lambda>s'. (dump_students K s, dump_hlists K s', s')) (classify_stu K s))"

definition student_mgt_exit :: "'l klist \<Rightarrow> 'l school \<Rightarrow> 'l school option" where
  "student_mgt_exit K = clean_up K"

section \<open>Names\<close>

definition cname :: "student heap \<Rightarrow> addr \<Rightarrow> string" where
  "cname h p = (case map_of h p of None \<Rightarrow> [] | Some stu \<Rightarrow> takeWhile (\<lambda>c. c \<noteq> CHR 0x00) (m_name stu))"

definition good_name :: "string \<Rightarrow> bool" where
  "good_name name \<longleftrightarrow> length name < MAX_STRING_LEN \<and> CHR 0x00 \<notin> set name"

lemma name_eq_spec:
  "CHR 0x00 \<in> set cs \<Longrightarrow> CHR 0x00 \<notin> set name \<Longrightarrow> name_eq cs name = Some (takeWhile (\<lambda>c. c \<noteq> CHR 0x00) cs = name)"
  by (induction cs name rule: name_eq.induct) auto

definition terminated :: "student heap \<Rightarrow> bool" where
  "terminated h \<longleftrightarrow> (\<forall>(p, stu) \<in> set h. CHR 0x00 \<in> set (m_name stu))"

lemma find_name_spec:
  assumes "terminated h" "set ps \<subseteq> fst ` set h" "CHR 0x00 \<notin> set name"
  shows "find_name h ps name = Some (find (\<lambda>p. cname h p = name) ps)"
  using assms(2)
proof (induction ps)
  case (Cons p ps)
  then obtain stu where stu: "map_of h p = Some stu"
    by (metis insert_subset list.simps(15) map_of_eq_None_iff not_Some_eq)
  then have "CHR 0x00 \<in> set (m_name stu)"
    using assms(1) by (auto simp: terminated_def dest: map_of_SomeD)
  then show ?case
    using Cons stu assms(3) by (auto simp: name_eq_spec cname_def)
qed simp

lemma strncpy_name:
  assumes "good_name name"
  shows "\<exists>arr. strncpy_all (replicate MAX_STRING_LEN (CHR 0x00)) name = Some arr \<and> CHR 0x00 \<in> set arr
    \<and> takeWhile (\<lambda>c. c \<noteq> CHR 0x00) arr = name"
proof -
  obtain k where k: "MAX_STRING_LEN = length name + Suc k"
    using assms less_imp_Suc_add by (auto simp: good_name_def)
  have "takeWhile (\<lambda>c. c \<noteq> CHR 0x00) (name @ CHR 0x00 # t) = name" for t
    using assms by (subst takeWhile_append2) (auto simp: good_name_def)
  moreover have "drop (length name) (replicate MAX_STRING_LEN (CHR 0x00)) = CHR 0x00 # replicate k (CHR 0x00)"
    by (simp only: k drop_replicate) simp
  ultimately show ?thesis using k by (simp add: strncpy_all_def)
qed

section \<open>The invariant\<close>

abbreviation queued :: "'l klist \<Rightarrow> 'l school \<Rightarrow> addr list" where
  "queued K s \<equiv> kl_entries K (g_student_list s)"

abbreviation classified :: "'l klist \<Rightarrow> 'l school \<Rightarrow> addr list" where
  "classified K s \<equiv> concat (map (kl_entries K) (g_stu_hlist s))"

definition school_inv :: "'l klist \<Rightarrow> 'l school \<Rightarrow> bool" where
  "school_inv K s \<longleftrightarrow>
     length (g_stu_hlist s) = MAX_HLIST_COUNT
   \<and> terminated (students s)
   \<and> distinct (queued K s @ classified K s)
   \<and> set (queued K s @ classified K s) \<subseteq> fst ` set (students s)
   \<and> distinct (map (cname (students s)) (queued K s))"

definition no_leak :: "'l klist \<Rightarrow> 'l school \<Rightarrow> bool" where
  "no_leak K s \<longleftrightarrow> fst ` set (students s) \<subseteq> set (queued K s @ classified K s)"

lemma cname_Cons: "p \<noteq> q \<Longrightarrow> cname ((p, stu) # h) q = cname h q"
  by (simp add: cname_def)

lemma cname_filter: "p \<noteq> q \<Longrightarrow> cname (filter (\<lambda>(r, x). r \<noteq> p) h) q = cname h q"
  by (simp add: cname_def map_of_filter_key)

text \<open>A successful \<open>add_stu\<close>, in full.\<close>

lemma add_stu_new:
  assumes "klist_ok K" "kmalloc (students s) = Some p" "school_inv K s" "good_name name"
    and "name \<notin> cname (students s) ` set (queued K s)"
  shows "\<exists>stu. add_stu K kmalloc name sex age s =
      Some (0, s\<lparr>students := (p, stu) # students s, g_student_list := kl_add_tail K p (g_student_list s)\<rparr>)
    \<and> CHR 0x00 \<in> set (m_name stu) \<and> takeWhile (\<lambda>c. c \<noteq> CHR 0x00) (m_name stu) = name
    \<and> m_sex stu = sex \<and> m_age stu = age"
proof -
  obtain arr where arr: "strncpy_all (replicate MAX_STRING_LEN (CHR 0x00)) name = Some arr" "CHR 0x00 \<in> set arr"
      "takeWhile (\<lambda>c. c \<noteq> CHR 0x00) arr = name"
    using strncpy_name [OF assms(4)] by blast
  have "find_name (students s) (queued K s) name = Some None"
    using assms(3-5) by (subst find_name_spec) (auto simp: school_inv_def good_name_def find_None_iff)
  then show ?thesis
    using assms(2) arr by (intro exI [of _ "\<lparr>m_name = arr, m_sex = sex, m_age = age\<rparr>"]) (simp add: add_stu_def)
qed

lemma add_stu_known:
  assumes "school_inv K s" "good_name name" "name \<in> cname (students s) ` set (queued K s)"
  shows "add_stu K kmalloc name sex age s = Some (- 1, s)"
proof -
  have "find_name (students s) (queued K s) name = Some (find (\<lambda>p. cname (students s) p = name) (queued K s))"
    using assms(1,2) by (intro find_name_spec) (auto simp: school_inv_def good_name_def)
  moreover have "find (\<lambda>p. cname (students s) p = name) (queued K s) \<noteq> None"
    using assms(3) by (auto simp: find_None_iff)
  ultimately show ?thesis by (auto simp: add_stu_def)
qed

lemma add_stu_cases:
  assumes "klist_ok K" "kmalloc_ok kmalloc" "school_inv K s" "good_name name"
  obtains "add_stu K kmalloc name sex age s = Some (- 1, s)"
  | p stu where "add_stu K kmalloc name sex age s =
      Some (0, s\<lparr>students := (p, stu) # students s, g_student_list := kl_add_tail K p (g_student_list s)\<rparr>)"
      "p \<notin> fst ` set (students s)" "CHR 0x00 \<in> set (m_name stu)" "m_sex stu = sex"
      "takeWhile (\<lambda>c. c \<noteq> CHR 0x00) (m_name stu) = name" "name \<notin> cname (students s) ` set (queued K s)"
proof (cases "name \<in> cname (students s) ` set (queued K s)")
  case True
  then show ?thesis using that(1) add_stu_known assms by blast
next
  case new: False
  show ?thesis
  proof (cases "kmalloc (students s)")
    case None
    have "find_name (students s) (queued K s) name = Some None"
      using assms(3,4) new by (subst find_name_spec) (auto simp: school_inv_def good_name_def find_None_iff)
    then show ?thesis using that(1) None by (simp add: add_stu_def)
  next
    case (Some p)
    then show ?thesis
      using that(2) add_stu_new [of K kmalloc s p name sex age] assms kmalloc_fresh [OF assms(2) Some] new by blast
  qed
qed

section \<open>Every operation keeps the invariant\<close>

lemma add_stu_inv:
  assumes "klist_ok K" "kmalloc_ok kmalloc" "school_inv K s" "good_name name"
    and "add_stu K kmalloc name sex age s = Some (rv, s')"
  shows "school_inv K s'" "no_leak K s \<Longrightarrow> no_leak K s'"
    "\<And>P. (\<forall>(p, stu) \<in> set (students s). P (m_sex stu)) \<Longrightarrow> P sex \<Longrightarrow> \<forall>(p, stu) \<in> set (students s'). P (m_sex stu)"
proof -
  have "school_inv K s' \<and> (no_leak K s \<longrightarrow> no_leak K s') \<and>
    (\<forall>P. (\<forall>(p, stu) \<in> set (students s). P (m_sex stu)) \<longrightarrow> P sex \<longrightarrow> (\<forall>(p, stu) \<in> set (students s'). P (m_sex stu)))"
    using assms(1-4)
  proof (cases rule: add_stu_cases [where sex = sex and age = age])
    case (2 p stu)
    let ?h = "(p, stu) # students s"
    have s': "s' = s\<lparr>students := ?h, g_student_list := kl_add_tail K p (g_student_list s)\<rparr>"
      using 2(1) assms(5) by simp
    have fresh: "p \<notin> set (queued K s @ classified K s)"
      using 2(2) assms(3) by (auto simp: school_inv_def)
    then have m: "map (cname ?h) (queued K s) = map (cname (students s)) (queued K s)"
      by (intro map_cong refl cname_Cons) auto
    have "cname ?h p = name" using 2(5) by (simp add: cname_def)
    then have "distinct (map (cname ?h) (queued K s @ [p]))"
      unfolding map_append m using assms(3) 2(6) by (simp add: school_inv_def)
    then show ?thesis
      using assms(1,3) 2(3,4) fresh by (auto simp: s' school_inv_def terminated_def no_leak_def)
  qed (use assms(3,5) in auto)
  then show "school_inv K s'" "no_leak K s \<Longrightarrow> no_leak K s'"
    "\<And>P. (\<forall>(p, stu) \<in> set (students s). P (m_sex stu)) \<Longrightarrow> P sex \<Longrightarrow> \<forall>(p, stu) \<in> set (students s'). P (m_sex stu)"
    by blast+
qed

text \<open>\<open>del_stu\<close>, in full.\<close>

lemma del_stu_cases:
  assumes "school_inv K s" "good_name name"
  obtains "del_stu K name s = Some (- 1, s)" "name \<notin> cname (students s) ` set (queued K s)"
  | p where "del_stu K name s =
      Some (0, s\<lparr>students := filter (\<lambda>(q, x). q \<noteq> p) (students s), g_student_list := kl_del K p (g_student_list s)\<rparr>)"
      "p \<in> set (queued K s)" "cname (students s) p = name"
proof -
  let ?f = "find (\<lambda>p. cname (students s) p = name) (queued K s)"
  have f: "find_name (students s) (queued K s) name = Some ?f"
    using assms by (intro find_name_spec) (auto simp: school_inv_def good_name_def)
  show ?thesis
  proof (cases ?f)
    case None
    then have "name \<notin> cname (students s) ` set (queued K s)" by (auto simp: find_None_iff)
    then show ?thesis using that(1) f None by (simp add: del_stu_def)
  next
    case (Some p)
    then have p: "p \<in> set (queued K s)" "cname (students s) p = name"
      by (auto simp: find_Some_iff)
    then have "map_of (students s) p \<noteq> None"
      using assms(1) by (auto simp: school_inv_def map_of_eq_None_iff)
    then show ?thesis using that(2) p f Some by (auto simp: del_stu_def kfree_def)
  qed
qed

lemma del_stu_inv:
  assumes "klist_ok K" "school_inv K s" "good_name name" "del_stu K name s = Some (rv, s')"
  shows "school_inv K s' \<and> (no_leak K s \<longrightarrow> no_leak K s') \<and> set (students s') \<subseteq> set (students s)"
  using assms(2,3)
proof (cases rule: del_stu_cases)
  case (2 p)
  let ?h = "filter (\<lambda>(q, x). q \<noteq> p) (students s)"
  have s': "s' = s\<lparr>students := ?h, g_student_list := kl_del K p (g_student_list s)\<rparr>"
    using 2(1) assms(4) by simp
  have q: "queued K s' = remove1 p (queued K s)" "distinct (queued K s)"
    using assms(1,2) by (auto simp: s' school_inv_def)
  then have "map (cname ?h) (queued K s') = map (cname (students s)) (queued K s')"
    by (auto simp: cname_filter)
  moreover have "distinct (map (cname (students s)) (queued K s'))"
    using q assms(2) by (auto simp: school_inv_def distinct_map intro: inj_on_subset dest: notin_set_remove1)
  ultimately have "distinct (map (cname ?h) (queued K s'))" by (simp only:)
  moreover have set_q: "set (queued K s') = set (queued K s) - {p}" using q by simp
  moreover have keys: "fst ` set ?h = fst ` set (students s) - {p}" by force
  moreover have p: "p \<notin> set (classified K s)"
    using assms(2) 2(2) by (auto simp: school_inv_def)
  moreover have cl: "classified K s' = classified K s" by (simp add: s')
  moreover have "terminated ?h" using assms(2) by (auto simp: school_inv_def terminated_def)
  moreover have "distinct (queued K s')" "students s' = ?h" "length (g_stu_hlist s') = length (g_stu_hlist s)"
    using q by (simp_all add: s')
  ultimately have "school_inv K s'"
    using assms(2) unfolding school_inv_def by (simp only: set_append distinct_append) blast
  moreover have "no_leak K s'" if "no_leak K s"
    using that set_q keys cl p \<open>students s' = ?h\<close> by (auto simp: no_leak_def)
  ultimately show ?thesis by (auto simp: s')
qed (use assms(2,4) in auto)

text \<open>
  \<open>classify_stu\<close>: the students before the first one of another sex go to their lists, newest first;
  that one is taken off the list.
\<close>

definition sexed :: "student heap \<Rightarrow> char \<Rightarrow> addr \<Rightarrow> bool" where
  "sexed h c p \<longleftrightarrow> map_option m_sex (map_of h p) = Some c"

abbreviation boy_or_girl :: "student heap \<Rightarrow> addr \<Rightarrow> bool" where
  "boy_or_girl h p \<equiv> sexed h CHR ''m'' p \<or> sexed h CHR ''f'' p"

lemma classify_loop_spec:
  assumes "klist_ok K" "length (g_stu_hlist s) = 2" "kl_entries K (g_student_list s) = ps @ rest" "set ps \<subseteq> fst ` set (students s)"
  shows "\<exists>s'. classify_loop K ps s = Some s' \<and> students s' = students s \<and> length (g_stu_hlist s') = 2
    \<and> queued K s' = tl (dropWhile (boy_or_girl (students s)) ps) @ rest
    \<and> kl_entries K (g_stu_hlist s' ! 0) =
        rev (filter (sexed (students s) CHR ''m'') (takeWhile (boy_or_girl (students s)) ps)) @ kl_entries K (g_stu_hlist s ! 0)
    \<and> kl_entries K (g_stu_hlist s' ! 1) =
        rev (filter (sexed (students s) CHR ''f'') (takeWhile (boy_or_girl (students s)) ps)) @ kl_entries K (g_stu_hlist s ! 1)"
  using assms(2-4)
proof (induction ps arbitrary: s)
  case (Cons p ps)
  obtain cur where cur: "map_of (students s) p = Some cur"
    using Cons.prems(3) by (metis insert_subset list.simps(15) map_of_eq_None_iff not_Some_eq)
  let ?s = "s\<lparr>g_student_list := kl_del K p (g_student_list s)\<rparr>"
  consider "m_sex cur = CHR ''m''" | "m_sex cur = CHR ''f''" | "m_sex cur \<noteq> CHR ''m''" "m_sex cur \<noteq> CHR ''f''"
    by blast
  then show ?case
  proof cases
    case 1
    then show ?thesis
      using cur assms(1) Cons.prems
        Cons.IH [of "?s\<lparr>g_stu_hlist := (g_stu_hlist s)[0 := kl_add_head K p (g_stu_hlist s ! 0)]\<rparr>"]
      by (auto simp: sexed_def)
  next
    case 2
    then show ?thesis
      using cur assms(1) Cons.prems
        Cons.IH [of "?s\<lparr>g_stu_hlist := (g_stu_hlist s)[1 := kl_add_head K p (g_stu_hlist s ! 1)]\<rparr>"]
      by (auto simp: sexed_def)
  next
    case 3
    then show ?thesis using cur assms(1) Cons.prems by (simp add: sexed_def)
  qed
qed simp

lemma mset_boys_girls:
  "\<forall>p \<in> set ps. boy_or_girl h p \<Longrightarrow> mset (filter (sexed h CHR ''m'') ps) + mset (filter (sexed h CHR ''f'') ps) = mset ps"
  by (induction ps) (auto simp: sexed_def)

lemma mset_take_tl: "mset xs = mset (take 1 xs) + mset (tl xs)"
  by (cases xs) simp_all

lemma concat_two: "length ls = 2 \<Longrightarrow> concat (map f ls) = f (ls ! 0) @ f (ls ! 1)"
  by (auto simp: length_Suc_conv numeral_2_eq_2)

text \<open>The student, if any, that \<open>classify_stu\<close> loses.\<close>

definition lost :: "'l klist \<Rightarrow> 'l school \<Rightarrow> addr list" where
  "lost K s = take 1 (dropWhile (boy_or_girl (students s)) (queued K s))"

lemma classify_stu_total:
  assumes "klist_ok K" "school_inv K s"
  shows "\<exists>s'. classify_stu K s = Some s' \<and> students s' = students s \<and> length (g_stu_hlist s') = MAX_HLIST_COUNT
    \<and> mset (queued K s @ classified K s) = mset (lost K s) + mset (queued K s' @ classified K s')
    \<and> distinct (map (cname (students s)) (queued K s'))"
proof -
  let ?h = "students s" and ?ps = "queued K s"
  let ?T = "takeWhile (boy_or_girl ?h) ?ps" and ?D = "dropWhile (boy_or_girl ?h) ?ps"
  have two: "length (g_stu_hlist s) = 2" using assms(2) by (simp add: school_inv_def MAX_HLIST_COUNT_def)
  have "\<exists>s'. classify_loop K ?ps s = Some s' \<and> students s' = ?h \<and> length (g_stu_hlist s') = 2 \<and> queued K s' = tl ?D @ []
    \<and> kl_entries K (g_stu_hlist s' ! 0) = rev (filter (sexed ?h CHR ''m'') ?T) @ kl_entries K (g_stu_hlist s ! 0)
    \<and> kl_entries K (g_stu_hlist s' ! 1) = rev (filter (sexed ?h CHR ''f'') ?T) @ kl_entries K (g_stu_hlist s ! 1)"
    using assms two by (intro classify_loop_spec) (auto simp: school_inv_def)
  then obtain s' where s': "classify_stu K s = Some s'" "students s' = ?h" "length (g_stu_hlist s') = 2" "queued K s' = tl ?D"
      "kl_entries K (g_stu_hlist s' ! 0) = rev (filter (sexed ?h CHR ''m'') ?T) @ kl_entries K (g_stu_hlist s ! 0)"
      "kl_entries K (g_stu_hlist s' ! 1) = rev (filter (sexed ?h CHR ''f'') ?T) @ kl_entries K (g_stu_hlist s ! 1)"
    unfolding classify_stu_def append_Nil2 by blast
  have "\<forall>p \<in> set ?T. boy_or_girl ?h p" by (blast dest: set_takeWhileD)
  note bg = mset_boys_girls [OF this]
  have "mset (classified K s') = mset ?T + mset (classified K s)"
    unfolding concat_two [OF s'(3)] concat_two [OF two] s'(5,6) bg [symmetric] by simp
  moreover have "mset ?ps = mset ?T + mset ?D" by (metis mset_append takeWhile_dropWhile_id)
  moreover have "mset ?D = mset (lost K s) + mset (tl ?D)"
    unfolding lost_def by (rule mset_take_tl)
  ultimately have "mset (queued K s @ classified K s) = mset (lost K s) + mset (queued K s' @ classified K s')"
    using s'(4) by simp
  moreover have "distinct (map (cname ?h) (tl ?D))"
  proof -
    have "distinct (map (cname ?h) (?T @ ?D))"
      using assms(2) unfolding takeWhile_dropWhile_id school_inv_def by blast
    then have "distinct (map (cname ?h) ?D)" unfolding map_append distinct_append by blast
    then show ?thesis by (simp add: map_tl distinct_tl)
  qed
  ultimately show ?thesis using s' by (auto simp: MAX_HLIST_COUNT_def)
qed

lemma classify_stu_inv:
  assumes "klist_ok K" "school_inv K s" "classify_stu K s = Some s'"
  shows "school_inv K s' \<and> students s' = students s
    \<and> (no_leak K s \<longrightarrow> lost K s = [] \<longrightarrow> no_leak K s')"
proof -
  have s': "students s' = students s" "length (g_stu_hlist s') = MAX_HLIST_COUNT"
      "mset (queued K s @ classified K s) = mset (lost K s @ queued K s' @ classified K s')"
      "distinct (map (cname (students s)) (queued K s'))"
    using classify_stu_total [OF assms(1,2)] assms(3) by auto
  have "distinct (lost K s @ queued K s' @ classified K s')"
    using mset_eq_imp_distinct_iff [OF s'(3)] assms(2) by (simp add: school_inv_def)
  moreover have sets: "set (queued K s @ classified K s) = set (lost K s @ queued K s' @ classified K s')"
    using mset_eq_setD [OF s'(3)] .
  moreover have "set (queued K s' @ classified K s') \<subseteq> fst ` set (students s)"
    using sets assms(2) by (auto simp: school_inv_def)
  ultimately have "school_inv K s'"
    using assms(2) s' unfolding school_inv_def by simp
  then show ?thesis
    using s'(1) sets by (auto simp: no_leak_def)
qed

section \<open>Cleaning up\<close>

lemma clean_hlists_spec:
  assumes "klist_ok K" "distinct (concat (map (kl_entries K) ls))" "set (concat (map (kl_entries K) ls)) \<subseteq> fst ` set h"
  shows "\<exists>ls'. clean_hlists K ls h = Some (ls', filter (\<lambda>(q, x). q \<notin> set (concat (map (kl_entries K) ls))) h)
    \<and> concat (map (kl_entries K) ls') = []"
  using assms(2,3)
proof (induction ls arbitrary: h)
  case (Cons l ls)
  let ?h = "filter (\<lambda>(q, x). q \<notin> set (kl_entries K l)) h"
  obtain l' where "free_entries K (kl_entries K l) l h = Some (l', ?h)" "kl_entries K l' = []"
    using free_entries_all [OF assms(1), of "kl_entries K l" l "[]" h] Cons.prems by auto
  moreover have "set (concat (map (kl_entries K) ls)) \<subseteq> fst ` set ?h"
    using Cons.prems by force
  then obtain ls' where "clean_hlists K ls ?h = Some (ls', filter (\<lambda>(q, x). q \<notin> set (concat (map (kl_entries K) ls))) ?h)"
      "concat (map (kl_entries K) ls') = []"
    using Cons.IH [of ?h] Cons.prems by auto
  ultimately show ?case by (auto intro!: filter_cong)
qed simp

lemma clean_up_spec:
  assumes "klist_ok K" "school_inv K s"
  shows "\<exists>s'. clean_up K s = Some s' \<and> queued K s' = [] \<and> classified K s' = []
    \<and> students s' = filter (\<lambda>(q, x). q \<notin> set (queued K s @ classified K s)) (students s)"
proof -
  let ?h = "filter (\<lambda>(q, x). q \<notin> set (queued K s)) (students s)"
  note inv = assms(2) [unfolded school_inv_def]
  obtain l where l: "free_entries K (queued K s) (g_student_list s) (students s) = Some (l, ?h)" "kl_entries K l = []"
    using free_entries_all [OF assms(1), of "queued K s" "g_student_list s" "[]" "students s"] inv by auto
  have "set (classified K s) \<subseteq> fst ` set ?h"
    using inv by force
  then obtain ls where "clean_hlists K (g_stu_hlist s) ?h = Some (ls, filter (\<lambda>(q, x). q \<notin> set (classified K s)) ?h)"
      "concat (map (kl_entries K) ls) = []"
    using clean_hlists_spec [OF assms(1), of "g_stu_hlist s" ?h] inv by auto
  with l show ?thesis
    by (auto simp: clean_up_def clean_up_list_def clean_up_hlist_def intro!: filter_cong)
qed

section \<open>The life of the module\<close>

text \<open>
  The states the registry can get into: it starts empty and the exported operations are called in any
  order, with names of at most 31 characters and with the sexes listed.
\<close>

inductive school_reach :: "'l klist \<Rightarrow> (student heap \<Rightarrow> addr option) \<Rightarrow> char list \<Rightarrow> 'l school \<Rightarrow> bool"
  for K kmalloc sexes where
  start: "students s = [] \<Longrightarrow> queued K s = [] \<Longrightarrow> school_reach K kmalloc sexes (init_hlists K s)"
| add: "school_reach K kmalloc sexes s \<Longrightarrow> good_name name \<Longrightarrow> sex \<in> set sexes \<Longrightarrow>
    add_stu K kmalloc name sex age s = Some (rv, s') \<Longrightarrow> school_reach K kmalloc sexes s'"
| del: "school_reach K kmalloc sexes s \<Longrightarrow> good_name name \<Longrightarrow>
    del_stu K name s = Some (rv, s') \<Longrightarrow> school_reach K kmalloc sexes s'"
| classify: "school_reach K kmalloc sexes s \<Longrightarrow> classify_stu K s = Some s' \<Longrightarrow> school_reach K kmalloc sexes s'"

definition only_sexes :: "char list \<Rightarrow> 'l school \<Rightarrow> bool" where
  "only_sexes sexes s \<longleftrightarrow> (\<forall>(p, stu) \<in> set (students s). m_sex stu \<in> set sexes)"

lemma school_reach_inv:
  assumes "klist_ok K" "kmalloc_ok kmalloc" "school_reach K kmalloc sexes s"
  shows "school_inv K s \<and> only_sexes sexes s"
  using assms(3)
proof induction
  case (start s)
  then show ?case
    using assms(1) by (simp add: school_inv_def init_hlists_def terminated_def only_sexes_def MAX_HLIST_COUNT_def numeral_2_eq_2)
next
  case (add s name sex age rv s')
  then show ?case
    using add_stu_inv(3) [OF assms(1,2), of s name sex age rv s' "\<lambda>c. c \<in> set sexes"]
      add_stu_inv(1) [OF assms(1,2), of s name sex age rv s'] by (auto simp: only_sexes_def)
next
  case (del s name rv s')
  then show ?case
    using del_stu_inv [OF assms(1), of s name rv s'] unfolding only_sexes_def by blast
next
  case (classify s s')
  then show ?case
    using classify_stu_inv [OF assms(1), of s s'] unfolding only_sexes_def by metis
qed

lemma lost_none:
  assumes "school_inv K s" "only_sexes [CHR ''m'', CHR ''f''] s"
  shows "lost K s = []"
proof -
  have "boy_or_girl (students s) p" if p: "p \<in> set (queued K s)" for p
  proof -
    have "p \<in> fst ` set (students s)" using p assms(1) by (auto simp: school_inv_def)
    then obtain stu where "map_of (students s) p = Some stu"
      by (metis map_of_eq_None_iff not_Some_eq)
    moreover from this have "m_sex stu = CHR ''m'' \<or> m_sex stu = CHR ''f''"
      using assms(2) by (force simp: only_sexes_def dest: map_of_SomeD)
    ultimately show ?thesis by (auto simp: sexed_def)
  qed
  then show ?thesis by (simp add: lost_def)
qed

lemma school_reach_no_leak:
  assumes "klist_ok K" "kmalloc_ok kmalloc" "school_reach K kmalloc [CHR ''m'', CHR ''f''] s"
  shows "no_leak K s"
  using assms(3)
proof induction
  case (start s)
  then show ?case by (simp add: no_leak_def init_hlists_def)
next
  case (add s name sex age rv s')
  then show ?case using add_stu_inv(2) [OF assms(1,2)] school_reach_inv [OF assms(1,2)] by blast
next
  case (del s name rv s')
  then show ?case using del_stu_inv [OF assms(1)] school_reach_inv [OF assms(1,2)] by blast
next
  case (classify s s')
  then show ?case
    using classify_stu_inv [OF assms(1)] school_reach_inv [OF assms(1,2)] lost_none by blast
qed

section \<open>Properties\<close>

text \<open>
  C34: the life of the student registry. However the exported operations are called (names of at most
  31 characters), no operation faults: in every state they can reach, every student on a list is
  allocated and on one list only, the students waiting to be classified have different names, adding,
  deleting and classifying complete, and unloading the module frees every student on a list exactly
  once and leaves the lists empty. When every student is \<open>m\<close> or \<open>f\<close>, nothing remains allocated.
\<close>

theorem school_life:
  assumes "klist_ok K" "kmalloc_ok kmalloc" "school_reach K kmalloc sexes s" "good_name name"
  shows "distinct (queued K s @ classified K s) \<and> distinct (map (cname (students s)) (queued K s))
    \<and> add_stu K kmalloc name sex age s \<noteq> None \<and> del_stu K name s \<noteq> None \<and> classify_stu K s \<noteq> None
    \<and> (\<exists>s'. student_mgt_exit K s = Some s' \<and> queued K s' = [] \<and> classified K s' = []
         \<and> students s' = filter (\<lambda>(p, stu). p \<notin> set (queued K s @ classified K s)) (students s)
         \<and> (sexes = [CHR ''m'', CHR ''f''] \<longrightarrow> students s' = []))"
proof -
  have inv: "school_inv K s" using school_reach_inv assms(1-3) by blast
  have "distinct (queued K s @ classified K s)" "distinct (map (cname (students s)) (queued K s))"
    using inv by (simp_all add: school_inv_def)
  moreover have "add_stu K kmalloc name sex age s \<noteq> None"
    by (rule add_stu_cases [OF assms(1,2) inv assms(4), of sex age]) simp_all
  moreover have "del_stu K name s \<noteq> None"
    by (rule del_stu_cases [OF inv assms(4)]) simp_all
  moreover have "classify_stu K s \<noteq> None"
    using classify_stu_total [OF assms(1) inv] by auto
  moreover obtain s' where s': "clean_up K s = Some s'" "queued K s' = []" "classified K s' = []"
      "students s' = filter (\<lambda>(p, stu). p \<notin> set (queued K s @ classified K s)) (students s)"
    using clean_up_spec [OF assms(1) inv] by blast
  moreover have "students s' = []" if "sexes = [CHR ''m'', CHR ''f'']"
  proof -
    have "no_leak K s" using school_reach_no_leak assms(1-3) that by blast
    then show ?thesis unfolding s'(4) by (force simp: no_leak_def filter_empty_conv)
  qed
  ultimately show ?thesis by (simp add: student_mgt_exit_def)
qed

definition empty_school :: "addr list school" where
  "empty_school = \<lparr>students = [], g_student_list = [], g_stu_hlist = []\<rparr>"

abbreviation Tom_in :: "addr list school" where
  "Tom_in \<equiv> snd (the (add_stu plain_list top_alloc ''Tom'' CHR ''m'' 18 (init_hlists plain_list empty_school)))"

lemma Tom_in_reach: "school_reach plain_list top_alloc [CHR ''m'', CHR ''f''] Tom_in"
proof (rule school_reach.add)
  show "school_reach plain_list top_alloc [CHR ''m'', CHR ''f''] (init_hlists plain_list empty_school)"
    by (rule school_reach.start) (simp_all add: empty_school_def plain_list_def)
  show "add_stu plain_list top_alloc ''Tom'' CHR ''m'' 18 (init_hlists plain_list empty_school) = Some (0, Tom_in)"
    by (simp add: add_stu_def init_hlists_def empty_school_def plain_list_def top_alloc_def strncpy_all_def MAX_STRING_LEN_def)
qed (simp_all add: good_name_def MAX_STRING_LEN_def)

theorem school_life_witness:
  "\<exists>s'. students Tom_in \<noteq> [] \<and> student_mgt_exit plain_list Tom_in = Some s' \<and> students s' = []"
  using school_life [OF plain_list_ok top_alloc_ok Tom_in_reach, of "''Jerry''" "CHR ''f''" 17]
  by (auto simp: good_name_def MAX_STRING_LEN_def add_stu_def init_hlists_def empty_school_def plain_list_def
      top_alloc_def strncpy_all_def)

text \<open>
  adding and deleting are inverse. When nobody waiting has the name and memory is available,
  \<open>add_stu\<close> returns 0 and puts the student, with its name, sex and age, at the end of the list;
  adding the same name again is refused with -1 and changes nothing; \<open>del_stu\<close> of the name returns 0
  and restores the registry, and a second \<open>del_stu\<close> returns -1.
\<close>

theorem add_del_roundtrip:
  assumes "klist_ok K" "kmalloc_ok kmalloc" "kmalloc (students s) = Some p" "school_inv K s" "good_name name"
    and "name \<notin> cname (students s) ` set (queued K s)"
  shows "\<exists>s1 s2 stu. add_stu K kmalloc name sex age s = Some (0, s1)
    \<and> queued K s1 = queued K s @ [p] \<and> map_of (students s1) p = Some stu \<and> cname (students s1) p = name
    \<and> m_sex stu = sex \<and> m_age stu = age
    \<and> add_stu K kmalloc name sex' age' s1 = Some (- 1, s1)
    \<and> del_stu K name s1 = Some (0, s2)
    \<and> students s2 = students s \<and> queued K s2 = queued K s \<and> g_stu_hlist s2 = g_stu_hlist s
    \<and> del_stu K name s2 = Some (- 1, s2)"
proof -
  obtain stu where stu: "add_stu K kmalloc name sex age s =
      Some (0, s\<lparr>students := (p, stu) # students s, g_student_list := kl_add_tail K p (g_student_list s)\<rparr>)"
      "takeWhile (\<lambda>c. c \<noteq> CHR 0x00) (m_name stu) = name" "m_sex stu = sex" "m_age stu = age"
    using add_stu_new [of K kmalloc s p name sex age] assms by blast
  define s1 where "s1 = s\<lparr>students := (p, stu) # students s, g_student_list := kl_add_tail K p (g_student_list s)\<rparr>"
  have add: "add_stu K kmalloc name sex age s = Some (0, s1)" using stu(1) by (simp add: s1_def)
  have q1: "queued K s1 = queued K s @ [p]" using assms(1) by (simp add: s1_def)
  have inv1: "school_inv K s1" using add_stu_inv(1) [OF assms(1,2,4,5) add] .
  have name1: "cname (students s1) p = name" using stu(2) by (simp add: s1_def cname_def)
  have fresh: "p \<notin> fst ` set (students s)" using kmalloc_fresh [OF assms(2,3)] .
  then have same: "filter (\<lambda>(q, x). q \<noteq> p) (students s) = students s"
    by (force intro: filter_True)
  have again: "add_stu K kmalloc name sex' age' s1 = Some (- 1, s1)"
    using name1 q1 by (intro add_stu_known [OF inv1 assms(5)]) auto
  obtain r where r: "del_stu K name s1 =
      Some (0, s1\<lparr>students := filter (\<lambda>(q, x). q \<noteq> r) (students s1), g_student_list := kl_del K r (g_student_list s1)\<rparr>)"
      "r \<in> set (queued K s1)" "cname (students s1) r = name"
    using del_stu_cases [OF inv1 assms(5)] name1 q1 by (metis UnCI image_eqI list.set_intros(1) set_append)
  have "r = p"
  proof (rule ccontr)
    assume "r \<noteq> p"
    then have "r \<in> set (queued K s)" "cname (students s) r = name"
      using r(2,3) q1 by (auto simp: s1_def cname_Cons)
    then show False using assms(6) by blast
  qed
  define s2 where "s2 = s1\<lparr>students := students s, g_student_list := kl_del K p (g_student_list s1)\<rparr>"
  have del: "del_stu K name s1 = Some (0, s2)"
    using r(1) \<open>r = p\<close> same by (simp add: s1_def s2_def)
  have inv2: "school_inv K s2" using del_stu_inv [OF assms(1) inv1 assms(5) del] by blast
  have "p \<notin> set (queued K s)" using fresh assms(4) by (auto simp: school_inv_def)
  then have q2: "queued K s2 = queued K s" using assms(1) q1 by (simp add: s2_def remove1_append)
  have "del_stu K name s2 = Some (- 1, s2)"
    using del_stu_cases [OF inv2 assms(5)] assms(6) q2 by (fastforce simp: s2_def)
  then show ?thesis
    using add again del q1 q2 name1 stu(3,4) by (force simp: s1_def s2_def)
qed

theorem add_del_roundtrip_witness:
  "\<exists>s1 s2. add_stu plain_list top_alloc ''Tom'' CHR ''m'' 18 (init_hlists plain_list empty_school) = Some (0, s1)
    \<and> add_stu plain_list top_alloc ''Tom'' CHR ''f'' 20 s1 = Some (- 1, s1)
    \<and> del_stu plain_list ''Tom'' s1 = Some (0, s2) \<and> students s2 = []"
proof -
  have "school_inv plain_list (init_hlists plain_list empty_school)"
    by (simp add: school_inv_def init_hlists_def empty_school_def plain_list_def terminated_def MAX_HLIST_COUNT_def)
  then show ?thesis
    using add_del_roundtrip [OF plain_list_ok top_alloc_ok, of "init_hlists plain_list empty_school" 1 "''Tom''"
        "CHR ''m''" 18 "CHR ''f''" 20]
    by (auto simp: good_name_def MAX_STRING_LEN_def init_hlists_def empty_school_def plain_list_def top_alloc_def)
qed

text \<open>
  C35: what \<open>classify_stu\<close> does. The students of the list are taken in order; each boy and each girl
  goes to the front of its hash list, until the first student of another sex, who is taken off the
  list and put nowhere (unloading the module cannot free that student any more), while those behind
  it stay. Without such a student the list ends up empty and every student is classified.
\<close>

theorem classify_splits:
  assumes "klist_ok K" "school_inv K s"
  shows "\<exists>s'. classify_stu K s = Some s' \<and> students s' = students s
    \<and> kl_entries K (g_stu_hlist s' ! 0) =
        rev (filter (sexed (students s) CHR ''m'') (takeWhile (boy_or_girl (students s)) (queued K s))) @ kl_entries K (g_stu_hlist s ! 0)
    \<and> kl_entries K (g_stu_hlist s' ! 1) =
        rev (filter (sexed (students s) CHR ''f'') (takeWhile (boy_or_girl (students s)) (queued K s))) @ kl_entries K (g_stu_hlist s ! 1)
    \<and> queued K s' = tl (dropWhile (boy_or_girl (students s)) (queued K s))
    \<and> set (lost K s) \<inter> set (queued K s' @ classified K s') = {}"
proof -
  have two: "length (g_stu_hlist s) = 2" using assms(2) by (simp add: school_inv_def MAX_HLIST_COUNT_def)
  obtain s' where s': "classify_loop K (queued K s) s = Some s'"
      "mset (queued K s @ classified K s) = mset (lost K s @ queued K s' @ classified K s')"
    using classify_stu_total [OF assms] by (auto simp: classify_stu_def)
  have "distinct (lost K s @ queued K s' @ classified K s')"
    using mset_eq_imp_distinct_iff [OF s'(2)] assms(2) by (simp add: school_inv_def)
  then have "set (lost K s) \<inter> set (queued K s' @ classified K s') = {}"
    unfolding distinct_append by blast
  then show ?thesis
    using classify_loop_spec [OF assms(1) two, of "queued K s" "[]"] s'(1) assms(2)
    by (auto simp: classify_stu_def school_inv_def)
qed

theorem classify_splits_witness:
  "\<exists>s'. classify_stu plain_list Tom_in = Some s' \<and> kl_entries plain_list (g_stu_hlist s' ! 0) = [1] \<and> queued plain_list s' = []"
proof -
  have "school_inv plain_list Tom_in"
    using school_reach_inv [OF plain_list_ok top_alloc_ok Tom_in_reach] by blast
  then show ?thesis
    using classify_splits [OF plain_list_ok, of Tom_in]
    by (auto simp: sexed_def add_stu_def init_hlists_def empty_school_def plain_list_def top_alloc_def strncpy_all_def
        MAX_STRING_LEN_def MAX_HLIST_COUNT_def)
qed

end
