(* ===== verification/Waitqueue.thy ===== *)
theory Waitqueue
  imports Prelude
begin

text \<open>
  The character device of \<open>waitqueue/waitqueue.c\<close>: writers append to a buffer of 1024 bytes and
  readers sleep until \<open>flag\<close> is set and take what has been written since the last read. The bodies
  under the spin lock are single steps; between them any number of readers and writers interleave.
  What \<open>copy_to_user\<close>, \<open>copy_from_user\<close> and \<open>wait_event_interruptible\<close> report is input. An access
  outside the buffer is a fault (\<open>None\<close>).
\<close>

section \<open>The device\<close>

definition LEN :: nat where "LEN = 1024"

record globalvar =
  global_var :: "u8 list"
  read_index :: int
  write_index :: int
  flag :: int

text \<open>
  The locked part of \<open>globalvar_read\<close>; \<open>uncopied\<close> is what \<open>copy_to_user\<close> returns. The bytes are
  what reaches the user's buffer. The user's length is not looked at.
\<close>

definition read_locked :: "nat \<Rightarrow> globalvar \<Rightarrow> (int \<times> u8 list \<times> globalvar) option" where
  "read_locked uncopied g =
     (let read_len = write_index g - read_index g in
      if read_index g < 0 \<or> read_len < 0 \<or> int (length (global_var g)) < read_index g + read_len then None
      else
        let bytes = take (nat read_len) (drop (nat (read_index g)) (global_var g)) in
        if uncopied \<noteq> 0 then Some (- EFAULT, take (nat read_len - uncopied) bytes, g)
        else Some (read_len, bytes, g\<lparr>read_index := write_index g, flag := 0\<rparr>))"

text \<open>
  \<open>globalvar_write\<close>: the locked part copies the user's bytes, \<open>uncopied\<close> of them being left out on
  a fault of the user's memory (their places are filled with zeros), and advances the index; then, outside the lock, the flag is set.
\<close>

definition write_locked :: "nat \<Rightarrow> u8 list \<Rightarrow> globalvar \<Rightarrow> (bool \<times> globalvar) option" where
  "write_locked uncopied buf g =
     (if write_index g < 0 \<or> int (length (global_var g)) < write_index g + int (length buf) then None
      else
        let at = nat (write_index g); copied = take (length buf - uncopied) buf @ replicate (min uncopied (length buf)) 0;
            g = g\<lparr>global_var := take at (global_var g) @ copied @ drop (at + length copied) (global_var g)\<rparr> in
        if uncopied \<noteq> 0 then Some (False, g)
        else Some (True, g\<lparr>write_index := write_index g + int (length buf)\<rparr>))"

definition set_flag :: "globalvar \<Rightarrow> globalvar" where
  "set_flag g = g\<lparr>flag := 1\<rparr>"

section \<open>Readers and writers\<close>

text \<open>
  Where a call is: a reader waiting, a reader past the wait, a writer before the lock, a writer
  about to set the flag, and a call that has returned.
\<close>

datatype call =
    Waiting
  | Reading
  | Writing "u8 list"
  | Flagging nat
  | Returned int

text \<open>
  The device with the calls in progress; \<open>given\<close> and \<open>taken\<close> record the bytes that writers have put
  in and that successful reads have handed out, in order.
\<close>

record system =
  dev :: globalvar
  calls :: "call list"
  given :: "u8 list"
  taken :: "u8 list"

datatype event =
    Call_read
  | Call_write "u8 list"
  | Wake nat
  | Interrupt nat
  | Read nat nat
  | Write nat nat
  | Flag nat

text \<open>
  What an event does: \<open>Disabled\<close> when the call is not at that point (or still asleep), \<open>Fault\<close> when
  the code leaves the buffer.
\<close>

datatype outcome = Disabled | Fault | Next system

definition at_call :: "system \<Rightarrow> nat \<Rightarrow> call option" where
  "at_call s i = (if i < length (calls s) then Some (calls s ! i) else None)"

definition goto :: "nat \<Rightarrow> call \<Rightarrow> system \<Rightarrow> system" where
  "goto i c s = s\<lparr>calls := (calls s)[i := c]\<rparr>"

fun gv_exec :: "event \<Rightarrow> system \<Rightarrow> outcome" where
  "gv_exec Call_read s = Next (s\<lparr>calls := calls s @ [Waiting]\<rparr>)"
| "gv_exec (Call_write buf) s = Next (s\<lparr>calls := calls s @ [Writing buf]\<rparr>)"
| "gv_exec (Wake i) s =
     (if at_call s i = Some Waiting \<and> flag (dev s) \<noteq> 0 then Next (goto i Reading s) else Disabled)"
| "gv_exec (Interrupt i) s =
     (if at_call s i = Some Waiting then Next (goto i (Returned (- ERESTARTSYS)) s) else Disabled)"
| "gv_exec (Read i uncopied) s =
     (if at_call s i \<noteq> Some Reading then Disabled
      else case read_locked uncopied (dev s) of None \<Rightarrow> Fault
           | Some (rv, bytes, g) \<Rightarrow>
               Next (goto i (Returned rv) (s\<lparr>dev := g, taken := taken s @ (if 0 \<le> rv then bytes else [])\<rparr>)))"
| "gv_exec (Write i uncopied) s =
     (case at_call s i of
        Some (Writing buf) \<Rightarrow>
          (case write_locked uncopied buf (dev s) of None \<Rightarrow> Fault
           | Some (done, g) \<Rightarrow>
               Next (goto i (if done then Flagging (length buf) else Returned (- EFAULT))
                 (s\<lparr>dev := g, given := given s @ (if done then buf else [])\<rparr>)))
      | _ \<Rightarrow> Disabled)"
| "gv_exec (Flag i) s =
     (case at_call s i of
        Some (Flagging n) \<Rightarrow> Next (goto i (Returned (int n)) (s\<lparr>dev := set_flag (dev s)\<rparr>))
      | _ \<Rightarrow> Disabled)"

definition gv_start :: system where
  "gv_start = \<lparr>dev = \<lparr>global_var = replicate LEN 0, read_index = 0, write_index = 0, flag = 0\<rparr>,
     calls = [], given = [], taken = []\<rparr>"

inductive gv_reach :: "system \<Rightarrow> bool" where
  start: "gv_reach gv_start"
| step: "gv_reach s \<Longrightarrow> gv_exec e s = Next s' \<Longrightarrow> gv_reach s'"

section \<open>The invariant\<close>

definition gv_inv :: "system \<Rightarrow> bool" where
  "gv_inv s \<longleftrightarrow>
     length (global_var (dev s)) = LEN
   \<and> 0 \<le> read_index (dev s) \<and> read_index (dev s) \<le> write_index (dev s) \<and> write_index (dev s) \<le> int LEN
   \<and> given s = take (nat (write_index (dev s))) (global_var (dev s))
   \<and> taken s = take (nat (read_index (dev s))) (given s)
   \<and> (read_index (dev s) < write_index (dev s) \<longrightarrow>
        flag (dev s) \<noteq> 0 \<or> (\<exists>i n. at_call s i = Some (Flagging n)))"

lemma at_call_goto: "i < length (calls s) \<Longrightarrow> at_call (goto i c s) j = (if j = i then Some c else at_call s j)"
  by (simp add: at_call_def goto_def)

lemma at_call_SomeD: "at_call s i = Some c \<Longrightarrow> i < length (calls s)"
  by (simp add: at_call_def split: if_splits)

text \<open>One lemma per kind of event; each keeps the whole invariant.\<close>

lemma gv_inv_calls: "gv_inv s \<Longrightarrow> \<forall>i n. at_call s i = Some (Flagging n) \<longrightarrow> at_call (s\<lparr>calls := cs\<rparr>) i = Some (Flagging n) \<Longrightarrow> gv_inv (s\<lparr>calls := cs\<rparr>)"
  unfolding gv_inv_def by simp blast

lemma gv_inv_new: "gv_inv s \<Longrightarrow> gv_inv (s\<lparr>calls := calls s @ [c]\<rparr>)"
  by (rule gv_inv_calls) (auto simp: at_call_def nth_append split: if_splits)

lemma gv_inv_goto:
  assumes "gv_inv s" "at_call s i = Some c" "\<forall>n. c \<noteq> Flagging n"
  shows "gv_inv (goto i c' s)"
  unfolding goto_def using assms
  by (intro gv_inv_calls) (auto simp: at_call_def nth_list_update split: if_splits)

lemma gv_inv_read:
  assumes inv: "gv_inv s" and at: "at_call s i = Some Reading" and r: "read_locked uncopied (dev s) = Some (rv, bytes, g)"
  shows "gv_inv (goto i (Returned rv) (s\<lparr>dev := g, taken := taken s @ (if 0 \<le> rv then bytes else [])\<rparr>))"
proof (cases "uncopied = 0")
  case True
  have g: "g = (dev s)\<lparr>read_index := write_index (dev s), flag := 0\<rparr>" "rv = write_index (dev s) - read_index (dev s)"
      "bytes = take (nat rv) (drop (nat (read_index (dev s))) (global_var (dev s)))"
    using r True by (auto simp: read_locked_def Let_def split: if_splits)
  have le: "0 \<le> read_index (dev s)" "read_index (dev s) \<le> write_index (dev s)"
    using inv by (simp_all add: gv_inv_def)
  then have "nat (read_index (dev s)) + nat rv = nat (write_index (dev s))" "0 \<le> rv"
    using g(2) by simp_all
  then have "taken s @ bytes = take (nat (write_index (dev s))) (global_var (dev s))"
    using inv le by (simp add: gv_inv_def g(3) min_def take_add [symmetric])
  then show ?thesis
    using inv \<open>0 \<le> rv\<close> by (auto simp: gv_inv_def g(1) goto_def)
next
  case False
  then have "g = dev s" "rv < 0"
    using r by (auto simp: read_locked_def Let_def EFAULT_def split: if_splits)
  then show ?thesis
    using gv_inv_goto [OF inv at, of "Returned rv"] by (simp add: goto_def)
qed

text \<open>What a write leaves: the bytes before the index are the same, and after a success the new ones follow.\<close>

lemma overwrite:
  assumes "at + length c \<le> length v"
  shows "length (take at v @ c @ drop (at + length c) v) = length v"
    and "take at (take at v @ c @ drop (at + length c) v) = take at v"
    and "take (at + length c) (take at v @ c @ drop (at + length c) v) = take at v @ c"
  using assms by simp_all

lemma write_lockedE:
  assumes "write_locked uncopied buf g = Some (fin, g')" and len: "length (global_var g) = LEN"
  obtains v where "0 \<le> write_index g" and "nat (write_index g) + length buf \<le> LEN" and "length v = LEN"
    and "take (nat (write_index g)) v = take (nat (write_index g)) (global_var g)"
    and "fin \<Longrightarrow> take (nat (write_index g) + length buf) v = take (nat (write_index g)) (global_var g) @ buf"
    and "g' = (if fin then g\<lparr>global_var := v, write_index := write_index g + int (length buf)\<rparr> else g\<lparr>global_var := v\<rparr>)"
proof -
  define c where "c = take (length buf - uncopied) buf @ replicate (min uncopied (length buf)) 0"
  define v where "v = take (nat (write_index g)) (global_var g) @ c @ drop (nat (write_index g) + length c) (global_var g)"
  have c: "length c = length buf" by (simp add: c_def)
  have fit: "0 \<le> write_index g" "nat (write_index g) + length buf \<le> LEN"
    using assms by (auto simp: write_locked_def split: if_splits)
  have g': "fin \<longleftrightarrow> uncopied = 0"
    "g' = (if fin then g\<lparr>global_var := v, write_index := write_index g + int (length buf)\<rparr> else g\<lparr>global_var := v\<rparr>)"
    using assms(1) unfolding write_locked_def Let_def c_def [symmetric] v_def [symmetric] by (simp_all split: if_splits)
  note v = overwrite [of "nat (write_index g)" c "global_var g", folded v_def, unfolded c len, OF fit(2)]
  have "c = buf" if fin using that g'(1) by (simp add: c_def)
  then show thesis using that [OF fit v(1,2) _ g'(2)] v(3) by simp
qed

lemma gv_inv_write:
  assumes inv: "gv_inv s" and at: "at_call s i = Some (Writing buf)" and w: "write_locked uncopied buf (dev s) = Some (fin, g)"
  shows "gv_inv (goto i (if fin then Flagging (length buf) else Returned (- EFAULT))
           (s\<lparr>dev := g, given := given s @ (if fin then buf else [])\<rparr>))"
proof -
  let ?d = "dev s" and ?at = "nat (write_index (dev s))"
  have "length (global_var ?d) = LEN" using inv by (simp add: gv_inv_def)
  from write_lockedE [OF w this] obtain v where
      fit: "0 \<le> write_index ?d" "?at + length buf \<le> LEN" and v: "length v = LEN" "take ?at v = take ?at (global_var ?d)"
    and fin: "fin \<Longrightarrow> take (?at + length buf) v = take ?at (global_var ?d) @ buf"
    and g: "g = (if fin then ?d\<lparr>global_var := v, write_index := write_index ?d + int (length buf)\<rparr> else ?d\<lparr>global_var := v\<rparr>)"
    by blast
  have i: "i < length (calls s)" using at_call_SomeD [OF at] .
  show ?thesis
  proof (cases fin)
    case True
    have "nat (write_index ?d + int (length buf)) = ?at + length buf" using fit by simp
    moreover define s' where "s' = goto i (Flagging (length buf)) (s\<lparr>dev := g, given := given s @ buf\<rparr>)"
    moreover have "dev s' = g" "given s' = given s @ buf" "taken s' = taken s" "at_call s' i = Some (Flagging (length buf))"
      using i by (simp_all add: s'_def goto_def at_call_def)
    moreover have "taken s = take (nat (read_index ?d)) (given s @ buf)"
      using inv fit by (auto simp: gv_inv_def nat_mono)
    ultimately have "gv_inv s'"
      using inv fit v(1) fin [OF True] g True unfolding gv_inv_def by auto
    then show ?thesis using True by (simp add: s'_def)
  next
    case False
    have "gv_inv (goto i (Returned (- EFAULT)) s)" using gv_inv_goto [OF inv at] by simp
    moreover define t where "t = goto i (Returned (- EFAULT)) s"
    moreover define s' where "s' = goto i (Returned (- EFAULT)) (s\<lparr>dev := g\<rparr>)"
    moreover have "dev s' = g" "given s' = given t" "taken s' = taken t" "at_call s' = at_call t" "dev t = ?d"
      by (simp_all add: s'_def t_def goto_def at_call_def fun_eq_iff)
    ultimately have "gv_inv s'"
      using g v False unfolding gv_inv_def by simp
    then show ?thesis using False by (simp add: s'_def)
  qed
qed

lemma gv_inv_exec: "gv_inv s \<Longrightarrow> gv_exec e s = Next s' \<Longrightarrow> gv_inv s'"
proof (induction e s rule: gv_exec.induct)
  case (5 i uncopied s)
  then obtain r where "read_locked uncopied (dev s) = Some r" "at_call s i = Some Reading"
    by (auto split: if_split_asm option.split_asm)
  then show ?case using 5 gv_inv_read [of s i uncopied] by (cases r) auto
next
  case (6 i uncopied s)
  then obtain buf r where "write_locked uncopied buf (dev s) = Some r" "at_call s i = Some (Writing buf)"
    by (auto split: option.split_asm call.split_asm)
  then show ?case using 6 gv_inv_write [of s i buf uncopied] by (cases r) auto
next
  case (7 i s)
  then show ?case
    by (auto simp: gv_inv_def set_flag_def goto_def split: option.splits call.splits)
qed (auto simp: gv_inv_new gv_inv_goto split: if_splits)

lemma gv_reach_inv: "gv_reach s \<Longrightarrow> gv_inv s"
proof (induction rule: gv_reach.induct)
  case start
  show ?case by (simp add: gv_inv_def gv_start_def)
qed (rule gv_inv_exec)

section \<open>Properties\<close>

text \<open>
  C36: the device is a queue of bytes, for any interleaving of readers and writers. In every state it
  can reach, what readers have got is a prefix of what writers have put in; a reader that gets the
  lock takes exactly the bytes no one has taken yet, in order, however many the user asked for, and
  returns their number. But the indices only grow: a write that brings the total number of bytes ever
  written above 1024 runs over the end of the buffer, even when everything has been read.
\<close>

theorem globalvar_fifo:
  assumes "gv_reach s"
  shows "taken s = take (length (taken s)) (given s) \<and> length (given s) \<le> LEN
    \<and> (at_call s i = Some Reading \<longrightarrow>
         (\<exists>s'. gv_exec (Read i 0) s = Next s' \<and> taken s' = given s \<and> given s' = given s
            \<and> at_call s' i = Some (Returned (int (length (given s)) - int (length (taken s))))))
    \<and> (at_call s j = Some (Writing buf) \<and> LEN < length (given s) + length buf \<longrightarrow> gv_exec (Write j uncopied) s = Fault)"
proof -
  note inv = gv_reach_inv [OF assms, unfolded gv_inv_def]
  have len: "length (given s) = nat (write_index (dev s))" "length (taken s) = nat (read_index (dev s))"
    using inv by (auto simp: nat_mono)
  have "\<exists>s'. gv_exec (Read i 0) s = Next s' \<and> taken s' = given s \<and> given s' = given s
      \<and> at_call s' i = Some (Returned (int (length (given s)) - int (length (taken s))))"
    if at: "at_call s i = Some Reading"
  proof -
    let ?rv = "write_index (dev s) - read_index (dev s)"
    obtain bytes g where r: "read_locked 0 (dev s) = Some (?rv, bytes, g)" "0 \<le> ?rv"
        "g = (dev s)\<lparr>read_index := write_index (dev s), flag := 0\<rparr>"
      using inv by (auto simp: read_locked_def Let_def)
    define s' where "s' = goto i (Returned ?rv) (s\<lparr>dev := g, taken := taken s @ bytes\<rparr>)"
    have e: "gv_exec (Read i 0) s = Next s'" using at r by (simp add: s'_def)
    then have "gv_inv s'" using gv_inv_exec gv_reach_inv [OF assms] by blast
    moreover have "given s' = given s" "at_call s' i = Some (Returned ?rv)"
      "read_index (dev s') = write_index (dev s)" "write_index (dev s') = write_index (dev s)"
      using at_call_SomeD [OF at] r(3) by (simp_all add: s'_def goto_def at_call_def)
    ultimately show ?thesis
      using e len inv by (auto simp: gv_inv_def)
  qed
  moreover have "gv_exec (Write j uncopied) s = Fault"
    if "at_call s j = Some (Writing buf)" "LEN < length (given s) + length buf"
    using that len(1) inv by (auto simp: write_locked_def)
  ultimately show ?thesis using len inv by auto
qed


definition gv_demo :: system where
  "gv_demo = \<lparr>dev = \<lparr>global_var = [5, 6] @ replicate 1022 0, read_index = 0, write_index = 2, flag = 0\<rparr>,
     calls = [Flagging 2, Waiting], given = [5, 6], taken = []\<rparr>"

lemma gv_demo_reach: "gv_reach gv_demo"
proof -
  let ?s1 = "gv_start\<lparr>calls := [Writing [5, 6]]\<rparr>"
  let ?s2 = "\<lparr>dev = dev gv_demo, calls = [Flagging 2], given = [5, 6], taken = []\<rparr>"
  have "gv_reach ?s1" by (rule gv_reach.step [OF gv_reach.start, of "Call_write [5, 6]"]) (simp add: gv_start_def)
  then have "gv_reach ?s2"
    by (rule gv_reach.step [where e = "Write 0 0"])
       (simp add: gv_start_def gv_demo_def at_call_def goto_def write_locked_def LEN_def)
  then show ?thesis
    by (rule gv_reach.step [where e = Call_read]) (simp add: gv_demo_def)
qed


definition gv_full :: system where
  "gv_full = gv_demo\<lparr>calls := calls gv_demo @ [Writing (replicate 1023 0)]\<rparr>"

theorem globalvar_fifo_witness:
  "length (given gv_full) \<le> LEN \<and> gv_exec (Write 2 0) gv_full = Fault"
proof -
  have "gv_reach gv_full"
    by (rule gv_reach.step [OF gv_demo_reach, of "Call_write (replicate 1023 0)"]) (simp add: gv_full_def)
  from globalvar_fifo [OF this, of 0 2 "replicate 1023 0" 0] show ?thesis
    by (simp add: gv_full_def gv_demo_def at_call_def LEN_def)
qed

end
