(* ===== verification/Epoll.thy ===== *)
theory Epoll
  imports Prelude
begin

text \<open>
  The epoll server and its client (\<open>epoll/epoll_server.c\<close>, \<open>epoll/epoll_client.c\<close>). What the
  kernel answers is input: the ready events with what \<open>accept\<close> or \<open>read\<close> returns for them, the lines
  typed at the client with what its \<open>write\<close> calls return. Reading past the end of a buffer is a fault
  (\<open>None\<close>).
\<close>

section \<open>The server\<close>

definition epoll_num :: nat where "epoll_num = 20"
definition BUFLEN :: nat where "BUFLEN = 128"

text \<open>
  \<open>socket_server\<close>, given what the system calls return: its result, and the socket it leaves open
  when it fails.
\<close>

definition socket_server :: "int \<Rightarrow> int \<Rightarrow> int \<Rightarrow> int \<times> int list" where
  "socket_server sock bnd lstn =
     (if sock < 0 then (-1, [])
      else if bnd < 0 then (-1, [sock])
      else if lstn < 0 then (-1, [sock])
      else (sock, [sock]))"

text \<open>
  The server: the descriptors registered with the epoll instance, those it has open, and what it has
  printed of each read, with the descriptor.
\<close>

record server =
  epoll_sockfd :: int
  interest :: "int list"
  open_fds :: "int list"
  printed :: "(int \<times> u8 list) list"

datatype verdict = Running server | Exited int server

text \<open>\<open>printf\<close> of a \<open>%s\<close> argument: the bytes up to the first NUL of the buffer.\<close>

definition c_bytes :: "u8 list \<Rightarrow> u8 list option" where
  "c_bytes buf = (if 0 \<in> set buf then Some (takeWhile (\<lambda>b. b \<noteq> 0) buf) else None)"

text \<open>
  An event is the descriptor that is ready with what the kernel returns when the server acts on it:
  the result of \<open>accept\<close> for the listening socket, the result of \<open>read\<close> and the bytes otherwise.
\<close>

type_synonym io_event = "int \<times> int \<times> u8 list"

definition handle_event :: "io_event \<Rightarrow> server \<Rightarrow> verdict option" where
  "handle_event = (\<lambda>(fd, rv, bytes) s.
     if fd = epoll_sockfd s then
       if rv < 0 then Some (Exited 1 s)
       else Some (Running (s\<lparr>interest := (if rv \<in> set (interest s) then interest s else interest s @ [rv]),
                             open_fds := open_fds s @ [rv]\<rparr>))
     else if 0 < rv then
       map_option (\<lambda>str. Running (s\<lparr>printed := printed s @ [(fd, str)]\<rparr>))
         (c_bytes (bytes @ replicate (BUFLEN - length bytes) 0))
     else if rv = 0 then Some (Running (s\<lparr>interest := removeAll fd (interest s)\<rparr>))
     else Some (Running s))"

fun handle_events :: "io_event list \<Rightarrow> server \<Rightarrow> verdict option" where
  "handle_events [] s = Some (Running s)"
| "handle_events (e # es) s =
     Option.bind (handle_event e s) (\<lambda>v. case v of Running s \<Rightarrow> handle_events es s | Exited st s \<Rightarrow> Some (Exited st s))"

text \<open>
  \<open>main\<close> after its set-up: each element is what one \<open>epoll_wait\<close> returns (nothing when it fails).
  The loop has no end of its own; the result is the state after the last \<open>epoll_wait\<close> of the list.
\<close>

fun server_loop :: "io_event list list \<Rightarrow> server \<Rightarrow> verdict option" where
  "server_loop [] s = Some (Running s)"
| "server_loop (es # rest) s =
     Option.bind (handle_events es s) (\<lambda>v. case v of Running s \<Rightarrow> server_loop rest s | Exited st s \<Rightarrow> Some (Exited st s))"

definition epoll_main :: "nat \<Rightarrow> int \<Rightarrow> int \<Rightarrow> int \<Rightarrow> io_event list list \<Rightarrow> verdict option" where
  "epoll_main argc sock bnd lstn waits =
     (let idle = \<lparr>epoll_sockfd = -1, interest = [], open_fds = [], printed = []\<rparr> in
      if argc \<noteq> 3 then Some (Exited (-1) idle)
      else let (fd, opened) = socket_server sock bnd lstn in
      if fd < 0 then Some (Exited (-1) (idle\<lparr>open_fds := opened\<rparr>))
      else server_loop waits \<lparr>epoll_sockfd = fd, interest = [fd], open_fds = opened, printed = []\<rparr>)"

section \<open>The client\<close>

definition BUFLN :: nat where "BUFLN = 128"
definition QUIT_STR :: string where "QUIT_STR = ''quit''"

definition to_lower :: "char \<Rightarrow> char" where
  "to_lower c = (let n = of_char c :: nat in if 65 \<le> n \<and> n \<le> 90 then char_of (n + 32) else c)"

text \<open>\<open>!strncasecmp(buf, QUIT_STR, strlen(QUIT_STR))\<close>.\<close>

definition is_quit :: "string \<Rightarrow> bool" where
  "is_quit buf \<longleftrightarrow> map to_lower (take (length QUIT_STR) buf) = QUIT_STR"

text \<open>What one call of \<open>write\<close> does: interrupted by a signal, failed, or so many bytes written.\<close>

datatype wrote = Interrupted | Failed | Wrote nat

text \<open>The inner loop: the call is repeated while it is interrupted. A short write is not continued.\<close>

fun send_line :: "wrote list \<Rightarrow> string \<Rightarrow> string option" where
  "send_line [] buf = None"
| "send_line (Interrupted # ws) buf = send_line ws buf"
| "send_line (Failed # ws) buf = Some []"
| "send_line (Wrote n # ws) buf = Some (take n buf)"

text \<open>
  The outer loop: each element is what \<open>fgets\<close> returns, NULL or a line of at most \<open>BUFLN - 2\<close>
  characters, with the results of the writes. The result is whether the client has left the loop, and
  the bytes it has sent; \<open>None\<close> when a \<open>write\<close> never stops being interrupted.
\<close>

fun client_loop :: "(string option \<times> wrote list) list \<Rightarrow> (bool \<times> string) option" where
  "client_loop [] = Some (False, [])"
| "client_loop ((None, ws) # rest) = client_loop rest"
| "client_loop ((Some buf, ws) # rest) =
     Option.bind (send_line ws buf) (\<lambda>sent.
       if is_quit buf then Some (True, sent)
       else map_option (\<lambda>(left, more). (left, sent @ more)) (client_loop rest))"

text \<open>
  \<open>main\<close>: the exit status, or \<open>None\<close> while the loop runs, with the bytes sent.
\<close>

definition epoll_client_main ::
    "nat \<Rightarrow> int \<Rightarrow> int \<Rightarrow> int \<Rightarrow> (string option \<times> wrote list) list \<Rightarrow> (int option \<times> string) option" where
  "epoll_client_main argc sock port conn inputs =
     (if argc \<noteq> 3 then Some (Some 1, [])
      else if sock < 0 then Some (Some 1, [])
      else if port < 5000 then Some (Some 1, [])
      else if conn < 0 then Some (Some 1, [])
      else map_option (\<lambda>(left, sent). (if left then Some 0 else None, sent)) (client_loop inputs))"

section \<open>The descriptors of the server\<close>

text \<open>
  The states the server gets into when the kernel keeps its side: it reports events on registered
  descriptors only, and \<open>accept\<close> returns a descriptor that is not open.
\<close>

inductive epoll_reach :: "int \<Rightarrow> server \<Rightarrow> bool" for lfd where
  listening: "epoll_reach lfd \<lparr>epoll_sockfd = lfd, interest = [lfd], open_fds = [lfd], printed = []\<rparr>"
| event: "epoll_reach lfd s \<Longrightarrow> fd \<in> set (interest s) \<Longrightarrow> fd \<noteq> lfd \<or> rv \<notin> set (open_fds s) \<Longrightarrow>
    handle_event (fd, rv, bytes) s = Some (Running s') \<Longrightarrow> epoll_reach lfd s'"

definition epoll_inv :: "int \<Rightarrow> server \<Rightarrow> bool" where
  "epoll_inv lfd s \<longleftrightarrow> epoll_sockfd s = lfd \<and> lfd \<in> set (interest s) \<and> distinct (interest s)
     \<and> distinct (open_fds s) \<and> set (interest s) \<subseteq> set (open_fds s)"

lemma handle_event_fields:
  assumes "handle_event (fd, rv, bytes) s = Some (Running s')"
  shows "epoll_sockfd s' = epoll_sockfd s \<and>
    (if fd = epoll_sockfd s
     then 0 \<le> rv \<and> open_fds s' = open_fds s @ [rv] \<and> interest s' = (if rv \<in> set (interest s) then interest s else interest s @ [rv])
     else open_fds s' = open_fds s \<and> interest s' = (if rv = 0 then removeAll fd (interest s) else interest s))"
  using assms by (auto simp: handle_event_def split: if_splits)

lemma epoll_inv_event:
  assumes "epoll_inv lfd s" "fd \<noteq> lfd \<or> rv \<notin> set (open_fds s)" "handle_event (fd, rv, bytes) s = Some (Running s')"
  shows "epoll_inv lfd s'"
  using assms(1,2) handle_event_fields [OF assms(3)]
  by (auto simp: epoll_inv_def distinct_removeAll split: if_splits)

lemma epoll_reach_inv: "epoll_reach lfd s \<Longrightarrow> epoll_inv lfd s"
  by (induction rule: epoll_reach.induct) (simp add: epoll_inv_def, rule epoll_inv_event)

section \<open>From the client to the server\<close>

text \<open>The lines up to the first that begins with \<open>quit\<close>, in any case of letters, that one included.\<close>

definition upto_quit :: "string list \<Rightarrow> string list" where
  "upto_quit ls = takeWhile (\<lambda>l. \<not> is_quit l) ls @ take 1 (dropWhile (\<lambda>l. \<not> is_quit l) ls)"

lemma client_loop_sends:
  "client_loop (map (\<lambda>l. (Some l, [Wrote (length l)])) ls) = Some (list_ex is_quit ls, concat (upto_quit ls))"
  by (induction ls) (auto simp: upto_quit_def)

definition reads :: "int \<Rightarrow> u8 list list \<Rightarrow> io_event list" where
  "reads fd chunks = map (\<lambda>c. (fd, int (length c), c)) chunks"

definition text_chunk :: "u8 list \<Rightarrow> bool" where
  "text_chunk c \<longleftrightarrow> c \<noteq> [] \<and> length c < BUFLEN \<and> 0 \<notin> set c"

lemma c_bytes_chunk: "text_chunk c \<Longrightarrow> c_bytes (c @ replicate (BUFLEN - length c) 0) = Some c"
proof -
  assume c: "text_chunk c"
  then have "0 < BUFLEN - length c" by (simp add: text_chunk_def)
  then obtain k where k: "BUFLEN - length c = Suc k" using gr0_implies_Suc by blast
  have "takeWhile (\<lambda>b. b \<noteq> 0) (c @ 0 # t) = c" for t :: "u8 list"
    using c by (subst takeWhile_append2) (auto simp: text_chunk_def)
  then show ?thesis by (simp add: c_bytes_def k)
qed

lemma handle_reads:
  assumes "fd \<noteq> epoll_sockfd s" "list_all text_chunk chunks"
  shows "handle_events (reads fd chunks) s = Some (Running (s\<lparr>printed := printed s @ map (Pair fd) chunks\<rparr>))"
  using assms
proof (induction chunks arbitrary: s)
  case (Cons c chunks)
  have "handle_event (fd, int (length c), c) s = Some (Running (s\<lparr>printed := printed s @ [(fd, c)]\<rparr>))"
    using Cons.prems by (auto simp: handle_event_def c_bytes_chunk text_chunk_def)
  then show ?case
    using Cons.IH [of "s\<lparr>printed := printed s @ [(fd, c)]\<rparr>"] Cons.prems by (simp add: reads_def)
qed (simp add: reads_def)

section \<open>Properties\<close>

text \<open>
  C39: the descriptors of the epoll server. Whatever happens, the listening socket stays registered, no
  descriptor is registered twice and every registered descriptor is open; a client that has closed its
  end is taken off the epoll instance; but no descriptor is ever closed: an event keeps all those that
  were open, so each client that has come and gone costs the server one for good.
\<close>

theorem epoll_descriptors:
  assumes "epoll_reach lfd s" "fd \<in> set (interest s)" "fd \<noteq> lfd \<or> rv \<notin> set (open_fds s)"
    and "handle_event (fd, rv, bytes) s = Some (Running s')"
  shows "lfd \<in> set (interest s') \<and> distinct (interest s') \<and> distinct (open_fds s') \<and> set (interest s') \<subseteq> set (open_fds s')
    \<and> set (open_fds s) \<subseteq> set (open_fds s')
    \<and> (fd \<noteq> lfd \<and> rv = 0 \<longrightarrow> fd \<notin> set (interest s') \<and> fd \<in> set (open_fds s'))"
proof -
  have "epoll_inv lfd s" "epoll_inv lfd s'"
    using epoll_reach_inv assms(1) epoll_reach.event [OF assms] by blast+
  then show ?thesis
    using handle_event_fields [OF assms(4)] assms(2) by (auto simp: epoll_inv_def split: if_splits)
qed

theorem epoll_descriptors_witness:
  "\<exists>s s'. handle_event (3, 4, []) \<lparr>epoll_sockfd = 3, interest = [3], open_fds = [3], printed = []\<rparr> = Some (Running s)
    \<and> handle_event (4, 0, []) s = Some (Running s') \<and> 4 \<notin> set (interest s') \<and> 4 \<in> set (open_fds s')"
proof -
  let ?s = "\<lparr>epoll_sockfd = 3, interest = [3, 4], open_fds = [3, 4], printed = []\<rparr>"
  have 1: "handle_event (3, 4, []) \<lparr>epoll_sockfd = 3, interest = [3], open_fds = [3], printed = []\<rparr> = Some (Running ?s)"
    by (simp add: handle_event_def)
  then have reach: "epoll_reach 3 ?s"
    by (rule epoll_reach.event [OF epoll_reach.listening, rotated 2]) simp_all
  have "handle_event (4, 0, []) ?s = Some (Running (?s\<lparr>interest := [3]\<rparr>))"
    by (simp add: handle_event_def)
  with 1 show ?thesis
    using epoll_descriptors [OF reach, of 4 0 "[]" "?s\<lparr>interest := [3]\<rparr>"] by auto
qed

text \<open>
  what is typed at the client is what the server prints. With writes that are not cut short, the
  client sends its lines up to and including the first that begins with \<open>quit\<close>, and then stops;
  when the connection hands these bytes to the server in pieces of fewer than 128, the server prints
  them all, in order, under the client's descriptor. A piece that fills the 128-byte buffer without a
  NUL is printed past the end of the buffer.
\<close>

theorem epoll_delivers:
  assumes "concat chunks = map of_char (concat (upto_quit ls))" "list_all text_chunk chunks" "fd \<noteq> epoll_sockfd s"
  shows "\<exists>sent s'. client_loop (map (\<lambda>l. (Some l, [Wrote (length l)])) ls) = Some (list_ex is_quit ls, sent)
    \<and> sent = concat (upto_quit ls)
    \<and> handle_events (reads fd chunks) s = Some (Running s')
    \<and> concat (map snd (filter (\<lambda>(q, x). q = fd) (printed s'))) =
        concat (map snd (filter (\<lambda>(q, x). q = fd) (printed s))) @ map of_char sent
    \<and> filter (\<lambda>(q, x). q \<noteq> fd) (printed s') = filter (\<lambda>(q, x). q \<noteq> fd) (printed s)
    \<and> (length full = BUFLEN \<and> 0 \<notin> set full \<longrightarrow> handle_event (fd, int BUFLEN, full) s = None)"
proof -
  have "filter (\<lambda>(q, x). q = fd) (map (Pair fd) chunks) = map (Pair fd) chunks"
    "filter (\<lambda>(q, x). q \<noteq> fd) (map (Pair fd) chunks) = []"
    by (simp_all add: filter_map o_def)
  moreover have "map snd (map (Pair fd) chunks) = chunks" by (simp add: o_def)
  moreover have "handle_event (fd, int BUFLEN, full) s = None" if "length full = BUFLEN" "0 \<notin> set full"
    using that assms(3) by (simp add: handle_event_def c_bytes_def BUFLEN_def)
  ultimately show ?thesis
    using client_loop_sends [of ls] handle_reads [OF assms(3,2)] assms(1) by simp
qed

theorem epoll_delivers_witness:
  "\<exists>s'. client_loop [(Some ''hi'', [Wrote 2]), (Some ''QUIT'', [Wrote 4]), (Some ''no'', [Wrote 2])] = Some (True, ''hiQUIT'')
    \<and> handle_events (reads 4 [[104], [105, 81, 85, 73, 84]])
        \<lparr>epoll_sockfd = 3, interest = [3, 4], open_fds = [3, 4], printed = []\<rparr> = Some (Running s')
    \<and> concat (map snd (filter (\<lambda>(q, x). q = 4) (printed s'))) = [104, 105, 81, 85, 73, 84]"
proof -
  have "upto_quit [''hi'', ''QUIT'', ''no''] = [''hi'', ''QUIT'']" "\<not> is_quit ''hi''" "is_quit ''QUIT''"
    by code_simp+
  then show ?thesis
    using epoll_delivers [of "[[104], [105, 81, 85, 73, 84]]" "[''hi'', ''QUIT'', ''no'']" 4
        "\<lparr>epoll_sockfd = 3, interest = [3, 4], open_fds = [3, 4], printed = []\<rparr>" "[]"]
    by (simp add: text_chunk_def BUFLEN_def) blast
qed

end
