(* ===== verification/Small_Modules.thy ===== *)
theory Small_Modules
  imports Kernel_List Formatting
begin

text \<open>
  Three of the example modules that compute something of their own: the iterator of
  \<open>seqfile/seqfile_test.c\<close>, the attribute of \<open>kobject-example/kset_init_register/kset.c\<close> and the
  timer of \<open>trace_events/test_trace_event.c\<close>.
\<close>

section \<open>The iterator of seqfile\_test.c\<close>

text \<open>
  The iterator is the address of a \<open>loff_t\<close> (64 bits) that \<open>ct_seq_start\<close> allocates and
  \<open>ct_seq_stop\<close> frees; NULL is \<open>None\<close>. \<open>ct_seq_next\<close> and \<open>ct_seq_show\<close> dereference it. What
  \<open>seq_printf\<close> prints is the number.
\<close>

definition ct_seq_start :: "(u64 heap \<Rightarrow> addr option) \<Rightarrow> u64 \<Rightarrow> u64 heap \<Rightarrow> addr option \<times> u64 heap" where
  "ct_seq_start kmalloc pos h =
     (case kmalloc h of None \<Rightarrow> (None, h) | Some spos \<Rightarrow> (Some spos, (spos, pos) # h))"

definition ct_seq_next :: "addr \<Rightarrow> u64 \<Rightarrow> u64 heap \<Rightarrow> (addr \<times> u64 \<times> u64 heap) option" where
  "ct_seq_next v pos h =
     map_option (\<lambda>x. (v, x + 1, map (\<lambda>(p, y). (p, if p = v then x + 1 else y)) h)) (map_of h v)"

definition ct_seq_stop :: "addr option \<Rightarrow> u64 heap \<Rightarrow> u64 heap option" where
  "ct_seq_stop v h = (case v of None \<Rightarrow> Some h | Some p \<Rightarrow> kfree p h)"

definition ct_seq_show :: "addr \<Rightarrow> u64 heap \<Rightarrow> int option" where
  "ct_seq_show v h = map_option sint (map_of h v)"

text \<open>
  One read of the file as \<open>seq_file\<close> documents it: start at the position, show and advance while there
  is room (here \<open>n\<close> times), stop. The result is the numbers shown, the position and the heap.
\<close>

fun ct_walk :: "nat \<Rightarrow> addr \<Rightarrow> u64 \<Rightarrow> u64 heap \<Rightarrow> (int list \<times> u64 \<times> u64 heap) option" where
  "ct_walk 0 v pos h = Some ([], pos, h)"
| "ct_walk (Suc n) v pos h =
     Option.bind (ct_seq_show v h) (\<lambda>x.
       Option.bind (ct_seq_next v pos h) (\<lambda>(v, pos, h).
         map_option (\<lambda>(xs, pos, h). (x # xs, pos, h)) (ct_walk n v pos h)))"

definition ct_read :: "(u64 heap \<Rightarrow> addr option) \<Rightarrow> nat \<Rightarrow> u64 \<Rightarrow> u64 heap \<Rightarrow> (int list \<times> u64 \<times> u64 heap) option" where
  "ct_read kmalloc n pos h =
     (case ct_seq_start kmalloc pos h of
        (None, h) \<Rightarrow> map_option (\<lambda>h. ([], pos, h)) (ct_seq_stop None h)
      | (Some v, h) \<Rightarrow>
          Option.bind (ct_walk n v pos h) (\<lambda>(xs, pos, h).
            map_option (\<lambda>h. (xs, pos, h)) (ct_seq_stop (Some v) h)))"

lemma ct_walk_spec:
  assumes "v \<notin> fst ` set h"
  shows "ct_walk n v pos ((v, x) # h) =
    Some (map (\<lambda>i. sint (x + of_nat i)) [0..<n], if n = 0 then pos else x + of_nat n, (v, x + of_nat n) # h)"
proof (induction n arbitrary: x pos)
  case (Suc n)
  have same: "map (\<lambda>(p, y). (p, if p = v then x + 1 else y)) h = h"
    using assms by (intro map_idI) force
  have "map (\<lambda>i. sint (x + of_nat i)) [0..<Suc n] = sint x # map (\<lambda>i. sint (x + 1 + of_nat i)) [0..<n]"
    by (simp add: upt_conv_Cons map_Suc_upt [symmetric] o_def add.assoc del: upt_Suc)
  then show ?case
    using Suc [of "x + 1" "x + 1"] same by (simp add: ct_seq_show_def ct_seq_next_def add.assoc del: upt_Suc)
qed simp

lemma ct_read_spec:
  assumes "kmalloc_ok kmalloc" "kmalloc h = Some v"
  shows "ct_read kmalloc n pos h = Some (map (\<lambda>i. sint (pos + of_nat i)) [0..<n], pos + of_nat n, h)"
proof -
  have v: "v \<notin> fst ` set h" using kmalloc_fresh [OF assms] .
  then have "filter (\<lambda>(q, x). q \<noteq> v) h = h" by (force intro: filter_True)
  then show ?thesis
    using assms(2) by (simp add: ct_read_def ct_seq_start_def ct_walk_spec [OF v] ct_seq_stop_def kfree_def)
qed

text \<open>
  the file of \<open>seqfile_test.c\<close> is the endless list of numbers, whatever the sizes of the reads. A
  read of \<open>n\<close> records from position \<open>p\<close> shows \<open>p\<close>, \<open>p + 1\<close>, ..., leaves the position \<open>n\<close> further
  and no memory behind, and two reads one after the other show exactly what a single read of both
  sizes does. When there is no memory for the iterator the read shows nothing and changes nothing.
\<close>

theorem ct_seq_resumes:
  assumes "kmalloc_ok kmalloc" "kmalloc h = Some v"
  shows "\<exists>xs p' ys p''. ct_read kmalloc n p h = Some (xs, p', h) \<and> ct_read kmalloc m p' h = Some (ys, p'', h)
    \<and> ct_read kmalloc (n + m) p h = Some (xs @ ys, p'', h)
    \<and> (\<forall>i < n. xs ! i = sint (p + of_nat i)) \<and> p' = p + of_nat n
    \<and> ct_read (\<lambda>h. None) n p h = Some ([], p, h)"
proof -
  have "map (\<lambda>i. sint (p + of_nat i)) [0..<n + m] =
      map (\<lambda>i. sint (p + of_nat i)) [0..<n] @ map (\<lambda>i. sint (p + of_nat n + of_nat i)) [0..<m]"
    by (rule nth_equalityI) (auto simp: nth_append add.assoc simp flip: of_nat_add)
  then show ?thesis
    by (simp add: ct_read_spec [OF assms] add.assoc)
       (simp add: ct_read_def ct_seq_start_def ct_seq_stop_def)
qed

theorem ct_seq_resumes_witness:
  "\<exists>xs p' ys p''. ct_read top_alloc 2 5 [] = Some (xs, p', []) \<and> ct_read top_alloc 1 p' [] = Some (ys, p'', []) \<and>
     ct_read top_alloc 3 5 [] = Some (xs @ ys, p'', []) \<and> p' = 7"
  using ct_seq_resumes [OF top_alloc_ok, of "[]" 1 2 5 1] by (auto simp: top_alloc_def)

section \<open>The attribute of kset.c\<close>

datatype kobject_action = KOBJ_ADD | KOBJ_REMOVE | KOBJ_CHANGE | KOBJ_MOVE | KOBJ_ONLINE | KOBJ_OFFLINE

text \<open>
  \<open>flag\<close> is an \<open>unsigned long\<close>, 32 bits wide, and \<open>char\<close> is unsigned on this machine. The results
  are the number of bytes and the text, and the number of bytes, the new flag and the event sent.
\<close>

definition child_attr_show :: "u32 \<Rightarrow> nat \<times> string" where
  "child_attr_show flag = (let txt = decimal (unat flag) @ [CHR 0x0A] in (length txt, txt))"

definition child_attr_store :: "string \<Rightarrow> nat \<Rightarrow> nat \<times> u32 \<times> kobject_action option" where
  "child_attr_store buf count =
     (let flag = of_char (case buf of [] \<Rightarrow> CHR 0x00 | c # _ \<Rightarrow> c) - of_char CHR ''0'' :: u32 in
      (count, flag,
       if flag = 0 then Some KOBJ_ADD
       else if flag = 1 then Some KOBJ_REMOVE
       else if flag = 2 then Some KOBJ_CHANGE
       else if flag = 3 then Some KOBJ_MOVE
       else if flag = 4 then Some KOBJ_ONLINE
       else if flag = 5 then Some KOBJ_OFFLINE
       else None))"

section \<open>The timer of test\_trace\_event.c\<close>

record test_data =
  td_num :: u32
  td_cpu_freq :: u32
  td_cpu_max_freq :: u32

datatype data_ptr = NullData | LiveData test_data | FreedData

record test_driver =
  drv_i :: u32
  drv_global :: data_ptr
  drv_armed :: bool

text \<open>
  The timer function, with the number of CPUs and what \<open>cpufreq\<close> answers as inputs. The result is the
  delay in milliseconds the timer is set to; a data pointer that is not live is a fault (\<open>None\<close>).
\<close>

definition test_driver_func ::
    "u32 \<Rightarrow> (u32 \<Rightarrow> u32) \<Rightarrow> (u32 \<Rightarrow> u32) \<Rightarrow> test_driver \<Rightarrow> (u32 \<times> test_driver) option" where
  "test_driver_func NR_CPUS quick_get quick_get_max s =
     (case drv_global s of
        LiveData d \<Rightarrow>
          (let i = drv_i s; cpu = (i + 1) mod NR_CPUS in
           Some (2000 + i * 200,
                 s\<lparr>drv_global := LiveData \<lparr>td_num = cpu, td_cpu_freq = quick_get cpu, td_cpu_max_freq = quick_get_max cpu\<rparr>,
                   drv_armed := True,
                   drv_i := (if 100 < i then 0 else i) + 1\<rparr>))
      | _ \<Rightarrow> None)"

text \<open>Loading: the timer is started before the data is allocated. Unloading: two steps, in this order.\<close>

definition test_driver_init :: "bool \<Rightarrow> test_driver \<Rightarrow> int \<times> test_driver" where
  "test_driver_init kzalloc s =
     (let s = s\<lparr>drv_armed := True\<rparr> in
      if \<not> kzalloc then (-1, s\<lparr>drv_global := NullData\<rparr>)
      else (0, s\<lparr>drv_global := LiveData \<lparr>td_num = 0, td_cpu_freq = 0, td_cpu_max_freq = 0\<rparr>\<rparr>))"

definition exit_kfree :: "test_driver \<Rightarrow> test_driver" where
  "exit_kfree s = s\<lparr>drv_global := (case drv_global s of NullData \<Rightarrow> NullData | _ \<Rightarrow> FreedData)\<rparr>"

definition exit_del_timer :: "test_driver \<Rightarrow> test_driver" where
  "exit_del_timer s = s\<lparr>drv_armed := False\<rparr>"

definition test_driver_exit :: "test_driver \<Rightarrow> test_driver" where
  "test_driver_exit s = exit_del_timer (exit_kfree s)"

text \<open>The loaded driver after any number of expiries, with the delays it has asked for.\<close>

inductive driver_runs ::
    "u32 \<Rightarrow> (u32 \<Rightarrow> u32) \<Rightarrow> (u32 \<Rightarrow> u32) \<Rightarrow> u32 list \<Rightarrow> test_driver \<Rightarrow> bool"
  for NR_CPUS quick_get quick_get_max where
  loaded: "driver_runs NR_CPUS quick_get quick_get_max []
    (snd (test_driver_init True \<lparr>drv_i = 0, drv_global = NullData, drv_armed = False\<rparr>))"
| fires: "driver_runs NR_CPUS quick_get quick_get_max ds s \<Longrightarrow> drv_armed s \<Longrightarrow>
    test_driver_func NR_CPUS quick_get quick_get_max s = Some (d, s') \<Longrightarrow>
    driver_runs NR_CPUS quick_get quick_get_max (ds @ [d]) s'"

definition driver_inv :: "u32 \<Rightarrow> u32 list \<Rightarrow> test_driver \<Rightarrow> bool" where
  "driver_inv NR_CPUS ds s \<longleftrightarrow> drv_armed s \<and> drv_i s \<le> 101 \<and> (\<exists>d. drv_global s = LiveData d \<and> td_num d < NR_CPUS)
     \<and> (\<forall>d \<in> set ds. 2000 \<le> d \<and> d \<le> 22200)"

lemma timer_bounds:
  fixes i :: u32
  assumes "i \<le> 101"
  shows "2000 \<le> 2000 + i * 200" "2000 + i * 200 \<le> 22200" "(if 100 < i then 0 else i) + 1 \<le> 101"
proof -
  have i: "unat i \<le> 101" using assms by (simp add: word_le_nat_alt)
  then have "unat (i * 200) = unat i * 200" by (simp add: unat_word_ariths)
  then have "unat (2000 + i * 200) = 2000 + unat i * 200" using i by (simp add: unat_add_u32)
  then show "2000 \<le> 2000 + i * 200" "2000 + i * 200 \<le> 22200"
    using i by (simp_all add: word_le_nat_alt)
  show "(if 100 < i then 0 else i) + 1 \<le> 101"
    using i by (auto simp: word_le_nat_alt word_less_nat_alt unat_add_u32)
qed

lemma driver_runs_inv:
  assumes "driver_runs NR_CPUS quick_get quick_get_max ds s" "0 < NR_CPUS"
  shows "driver_inv NR_CPUS ds s"
  using assms
proof induction
  case loaded
  then show ?case by (simp add: driver_inv_def test_driver_init_def)
next
  case (fires ds s d s')
  then show ?case
    using timer_bounds [of "drv_i s"]
    by (auto simp: driver_inv_def test_driver_func_def Let_def word_mod_less_divisor split: data_ptr.splits)
qed

section \<open>Properties of the attribute and the timer\<close>

lemma u32_of_char: "(of_char (char_of (m :: nat) :: char) :: u32) = of_nat (m mod 256)"
  by (metis of_char_of of_nat_of_char)

text \<open>
  Storing a digit and reading it back: the attribute holds the digit, the six first
  digits send the six events in the order of the source and the others none, and reading prints the
  digit and a newline. Whatever is held, reading prints its decimal notation.
\<close>

lemma child_attr_roundtrip:
  assumes "d < 10"
  shows "child_attr_store (char_of (48 + d) # rest) n =
      (n, of_nat d, if d < 6 then Some ([KOBJ_ADD, KOBJ_REMOVE, KOBJ_CHANGE, KOBJ_MOVE, KOBJ_ONLINE, KOBJ_OFFLINE] ! d) else None)
    \<and> child_attr_show (of_nat d) = (2, [char_of (48 + d), CHR 0x0A])
    \<and> digits_value (butlast (snd (child_attr_show w))) = unat w"
proof -
  have "d \<in> {0, 1, 2, 3, 4, 5, 6, 7, 8, 9}" using assms by auto
  then have "child_attr_store (char_of (48 + d) # rest) n =
      (n, of_nat d, if d < 6 then Some ([KOBJ_ADD, KOBJ_REMOVE, KOBJ_CHANGE, KOBJ_MOVE, KOBJ_ONLINE, KOBJ_OFFLINE] ! d) else None)"
    by (elim insertE) (simp_all add: child_attr_store_def u32_of_char)
  moreover have "unat (of_nat d :: u32) = d" using assms by simp
  ultimately show ?thesis
    using assms by (simp add: child_attr_show_def decimal.simps [of d] digits_value_decimal)
qed



end
