(* ===== verification/Module_Files.thy ===== *)
theory Module_Files
  imports Small_Modules
begin

text \<open>
  The file operations and messages of the small example modules: the sysctl entry, the debugfs and
  character device files, the single-page sequence file, the tracepoint and its probe, the trace event
  of \<open>trace_events/test_driver.h\<close>, and the modules that print when they are loaded. What \<open>printk\<close>,
  \<open>trace_printk\<close> or \<open>seq_printf\<close> prints is the list of lines; the kernel's \<open>proc_dointvec\<close>,
  \<open>find_first_bit\<close>, \<open>find_last_bit\<close>, \<open>MAJOR\<close>, \<open>MINOR\<close> and \<open>single_open\<close> are parameters.
\<close>

section \<open>sysctl.c\<close>

definition sysctl_kernusr_data :: u32 where
  "sysctl_kernusr_data = 1024"

record ctl_table =
  procname :: string
  maxlen :: nat
  ctl_mode :: nat

text \<open>The table without its sentinel; its data is the variable above and its handler the callback below.\<close>

definition kernusr_ctl_table :: "ctl_table list" where
  "kernusr_ctl_table = [\<lparr>procname = ''kernusr'', maxlen = 4, ctl_mode = 420\<rparr>]"

text \<open>
  \<open>proc_dointvec\<close> is given the table, the direction, the user's buffer with its length and position
  (all of type \<open>'b\<close>) and the variable; it returns its result, the buffer and the variable.
\<close>

definition kernusr_callback ::
    "(ctl_table \<Rightarrow> bool \<Rightarrow> 'b \<Rightarrow> u32 \<Rightarrow> int \<times> 'b \<times> u32) \<Rightarrow> ctl_table \<Rightarrow> bool \<Rightarrow> 'b \<Rightarrow> u32
     \<Rightarrow> int \<times> 'b \<times> u32 \<times> string list" where
  "kernusr_callback proc_dointvec table write buffer data =
     (let original = line (''original value = '' @ signed_decimal (sint data));
          (rc, buffer, data) = proc_dointvec table write buffer data
      in (rc, buffer, data,
          original # (if write then [line (''this is write operation, current value = '' @ signed_decimal (sint data))] else [])))"

section \<open>debugfs\_demo.c\<close>

text \<open>
  The data of a file is a string in an array of 128 bytes, which \<open>debugfs_demo_init\<close> fills. An opened
  file has a private pointer that nothing sets: \<open>debugfs_demo_release\<close> frees NULL, which has no effect.
\<close>

definition dbg_demo_size :: nat where
  "dbg_demo_size = 128"

definition dbg_demo_str :: string where
  "dbg_demo_str = line ''This is debugfs demo file!''"

definition debugfs_demo_open :: "int \<times> string list" where
  "debugfs_demo_open = (0, [line ''debugfs demo file open!''])"

definition debugfs_demo_read :: "addr \<Rightarrow> string heap \<Rightarrow> (int \<times> string list) option" where
  "debugfs_demo_read i_private h = map_option (\<lambda>str. (0, [line str])) (map_of h i_private)"

definition debugfs_demo_release :: "addr option \<Rightarrow> string heap \<Rightarrow> (int \<times> string heap) option" where
  "debugfs_demo_release private_data h =
     (case private_data of None \<Rightarrow> Some (0, h) | Some p \<Rightarrow> map_option (\<lambda>h. (0, h)) (kfree p h))"

section \<open>demo\_chr\_dev.c\<close>

definition chr_open :: "(u32 \<Rightarrow> u32) \<Rightarrow> (u32 \<Rightarrow> u32) \<Rightarrow> u32 \<Rightarrow> int \<times> string list" where
  "chr_open MAJOR MINOR i_rdev =
     (let major = MAJOR i_rdev; minor = MINOR i_rdev in
      (0, [line (''chr_open: major='' @ signed_decimal (sint major) @ '', minor='' @ signed_decimal (sint minor))]))"

definition chr_read :: "nat \<Rightarrow> int \<times> string list" where
  "chr_read sz = (0, [line ''In the chr_read() function!''])"

section \<open>single\_open.c\<close>

text \<open>The sequence file is the text collected so far; \<open>single_open\<close> is given the function that shows it.\<close>

definition seq_file_demo_show :: "string \<Rightarrow> int \<times> string" where
  "seq_file_demo_show seq = (0, seq @ line ''Hello World'')"

definition seq_file_demo_open :: "((string \<Rightarrow> int \<times> string) \<Rightarrow> 'f \<Rightarrow> int \<times> 'f) \<Rightarrow> 'f \<Rightarrow> int \<times> 'f" where
  "seq_file_demo_open single_open file = single_open seq_file_demo_show file"

section \<open>tracepoint-sample.c\<close>

definition my_subsys_event :: "u32 \<Rightarrow> u32 \<Rightarrow> string" where
  "my_subsys_event inode file =
     line (''inode: 0x'' @ hexadecimal (unat inode) @ '', file: 0x'' @ hexadecimal (unat file))"

text \<open>Firing the tracepoint calls the registered probes in turn.\<close>

definition my_open :: "(u32 \<Rightarrow> u32 \<Rightarrow> string) list \<Rightarrow> u32 \<Rightarrow> u32 \<Rightarrow> int \<times> string list" where
  "my_open probes inode file = (0, map (\<lambda>probe. probe inode file) probes)"

section \<open>test\_driver.h\<close>

text \<open>The event: its arguments, the record made of them and the text printed for a record.\<close>

record get_cpu_info =
  ev_cpu_id :: u32
  ev_curr_freq :: u32
  ev_max_freq :: u32

definition get_test_driver_data :: "u32 \<Rightarrow> u32 \<Rightarrow> u32 \<Rightarrow> get_cpu_info" where
  "get_test_driver_data cpu_id curr_freq max_freq =
     \<lparr>ev_cpu_id = cpu_id, ev_curr_freq = curr_freq, ev_max_freq = max_freq\<rparr>"

definition get_cpu_info_text :: "get_cpu_info \<Rightarrow> string" where
  "get_cpu_info_text e =
     ''cpu='' @ decimal (unat (ev_cpu_id e)) @ '' curr_freq='' @ decimal (unat (ev_curr_freq e))
   @ '' max_freq='' @ decimal (unat (ev_max_freq e))"

section \<open>Modules that print\<close>

definition template_init :: "int \<times> string list" where
  "template_init = (0, [line ''Hello World''])"

definition template_exit :: "string list" where
  "template_exit = [line ''Go to Hell'']"

definition hello_export :: "u32 \<Rightarrow> u32 \<Rightarrow> int \<times> string list" where
  "hello_export dolphi bobcat =
     (0, [line (''Hello from another module, dolphi:'' @ signed_decimal (sint dolphi) @ '',bobcat:'' @ signed_decimal (sint bobcat))])"

definition hello_start :: "int \<times> string list" where
  "hello_start = (0, [line ''Hello World''])"

definition hello_end :: "string list" where
  "hello_end = [line ''Go to Hell'']"

definition trace_printk_demo_init :: "int \<times> string list" where
  "trace_printk_demo_init = (0, [line ''Can not see this in trace unless loaded for the second time''])"

definition trace_printk_demo_exit :: "string list" where
  "trace_printk_demo_exit = [line ''Module unloading'']"

definition find_first_bit_init :: "(u32 \<Rightarrow> nat \<Rightarrow> u32) \<Rightarrow> int \<times> string list" where
  "find_first_bit_init find_first_bit =
     (let tmp = 0x101; tag = find_first_bit tmp 32 in
      (0, [line (''find_first_bit_init :'' @ signed_decimal (sint tag) @ ''('' @ hexadecimal (unat tmp) @ '')'')]))"

definition find_first_bit_exit :: "string list" where
  "find_first_bit_exit = [line ''find_last_bit_eixt'']"

definition find_last_bit_init :: "(u32 \<Rightarrow> nat \<Rightarrow> u32) \<Rightarrow> int \<times> string list" where
  "find_last_bit_init find_last_bit =
     (let tmp = 0x101; tag = find_last_bit tmp 32 in
      (0, [line (''find_last_bit_init :'' @ signed_decimal (sint tag) @ ''('' @ hexadecimal (unat tmp) @ '')'')]))"

definition find_last_bit_exit :: "string list" where
  "find_last_bit_exit = [line ''find_last_bit_eixt'']"

section \<open>What the files show\<close>

text \<open>
  Reading the sysctl entry changes nothing when \<open>proc_dointvec\<close> does not, and is announced by one line;
  a write is announced by two, of which the second is the value it leaves.
\<close>

lemma kernusr_read:
  assumes "\<And>t b d. snd (snd (proc_dointvec t False b d)) = d"
  shows "\<exists>rc b'. kernusr_callback proc_dointvec t False b d = (rc, b', d, [line (''original value = '' @ signed_decimal (sint d))])"
  using assms [of t b d] by (cases "proc_dointvec t False b d") (simp add: kernusr_callback_def)

lemma kernusr_write:
  "kernusr_callback proc_dointvec t True b d = (rc, b', d', ls) \<Longrightarrow>
   ls = [line (''original value = '' @ signed_decimal (sint d)), line (''this is write operation, current value = '' @ signed_decimal (sint d'))]"
  by (auto simp: kernusr_callback_def Let_def split: prod.splits)

text \<open>
  A session on the debugfs file: every read reports the end of the file after printing the text, and
  closing the file leaves the text where it is, so that the next session finds it. The text and its
  final NUL fit the array.
\<close>

lemma debugfs_session:
  assumes "map_of h p = Some dbg_demo_str"
  shows "debugfs_demo_read p h = Some (0, [line dbg_demo_str])" "debugfs_demo_release None h = Some (0, h)"
    "length dbg_demo_str + 1 \<le> dbg_demo_size"
  using assms by (simp_all add: debugfs_demo_read_def debugfs_demo_release_def dbg_demo_str_def dbg_demo_size_def)

text \<open>With the one probe of \<open>sample_init\<close> an open prints one line; without it, none.\<close>

lemma my_open_probes:
  "my_open (replicate n my_subsys_event) inode file = (0, replicate n (my_subsys_event inode file))"
  by (simp add: my_open_def)

section \<open>Finding bits\<close>

text \<open>
  The documented results: the number of the first or last set bit below the size, or the size when
  there is none.
\<close>

definition find_first_bit_ok :: "(u32 \<Rightarrow> nat \<Rightarrow> u32) \<Rightarrow> bool" where
  "find_first_bit_ok f \<longleftrightarrow> (\<forall>x n. n \<le> 32 \<longrightarrow>
     (if \<exists>i < n. bit x i then bit x (unat (f x n)) \<and> unat (f x n) < n \<and> (\<forall>i < unat (f x n). \<not> bit x i) else f x n = of_nat n))"

definition find_last_bit_ok :: "(u32 \<Rightarrow> nat \<Rightarrow> u32) \<Rightarrow> bool" where
  "find_last_bit_ok f \<longleftrightarrow> (\<forall>x n. n \<le> 32 \<longrightarrow>
     (if \<exists>i < n. bit x i then bit x (unat (f x n)) \<and> unat (f x n) < n \<and> (\<forall>i. unat (f x n) < i \<and> i < n \<longrightarrow> \<not> bit x i) else f x n = of_nat n))"

lemma bit_0x101: "bit (0x101 :: u32) i \<longleftrightarrow> i = 0 \<or> i = 8"
proof -
  have "(0x101 :: u32) = push_bit 8 1 OR 1" by simp
  then show ?thesis by (simp only: bit_or_iff bit_push_bit_iff bit_1_iff) auto
qed

text \<open>
  The two modules print the first and the last of the bits 0 and 8. The comment in both files, which
  says that the last bit is returned, is right for one of them.
\<close>

lemma find_first_bit_prints:
  assumes "find_first_bit_ok f"
  shows "find_first_bit_init f = (0, [line ''find_first_bit_init :0(101)''])"
proof -
  have "\<exists>i < 32. bit (0x101 :: u32) i" by (intro exI [of _ 0]) (simp add: bit_0x101)
  then have "\<forall>i < unat (f 0x101 32). \<not> bit (0x101 :: u32) i" using assms unfolding find_first_bit_ok_def by (metis order_refl)
  then have "unat (f 0x101 32) = 0" unfolding bit_0x101 by (metis gr0I)
  then have "f 0x101 32 = 0" by (simp add: u32_eq_iff)
  then show ?thesis
    by (simp add: find_first_bit_init_def signed_decimal_def decimal.simps hexadecimal.simps hex_digit_def char_of_def bit_Suc_0_iff)
qed

lemma find_last_bit_prints:
  assumes "find_last_bit_ok f"
  shows "find_last_bit_init f = (0, [line ''find_last_bit_init :8(101)''])"
proof -
  have "\<exists>i < 32. bit (0x101 :: u32) i" by (intro exI [of _ 0]) (simp add: bit_0x101)
  then have "unat (f 0x101 32) = 0 \<or> unat (f 0x101 32) = 8" "\<forall>i. unat (f 0x101 32) < i \<and> i < 32 \<longrightarrow> \<not> bit (0x101 :: u32) i"
    using assms unfolding find_last_bit_ok_def bit_0x101 [symmetric] by (metis order_refl)+
  then have "unat (f 0x101 32) = 8" unfolding bit_0x101 by (elim disjE) (auto dest: spec [of _ 8])
  then have "f 0x101 32 = 8" by (simp add: u32_eq_iff)
  then show ?thesis
    by (simp add: find_last_bit_init_def signed_decimal_def decimal.simps hexadecimal.simps hex_digit_def char_of_def bit_Suc_0_iff)
qed

section \<open>The trace event\<close>

text \<open>
  The line in the trace buffer tells exactly what the event was given: two events that print the same
  line are the same.
\<close>

theorem get_cpu_info_text_inj: "get_cpu_info_text e = get_cpu_info_text e' \<longleftrightarrow> e = e'"
proof
  assume t: "get_cpu_info_text e = get_cpu_info_text e'"
  have sep: "\<not> is_digit (CHR '' '')" by (simp add: is_digit_def)
  from t have cpu: "unat (ev_cpu_id e) = unat (ev_cpu_id e') \<and>
      '' curr_freq='' @ decimal (unat (ev_curr_freq e)) @ '' max_freq='' @ decimal (unat (ev_max_freq e)) =
      '' curr_freq='' @ decimal (unat (ev_curr_freq e')) @ '' max_freq='' @ decimal (unat (ev_max_freq e'))"
    unfolding get_cpu_info_text_def by (intro decimal_append_inj) (simp_all add: sep)
  then have freq: "unat (ev_curr_freq e) = unat (ev_curr_freq e') \<and>
      '' max_freq='' @ decimal (unat (ev_max_freq e)) = '' max_freq='' @ decimal (unat (ev_max_freq e'))"
    by (intro decimal_append_inj) (simp_all add: sep)
  then have "unat (ev_max_freq e) = unat (ev_max_freq e') \<and> [] = ([] :: string)"
    by (intro decimal_append_inj) simp_all
  then show "e = e'" using cpu freq by (intro get_cpu_info.equality) (simp_all add: u32_eq_iff)
qed simp

end
