(* ===== verification/User_Programs.thy ===== *)
theory User_Programs
  imports Module_Files Resources
begin

text \<open>
  The small programs that run beside the modules: \<open>char/main.c\<close>, \<open>fs/file_write.c\<close>,
  \<open>backtrace/bt_user.c\<close> and \<open>kobject-example/hotplug/hotplug.c\<close>. The results of the system and
  library calls are inputs; what is printed is a list of strings.
\<close>

section \<open>char/main.c\<close>

definition CHR_DEV_NAME :: string where
  "CHR_DEV_NAME = ''/dev/chr_dev''"

text \<open>The result, the descriptors obtained and given back, and what is printed, given what \<open>open\<close> answers.\<close>

definition char_main :: "int \<Rightarrow> int \<times> int kop list \<times> string list" where
  "char_main fd =
     (if fd < 0 then (-1, [], [line (''open file '' @ CHR_DEV_NAME @ '' failed!'')])
      else (0, [Got fd, Gave fd], []))"

text \<open>
  The program on the device: opening it runs \<open>chr_open\<close> and the one read \<open>chr_read\<close> with the 32 bytes
  of the buffer. These are the lines in the kernel's log.
\<close>

definition char_main_log :: "(u32 \<Rightarrow> u32) \<Rightarrow> (u32 \<Rightarrow> u32) \<Rightarrow> u32 \<Rightarrow> int \<Rightarrow> string list" where
  "char_main_log MAJOR MINOR i_rdev fd =
     (if fd < 0 then [] else snd (chr_open MAJOR MINOR i_rdev) @ snd (chr_read 32))"

section \<open>fs/file\_write.c\<close>

text \<open>
  The file is its content, \<open>None\<close> when it does not exist. \<open>open\<close> answers a descriptor or -1, and with
  \<open>O_CREAT\<close> it makes a missing file; with \<open>O_APPEND\<close>, \<open>write\<close> adds as many of the bytes as it
  accepts (\<open>accepted\<close>) at the end.
\<close>

definition file_write_main ::
    "nat \<Rightarrow> int \<Rightarrow> string \<Rightarrow> nat \<Rightarrow> string option \<Rightarrow> int \<times> string option \<times> int kop list \<times> string list" where
  "file_write_main argc fd strerror accepted file =
     (if argc < 2 then (0, file, [], [])
      else if fd = -1 then (0, file, [], [line (''error is '' @ strerror)])
      else
        let file = (case file of None \<Rightarrow> [] | Some s \<Rightarrow> s); buf = line ''hello world'' in
        (0, Some (file @ take accepted buf), [Got fd, Gave fd], [line (''success fd = '' @ signed_decimal fd)]))"

section \<open>backtrace/bt\_user.c\<close>

definition BT_MAX_TRACE :: nat where
  "BT_MAX_TRACE = 100"

text \<open>
  \<open>backtrace\<close> is given the size of the array and fills it; \<open>backtrace_symbols\<close> answers NULL or the
  strings. The loop reads a string for every frame: with NULL, or with fewer strings, it is a fault.
\<close>

fun print_frames :: "string list \<Rightarrow> nat \<Rightarrow> nat \<Rightarrow> string list option" where
  "print_frames strings i 0 = Some []"
| "print_frames strings i (Suc n) =
     (if i < length strings then map_option ((#) (line (strings ! i))) (print_frames strings (Suc i) n) else None)"

definition print_trace :: "(nat \<Rightarrow> u32 list) \<Rightarrow> (u32 list \<Rightarrow> string list option) \<Rightarrow> string list option" where
  "print_trace backtrace backtrace_symbols =
     (let array = backtrace BT_MAX_TRACE; size = length array;
          obtained = line (''Obtained '' @ decimal size @ '' stack frames.'')
      in case backtrace_symbols array of
           None \<Rightarrow> if size = 0 then Some [obtained] else None
         | Some strings \<Rightarrow> map_option ((#) obtained) (print_frames strings 0 size))"

definition dummy_function :: "(nat \<Rightarrow> u32 list) \<Rightarrow> (u32 list \<Rightarrow> string list option) \<Rightarrow> string list option" where
  "dummy_function backtrace backtrace_symbols = print_trace backtrace backtrace_symbols"

definition bt_test1 :: "(nat \<Rightarrow> u32 list) \<Rightarrow> (u32 list \<Rightarrow> string list option) \<Rightarrow> string list option" where
  "bt_test1 backtrace backtrace_symbols = dummy_function backtrace backtrace_symbols"

definition bt_test2 :: "(nat \<Rightarrow> u32 list) \<Rightarrow> (u32 list \<Rightarrow> string list option) \<Rightarrow> string list option" where
  "bt_test2 backtrace backtrace_symbols = bt_test1 backtrace backtrace_symbols"

definition bt_main :: "(nat \<Rightarrow> u32 list) \<Rightarrow> (u32 list \<Rightarrow> string list option) \<Rightarrow> (int \<times> string list) option" where
  "bt_main backtrace backtrace_symbols = map_option (Pair 0) (bt_test2 backtrace backtrace_symbols)"

section \<open>hotplug.c\<close>

text \<open>
  \<open>syslog\<close> with a format whose only conversion is \<open>%s\<close>: each takes the next argument, and one for
  which there is none makes the call undefined.
\<close>

fun syslog :: "string \<Rightarrow> string list \<Rightarrow> string option" where
  "syslog [] args = Some []"
| "syslog (c # cs) args =
     (if c = CHR ''%'' \<and> cs \<noteq> [] \<and> hd cs = CHR ''s'' then
        (case args of [] \<Rightarrow> None | a # rest \<Rightarrow> map_option ((@) a) (syslog (tl cs) rest))
      else map_option ((#) c) (syslog cs args))"

fun log_environ :: "string list \<Rightarrow> string list option" where
  "log_environ [] = Some []"
| "log_environ (v # var) =
     Option.bind (syslog (line ''env=%s'') [v]) (\<lambda>l. map_option ((#) l) (log_environ var))"

definition hotplug_main :: "string list \<Rightarrow> string list \<Rightarrow> (int \<times> string list) option" where
  "hotplug_main argv environ =
     Option.bind (syslog (line ''----------------------------------'') []) (\<lambda>l1.
     Option.bind (syslog (line ''argv[1]=%s'' @ '', argv[1]'') []) (\<lambda>l2.
     Option.bind (log_environ environ) (\<lambda>ls.
     Option.bind (syslog (line ''----------------------------------'') []) (\<lambda>l3.
       Some (0, [l1, l2] @ ls @ [l3])))))"

section \<open>What the programs do\<close>

text \<open>Both programs that open a descriptor close it.\<close>

lemma descriptors_closed:
  "leaked (fst (snd (char_main fd))) = []" "misused (fst (snd (char_main fd))) = []"
  "leaked (fst (snd (snd (file_write_main argc fd e k file)))) = []"
  "misused (fst (snd (snd (file_write_main argc fd e k file)))) = []"
  by (simp_all add: char_main_def file_write_main_def leaked_def misused_def Let_def)

text \<open>
  \<open>file_write\<close> only ever adds to the file, and adds the greeting whole when the write is. Its exit
  status does not tell: it is 0 when the file could not be opened.
\<close>

lemma file_write_appends:
  "fst (file_write_main argc fd e k file) = 0
   \<and> (\<exists>s. fst (snd (file_write_main argc fd e k (Some old))) = Some (old @ s))
   \<and> (2 \<le> argc \<longrightarrow> fd \<noteq> -1 \<longrightarrow> 12 \<le> k \<longrightarrow>
      fst (snd (file_write_main argc fd e k (Some old))) = Some (old @ line ''hello world''))"
  by (simp add: file_write_main_def Let_def)

text \<open>
  With one string for each frame, as \<open>backtrace_symbols\<close> documents, the program prints the number of
  frames and then the strings in order. When it is out of memory the program faults.
\<close>

lemma print_frames_all: "i + n \<le> length strings \<Longrightarrow> print_frames strings i n = Some (map line (take n (drop i strings)))"
  by (induction n arbitrary: i) (simp_all add: Cons_nth_drop_Suc [symmetric])

lemma bt_main_prints:
  assumes "backtrace BT_MAX_TRACE = array" "backtrace_symbols array = Some strings" "length strings = length array"
  shows "bt_main backtrace backtrace_symbols =
    Some (0, line (''Obtained '' @ decimal (length array) @ '' stack frames.'') # map line strings)"
  using assms print_frames_all [of 0 "length array" strings]
  by (simp add: bt_main_def bt_test2_def bt_test1_def dummy_function_def print_trace_def Let_def)

lemma bt_main_no_memory:
  assumes "backtrace_symbols (backtrace BT_MAX_TRACE) = None" "backtrace BT_MAX_TRACE \<noteq> []"
  shows "bt_main backtrace backtrace_symbols = None"
  using assms by (simp add: bt_main_def bt_test2_def bt_test1_def dummy_function_def print_trace_def Let_def)

text \<open>
  The environment is logged one line for each variable. But \<open>hotplug\<close> never gets there: the closing
  quote of the second call stands after the argument, its conversion has none, and the program is
  undefined whatever its arguments and environment are.
\<close>

lemma syslog_literal: "CHR ''%'' \<notin> set s \<Longrightarrow> syslog s args = Some s"
  by (induction s) auto

lemma log_environ_lines: "log_environ var = Some (map (\<lambda>v. ''env='' @ line v) var)"
  by (induction var) (simp_all add: newline_def)

theorem hotplug_undefined: "hotplug_main argv environ = None"
  by (simp add: hotplug_main_def newline_def)

end
