(* ===== verification/Spec2Isabelle.thy ===== *)
theory Spec2Isabelle
  imports Remote_Properties Trace_Dump FS_Config Ramhd_Life Cmd_Hash Students Waitqueue Epoll Module_Life User_Programs
begin

text \<open>
  The repository is a collection of Linux programs and kernel modules. Its largest part is the
  user-space side of Android's binder (\<open>src/binder\<close>): a library that talks to the driver, the
  service manager built on it, and an example server and client. The rest is small drivers
  and modules: three RAM disks, two users of the kernel's hash lists, a character device with a wait
  queue, an epoll server with its client, and examples of seq_file, sysctl, debugfs, tracepoints,
  kobjects and devices.

  \<^bold>\<open>Which theory models what.\<close> Paths are under \<open>src/\<close>.

  \<^item> \<open>Prelude\<close>: machine integers of the 32-bit ARM build, error numbers, named collections, generic
    lemmas. \<open>C_Memory\<close>: byte-addressed little-endian memory, with loads, stores and frames.
  \<^item> \<open>Binder_Proto\<close>: the constants and the structures of \<open>binder/include/linux/binder.h\<close>, with their
    layout in memory.
  \<^item> \<open>Binder_IO\<close>: the parcels of \<open>binder/binder.c\<close> (\<open>struct binder_io\<close>, all \<open>bio_*\<close> functions).
    \<open>Parcel\<close> states the writer's contract as the locale \<open>parcel_writer\<close> (bounds, sticky overflow flag,
    exact contents) and \<open>Parcel_Channel\<close> the reader's, with the round trips through both.
  \<^item> \<open>Binder_Core\<close>: the connection of \<open>binder/binder.c\<close>: \<open>binder_open\<close>, commands, \<open>binder_parse\<close>,
    \<open>binder_call\<close>, \<open>binder_loop\<close>. \<open>Binder_Frame\<close>, \<open>Binder_Parse\<close>, \<open>Binder_Commands\<close>: what these
    leave alone, that parsing returns, the bytes each command sends, the reply of a call.
    \<open>Binder_Service\<close>: the contract between the library and a program that serves calls, the locale
    \<open>binder_service\<close>; parsing a buffer is executing the commands it encodes.
    \<open>Binder_Codes\<close>: the rest of the protocol's codes; a code announces the size of its payload, the
    parser moves by it, and everything sent is made of whole commands. \<open>Trace_Dump\<close>: the tracing
    functions \<open>hexdump\<close>, \<open>binder_dump_txn\<close> and \<open>cmd_name\<close>.
  \<^item> \<open>Service_Manager\<close>: \<open>binder/service_manager.c\<close>, its registry as the linked list of the code.
    \<open>Service_Registry\<close>: the invariant of the list, and its refinement of a map from names to
    entries. \<open>Svcmgr_Service\<close> interprets \<open>binder_service\<close> on the handler and the death callback;
    \<open>Svcmgr_Properties\<close> has the results, \<open>Svcmgr_Witness\<close> the concrete inputs.
  \<^item> \<open>Test_Server\<close>, \<open>Test_Client\<close>: \<open>binder/test_server.c\<close>, \<open>binder/test_client.c\<close>.
    \<open>Binder_System\<close> and this theory: the programs together, from the request a client builds through
    the handler to the result it reads. \<open>Resources\<close>: logs of what is obtained and given back.
    \<open>Binder_Resources\<close>: the driver, watched: what \<open>binder_open\<close> holds when it returns, and the references
    a run of the client keeps. \<open>Binder_Remote\<close>, \<open>Remote_Properties\<close>: calls between processes, from the
    call in the client through the driver and the handler of the server to its return, and \<open>main\<close> of the
    client as a whole.
  \<^item> \<open>Capability\<close>, \<open>FS_Config\<close>: \<open>binder/include/private/android_filesystem_capability.h\<close> and
    \<open>android_filesystem_config.h\<close>.
  \<^item> \<open>Ramdisk\<close>: the transfers of \<open>ramdisk-lab/ramhd_mkreq.c\<close>, \<open>ramhd_req.c\<close> and \<open>sample_blk.c\<close>, and
    the life of the last. \<open>Ramdisk_Correct\<close>: the locale \<open>ram_disk\<close> (a disk is an array of bytes),
    interpreted on the three drivers. \<open>Ramhd_Life\<close>: loading and unloading the two \<open>ramhd\<close> drivers.
  \<^item> \<open>Kernel_List\<close>: the interface of \<open>linux/list.h\<close> and \<open>kmalloc\<close>. \<open>Cmd_Hash\<close>:
    \<open>hlist/hlist1/hlist.c\<close>. \<open>Students\<close>: \<open>hlist/hlist2/hlist.c\<close>.
  \<^item> \<open>Waitqueue\<close>: \<open>waitqueue/waitqueue.c\<close>, for any interleaving of readers and writers.
  \<^item> \<open>Epoll\<close>: \<open>epoll/epoll_server.c\<close>, \<open>epoll/epoll_client.c\<close>.
  \<^item> \<open>Small_Modules\<close>: the iterator of \<open>seqfile/seqfile_test.c\<close>, the attribute of
    \<open>kobject-example/kset_init_register/kset.c\<close>, the timer of \<open>trace_events/test_trace_event.c\<close>.
  \<^item> \<open>Module_Life\<close>: loading and unloading of the other example modules, as what each obtains from
    and gives back to the kernel; the locale \<open>tidy_module\<close> for those that clean up.
  \<^item> \<open>Formatting\<close>: the conversions of \<open>printf\<close>. \<open>Module_Files\<close>: the file operations of the sysctl,
    debugfs, character device, single_open and tracepoint examples, the event of
    \<open>trace_events/test_driver.h\<close>, and the modules that print (\<open>module-template\<close>, \<open>module-para\<close>,
    \<open>trace_printk\<close>, \<open>bit\<close>). \<open>User_Programs\<close>: \<open>char/main.c\<close>, \<open>fs/file_write.c\<close>,
    \<open>backtrace/bt_user.c\<close>, \<open>kobject-example/hotplug/hotplug.c\<close>.

  \<^bold>\<open>State and effects.\<close> A C structure is a record; a pointer is a 32-bit word into \<open>C_Memory\<close> where the
  code does pointer arithmetic (binder), and an abstract address or index where it does not. Functions
  take the state and return it changed. An error code of the source is a value; \<open>None\<close> is a fault: an
  access outside an object, a use of a NULL or freed pointer, or a loop that does not end.

  \<^bold>\<open>Code outside the repository\<close> is a parameter. The binder driver and the other system calls are the
  fields of a record \<open>kernel\<close>; \<open>driver_ok\<close> says what is relied on of them: an \<open>ioctl\<close> writes only the
  read buffer it is given and its own mapping, and reports no more read than there is room for. Where a
  process is to get an answer, \<open>relays\<close> says that the driver passes requests on: the ioctl of a call comes
  back with a reply; and \<open>served\<close> that this reply is what the handler of the serving process has written
  for the request, with an object in it replaced by the caller's handle for it. The permission checks of
  the service manager are those of the source, which always grant. \<open>linux/list.h\<close> enters as the hypothesis \<open>klist_ok\<close> and \<open>kmalloc\<close> as
  \<open>kmalloc_ok\<close> (a fresh address or NULL). What the block layer hands to a driver, what \<open>epoll_wait\<close>,
  \<open>read\<close>, \<open>copy_to_user\<close> and the allocators return, are inputs.

  \<^bold>\<open>Loops.\<close> Loops over data are structural or have a termination proof. The loops of the binder library
  that run until the driver says otherwise are partial functions into \<open>option\<close>; that they return, or go
  on serving, is proved as such (\<open>binder_parse_returns\<close>, \<open>svcmgr_keeps_serving\<close>,
  \<open>binder_call_delivers\<close>, \<open>client_main_runs\<close>). There is no fuel in any definition.

  \<^bold>\<open>What is shown.\<close> Parcels: writing never leaves the buffer, the overflow flag is exact, what is
  written is read back. Library: parsing returns and refines the execution of the encoded commands; a
  call delivers its reply or a safe error parcel; a reply's buffer is freed once; commands are typed by
  their codes; a failed open gives back all but the exact exception. Service manager: its
  handler implements a registry with lookups, registrations, deaths and listing, across the wire
  and for ever. Programs: a lookup, a registration and a greeting work end to end; a
  lookup and a greeting return, in the client, what the registry and the server's counter say; and the
  client's \<open>main\<close> returns, with the status its two lookups call for. RAM disks: what is
  written is read back and nothing else changes, requests outside are refused, with the exact exceptions.
  Lists: no student is lost or freed twice, with the exact exception. Wait queue: a queue of bytes that
  loses no wake-up, until its 1024 bytes are used up. Modules: which give back what they take. Several
  theorems state a defect exactly, with the condition under which it shows.

  \<^bold>\<open>Not modelled.\<close> The log messages of the programs, except where printing is all a function does; the
  block device functions \<open>open\<close> and \<open>release\<close> that return 0 or nothing; \<open>ct_open\<close>, which only calls
  \<open>seq_open\<close>; \<open>usage\<close> of \<open>epoll_client.c\<close>; what the kernel's macros make of the declarations in the
  two trace headers, beyond the record and the text of the event.
\<close>

section \<open>From the client to the service manager and back\<close>

text \<open>
  A lookup, end to end. The message \<open>svcmgr_lookup\<close> builds for a name of at most 200
  characters, delivered to the service manager, makes its handler succeed; and when the reply is
  delivered to the client, the handle the client reads from it is the one the registry holds
  for that name and that caller, or 0 when there is none.
\<close>

theorem lookup_end_to_end:
  assumes "svc_rep (w_app w) R" and "buffer_ok iodata 512 4" and "length name \<le> 200"
    and "request_msg [PutUint32 0, PutString16X (Some SVC_MGR_NAME), PutString16X (Some name)] iodata m = (msg, m1)"
    and "delivered m1 msg (w_mem w) smsg"
    and t: "t = load_txn (w_mem w) txn" "t_target t = svcmgr_handle (w_app w)" "t_code t = SVC_MGR_CHECK_SERVICE"
    and rdata: "buffer_ok rdata 256 4"
  shows "\<exists>reply w'. svcmgr_handler K bs txn smsg (bio_init zero_bio rdata 256 4) w = Some (0, reply, w') \<and>
     (\<forall>m3 r. delivered (w_mem w') reply m3 r \<longrightarrow>
        fst (bio_get_ref m3 r) = reg_find (R (widen name)) (t_sender_euid t))"
proof -
  let ?h = "reg_find (R (widen name)) (t_sender_euid t)" and ?b = "bio_init zero_bio rdata 256 4"
  obtain ps where ps: "svc_list (w_app w) ps" "svc_regs (w_app w) ps = R" using assms(1) by (auto simp: svc_rep_def)
  let ?op = "if ?h = 0 then bio_put_uint32 0 else bio_put_ref ?h"
  have eq: "svcmgr_handler K bs txn smsg ?b w = Some (put_reply ?op ?b w)"
    using handler_find [OF ps(1) lookup_delivered [OF assms(2-5)] t(1,2)] t(3) ps(2) by simp
  obtain reply m' where r: "?op (?b, w_mem w) = (reply, m')" by (metis surj_pair)
  have "fst (bio_get_ref m3 c) = ?h" if "delivered m' reply m3 c" for m3 c
    using reply_word_read(2) [OF rdata _ that] reply_ref_read [OF rdata _ _ that] r by (cases "?h = 0") auto
  then show ?thesis using eq r by (simp add: put_reply_eq)
qed

theorem lookup_end_to_end_witness:
  "\<exists>msg m1 smsg w reply w'. request_msg [PutUint32 0, PutString16X (Some SVC_MGR_NAME), PutString16X (Some ''hello'')]
       0x7fff3000 (\<lambda>_. 0) = (msg, m1) \<and> delivered m1 msg (w_mem w) smsg \<and>
     svcmgr_handler null_kernel null_bs 0x7fff1000 smsg (bio_init zero_bio 0x7fff4000 256 4) w = Some (0, reply, w') \<and>
     (\<forall>m3 r. delivered (w_mem w') reply m3 r \<longrightarrow> fst (bio_get_ref m3 r) = 0)"
proof -
  let ?ops = "[PutUint32 0, PutString16X (Some SVC_MGR_NAME), PutString16X (Some ''hello'')]"
  obtain msg m1 where msg: "request_msg ?ops 0x7fff3000 (\<lambda>_. 0) = (msg, m1)" by (metis surj_pair)
  have buf: "buffer_ok 0x7fff3000 512 4" "buffer_ok 0x7fff4000 256 4" by (simp_all add: buffer_ok_def)
  have h: "length ''hello'' \<le> 200" by simp
  obtain bss where bss: "list_all2 op_enc ?ops bss" "bio_written m1 msg = concat bss" "bio_objs m1 msg = []"
    using fresh_puts [OF buf(1) _ _ _ msg [unfolded request_msg_def]]
    by (auto simp: SVC_MGR_NAME_def c_string_def str_len_def widen_def align4_nat_def)
  let ?bs = "bio_written m1 msg"
  have "length ?bs \<le> 0x1000"
    using bss(1,2) by (auto simp: list_all2_Cons1 is_str16_def SVC_MGR_NAME_def c_string_def str_len_def
        widen_def align4_nat_def)
  note len = this
  let ?w = "msg_world (call_txn 2 1000) [] ?bs"
  have del: "delivered m1 msg (w_mem ?w) (msg_bio [] ?bs)"
    using msg_bio_read [OF len, of "[]"] bss(3) by (simp add: delivered_def) (simp add: msg_bio_def)
  have t: "call_txn 2 1000 = load_txn (w_mem ?w) 0x7fff1000" using msg_world_load(1) [OF len, of "[]"] by simp
  have rep: "svc_rep (w_app ?w) Map.empty" by (simp add: svc_empty_rep)
  have tc: "t_target (call_txn 2 1000) = svcmgr_handle (w_app ?w)" "t_code (call_txn 2 1000) = SVC_MGR_CHECK_SERVICE"
    by (simp_all add: call_txn_def svc_empty_def svc_consts)
  from lookup_end_to_end [OF rep buf(1) h msg del t tc buf(2), of null_kernel null_bs]
  show ?thesis using msg del by (simp add: reg_find_def) blast
qed

text \<open>
  C2: A publication, end to end. The message \<open>svcmgr_publish\<close> builds for a non-empty name of at
  most 127 characters, delivered with the sender's object replaced by a non-zero handle, makes
  the service manager register that handle under that name, closed to isolated processes
  when the name is new, and answer status 0, unless it is out of memory for a new name.
\<close>

theorem publish_end_to_end:
  assumes inv: "svcmgr_inv K bs live (w_app w) (w_k w)" and rep: "svc_rep (w_app w) R" and sp: "64 \<le> unat (w_sp w)"
    and "buffer_ok iodata 512 4" and name: "c_string name \<noteq> []" "length name \<le> 127" and "h \<noteq> 0"
    and "publish_msg name ptr iodata m = (msg, m1)" and "delivered_handle m1 msg h (w_mem w) smsg"
    and t: "t = load_txn (w_mem w) txn" "t_target t = svcmgr_handle (w_app w)" "t_code t = SVC_MGR_ADD_SERVICE"
    and mem: "R (widen name) \<noteq> None \<or>
      fst (k_malloc K (sizeof_svcinfo + (of_nat (length (widen name)) + 1) * 2) (w_k w)) \<noteq> 0"
    and rdata: "buffer_ok rdata 256 4"
  shows "\<exists>reply w'. svcmgr_handler K bs txn smsg (bio_init zero_bio rdata 256 4) w = Some (0, reply, w') \<and>
     svc_rep (w_app w') (reg_add (widen name) h False R) \<and>
     (\<forall>m3 r. delivered (w_mem w') reply m3 r \<longrightarrow> fst (bio_get_uint32 m3 r) = 0)"
proof -
  obtain ps where ok: "svc_ok K bs live ps R w" using svc_ok_intro [OF inv rep sp] by blast
  let ?nm = "widen name" and ?b = "bio_init zero_bio rdata 256 4"
  have "length name \<le> 200" using name(2) by simp
  note args = publish_delivered [OF assms(4) this assms(8,9)]
  obtain s where s0: "u16s_at (w_mem w) s (length ?nm) = ?nm" and eq: "svcmgr_handler K bs txn smsg ?b w =
     map_option (\<lambda>(r, w). if r \<noteq> 0 then (-1, ?b, w) else put_reply (bio_put_uint32 0) ?b w)
       (do_add_service K bs s (of_nat (length ?nm)) h (t_sender_euid t) 0 (t_sender_pid t) w)"
    using handler_add [OF args t, of K bs ?b] by auto
  have l: "length ?nm \<le> 127" "?nm \<noteq> []" using name length_widen [of name] by (auto simp: widen_def)
  then have "unat (of_nat (length ?nm) :: u32) = length ?nm" by simp
  then have s: "?nm = u16s_at (w_mem w) s (unat (of_nat (length ?nm) :: u32))" using s0 by simp
  have "\<not> add_refused K (w_k w) R ?nm h" using l mem \<open>h \<noteq> 0\<close> by (auto simp: add_refused_def)
  then obtain w' ps' where w': "do_add_service K bs s (of_nat (length ?nm)) h (t_sender_euid t) 0 (t_sender_pid t) w = Some (0, w')"
      "svc_ok K bs live ps' (reg_add ?nm h False R) w'"
    using do_add_service_spec [OF ok s, of h "t_sender_euid t" 0 "t_sender_pid t"] by (auto simp: add_result_def)
  obtain reply m' where r: "bio_put_uint32 0 (?b, w_mem w') = (reply, m')" by (metis surj_pair)
  then show ?thesis
    using eq w' svc_okD(8) [OF w'(2)] reply_word_read(1) [OF rdata r] by (simp add: put_reply_eq)
qed

theorem publish_end_to_end_witness:
  "\<exists>msg m1 smsg w reply w'. publish_msg ''hello'' 0x8000 0x7fff3000 (\<lambda>_. 0) = (msg, m1) \<and>
     delivered_handle m1 msg 7 (w_mem w) smsg \<and>
     svcmgr_handler null_kernel null_bs 0x7fff1000 smsg (bio_init zero_bio 0x7fff4000 256 4) w = Some (0, reply, w') \<and>
     svc_rep (w_app w') (reg_add (widen ''hello'') 7 False Map.empty)"
proof -
  let ?ops = "[PutUint32 0, PutString16X (Some SVC_MGR_NAME), PutString16X (Some ''hello''), PutObj 0x8000]"
  obtain msg m1 where msg: "publish_msg ''hello'' 0x8000 0x7fff3000 (\<lambda>_. 0) = (msg, m1)" by (metis surj_pair)
  have buf: "buffer_ok 0x7fff3000 512 4" "buffer_ok 0x7fff4000 256 4" by (simp_all add: buffer_ok_def)
  obtain bss where bss: "list_all2 op_enc ?ops bss" "bio_written m1 msg = concat bss" "bio_objs m1 msg = [80]"
    using fresh_puts [OF buf(1) _ _ _ msg [unfolded publish_msg_def]]
    by (auto simp: SVC_MGR_NAME_def c_string_def str_len_def widen_def align4_nat_def)
  let ?bs = "take (bio_used msg - 16) (bio_written m1 msg) @ obj_bytes (handle_obj 7)"
  have "length (bio_written m1 msg) \<le> 0x800"
    using bss(1,2) by (auto simp: list_all2_Cons1 is_str16_def SVC_MGR_NAME_def c_string_def str_len_def
        widen_def align4_nat_def)
  then have len: "length ?bs \<le> 0x1000" by simp
  let ?w = "msg_world (call_txn 3 1000) (le32 80) ?bs"
  have "load32 (w_mem ?w) 0x40001000 = 80"
    by (rule load32_prefix [where n = 4 and bs = "[]"]) (use msg_world_load(3) [OF len, of "le32 80"] in simp)
  then have del: "delivered_handle m1 msg 7 (w_mem ?w) (msg_bio (le32 80) ?bs)"
    using msg_bio_read [OF len, of "le32 80"] bss(3) by (simp add: delivered_handle_def) (simp add: msg_bio_def)
  have t: "call_txn 3 1000 = load_txn (w_mem ?w) 0x7fff1000" using msg_world_load(1) [OF len, of "le32 80"] by simp
  have inv: "svcmgr_inv null_kernel null_bs null_live (w_app ?w) (w_k ?w)" and rep: "svc_rep (w_app ?w) Map.empty"
    and sp: "64 \<le> unat (w_sp ?w)" by (simp_all add: svc_empty_inv svc_empty_rep)
  have tc: "t_target (call_txn 3 1000) = svcmgr_handle (w_app ?w)" "t_code (call_txn 3 1000) = SVC_MGR_ADD_SERVICE"
    by (simp_all add: call_txn_def svc_empty_def svc_consts)
  have name: "c_string ''hello'' \<noteq> []" "length ''hello'' \<le> 127" "(7 :: u32) \<noteq> 0" by (simp_all add: c_string_def)
  from publish_end_to_end [OF inv rep sp buf(1) name msg del t tc _ buf(2)]
  show ?thesis using msg del by (simp add: null_malloc_0) blast
qed

text \<open>
  A greeting, end to end. The request \<open>sayhello_to\<close> of the client builds, delivered to the
  example server, is counted there, and the number the client reads from the delivered reply is
  the server's new count.
\<close>

theorem greeting_end_to_end:
  assumes "buffer_ok iodata 512 4" and "length name \<le> 200"
    and "request_msg [PutUint32 0, PutString16X (Some ''IHelloService''), PutString16X (Some name)] iodata m = (msg, m1)"
    and "delivered m1 msg (w_mem w) smsg"
    and "t_code (load_txn (w_mem w) txn) = HELLO_SVR_CMD_SAYHELLO_TO" and "t_target (load_txn (w_mem w) txn) = hello"
    and rdata: "buffer_ok rdata 256 4"
  shows "\<exists>reply w'. test_server_handler hello goodbye bs txn smsg (bio_init zero_bio rdata 256 4) w = Some (0, reply, w') \<and>
     hello_to_cnt (w_app w') = hello_to_cnt (w_app w) + 1 \<and>
     (\<forall>m3 r. delivered (w_mem w') reply m3 r \<longrightarrow> fst (read_result m3 r) = hello_to_cnt (w_app w'))"
proof -
  let ?b = "bio_init zero_bio rdata 256 4" and ?n = "hello_to_cnt (w_app w) + 1"
  let ?m = "store_bytes (w_sp w - 512) (map ucast (widen name) @ [0]) (w_mem w)"
  obtain reply m' where r: "(bio_put_uint32 ?n \<circ> bio_put_uint32 0) (?b, ?m) = (reply, m')" by (metis surj_pair)
  show ?thesis
    using hello_to_result [OF greeting_delivered [OF assms(1-4)] assms(5), of bs ?b] r
      reply_result_read [OF rdata r] assms(6)
    by (simp add: test_server_handler_def put_reply_eq)
qed

theorem greeting_end_to_end_witness:
  "\<exists>msg m1 smsg (w :: (nat, server_state) world) reply w'. request_msg [PutUint32 0, PutString16X (Some ''IHelloService''), PutString16X (Some ''Bob'')]
       0x7fff3000 (\<lambda>_. 0) = (msg, m1) \<and> delivered m1 msg (w_mem w) smsg \<and>
     test_server_handler 0 0x8000 null_bs 0x7fff1000 smsg (bio_init zero_bio 0x7fff4000 256 4) w = Some (0, reply, w') \<and>
     hello_to_cnt (w_app w') = 7 \<and> (\<forall>m3 r. delivered (w_mem w') reply m3 r \<longrightarrow> fst (read_result m3 r) = 7)"
proof -
  let ?ops = "[PutUint32 0, PutString16X (Some ''IHelloService''), PutString16X (Some ''Bob'')]"
  obtain msg m1 where msg: "request_msg ?ops 0x7fff3000 (\<lambda>_. 0) = (msg, m1)" by (metis surj_pair)
  have buf: "buffer_ok 0x7fff3000 512 4" "buffer_ok 0x7fff4000 256 4" by (simp_all add: buffer_ok_def)
  obtain bss where bss: "list_all2 op_enc ?ops bss" "bio_written m1 msg = concat bss" "bio_objs m1 msg = []"
    using fresh_puts [OF buf(1) _ _ _ msg [unfolded request_msg_def]]
    by (auto simp: c_string_def str_len_def widen_def align4_nat_def)
  let ?bs = "bio_written m1 msg"
  have len: "length ?bs \<le> 0x1000"
    using bss(1,2) by (auto simp: list_all2_Cons1 is_str16_def c_string_def str_len_def widen_def align4_nat_def)
  let ?w = "(greet_world 0)\<lparr>w_mem := w_mem (msg_world (call_txn 2 0) [] ?bs)\<rparr>"
  have del: "delivered m1 msg (w_mem ?w) (msg_bio [] ?bs)"
    using msg_bio_read [OF len, of "[]"] bss(3) by (simp add: delivered_def) (simp add: msg_bio_def)
  have t: "t_code (load_txn (w_mem ?w) 0x7fff1000) = HELLO_SVR_CMD_SAYHELLO_TO"
      "t_target (load_txn (w_mem ?w) 0x7fff1000) = 0"
    using msg_world_load(1) [OF len, of "[]" "call_txn 2 0"] by (simp_all add: call_txn_def greet_codes)
  have cnt: "hello_to_cnt (w_app ?w) = 6" by (simp add: greet_world_def)
  obtain reply w' where r: "test_server_handler 0 0x8000 null_bs 0x7fff1000 (msg_bio [] ?bs)
        (bio_init zero_bio 0x7fff4000 256 4) ?w = Some (0, reply, w')" "hello_to_cnt (w_app w') = 7"
      "\<forall>m3 r. delivered (w_mem w') reply m3 r \<longrightarrow> fst (read_result m3 r) = 7"
    using greeting_end_to_end [OF buf(1) _ msg del t buf(2), of "0x8000" null_bs] cnt by auto
  show ?thesis using msg del r by blast
qed

end
